(* ===== verification/Prelude.thy ===== *)
theory Prelude
  imports Main "HOL-Library.Word" "HOL-Library.AList"
begin

text \<open>
  Shared vocabulary of the development: the result type of operations that may
  fault (a null \<open>shared_ptr\<close> that is dereferenced, a loop that does not return), loops
  over such operations, the hash sets of the program, and decimal printing.
\<close>

subsection \<open>Collections of rules\<close>

text \<open>
  \<open>view_simps\<close> collects the facts "this operation leaves the linked structure of the
  chat unchanged"; \<open>okR_intros\<close> the rules that push a postcondition through a
  faulting computation.
\<close>

named_theorems view_simps
named_theorems okR_intros

subsection \<open>Results\<close>

text \<open>
  \<open>NullDeref\<close> is a dereferenced null pointer, \<open>BadIndex\<close> an index outside of a vector and
  \<open>BadIterator\<close> a container that changes while a loop walks through it (undefined behaviour
  in the source), \<open>NoReturn\<close> a loop that never leaves.
\<close>

datatype fault = NullDeref | BadIndex | BadIterator | NoReturn

type_synonym 'a result = "fault + 'a"

definition bindS :: "'e + 'a \<Rightarrow> ('a \<Rightarrow> 'e + 'b) \<Rightarrow> 'e + 'b" where
  "bindS r f = (case r of Inl e \<Rightarrow> Inl e | Inr x \<Rightarrow> f x)"

lemma bindS_simps [simp]:
  "bindS (Inl e) f = Inl e"
  "bindS (Inr x) f = f x"
  by (simp_all add: bindS_def)

lemma bindS_Inr_iff: "bindS r f = Inr y \<longleftrightarrow> (\<exists>x. r = Inr x \<and> f x = Inr y)"
  by (cases r) auto

definition deref :: "'a option \<Rightarrow> 'a result" where
  "deref p = (case p of None \<Rightarrow> Inl NullDeref | Some x \<Rightarrow> Inr x)"

lemma deref_simps [simp]:
  "deref None = Inl NullDeref"
  "deref (Some x) = Inr x"
  by (simp_all add: deref_def)

definition returned :: "'a option \<Rightarrow> 'a result" where
  "returned p = (case p of None \<Rightarrow> Inl NoReturn | Some x \<Rightarrow> Inr x)"

lemma returned_simps [simp]:
  "returned None = Inl NoReturn"
  "returned (Some x) = Inr x"
  by (simp_all add: returned_def)

text \<open>A range-based \<open>for\<close> loop over a copy of a container, whose body may fault.\<close>

primrec foldR :: "('a \<Rightarrow> 's \<Rightarrow> 's result) \<Rightarrow> 'a list \<Rightarrow> 's \<Rightarrow> 's result" where
  "foldR f [] s = Inr s"
| "foldR f (x # xs) s = bindS (f x s) (foldR f xs)"

text \<open>
  A range-based \<open>for\<close> loop over a container \<open>get\<close> of the state itself: the body must not
  change it.
\<close>

definition iterR :: "('s \<Rightarrow> 'a list) \<Rightarrow> ('a \<Rightarrow> 's \<Rightarrow> 's result) \<Rightarrow> 's \<Rightarrow> 's result" where
  "iterR get f s = foldR (\<lambda>x v. bindS (f x v) (\<lambda>v.
     if get v = get s then Inr v else Inl BadIterator)) (get s) s"

lemma iterR_eq:
  assumes "\<And>x v v'. f x v = Inr v' \<Longrightarrow> get v' = get v"
  shows "iterR get f s = foldR f (get s) s"
proof -
  have "foldR (\<lambda>x v. bindS (f x v) (\<lambda>v. if get v = c then Inr v else Inl BadIterator)) xs v = foldR f xs v"
    if "get v = c" for xs c v
    using that
  proof (induction xs arbitrary: v)
    case (Cons x xs)
    with assms [of x v] show ?case by (cases "f x v") simp_all
  qed simp
  then show ?thesis by (simp add: iterR_def)
qed

text \<open>
  \<open>okR P r\<close>: the computation has no undefined behaviour, and if it returns then the
  returned value satisfies \<open>P\<close>.
\<close>

definition okR :: "('a \<Rightarrow> bool) \<Rightarrow> 'a result \<Rightarrow> bool" where
  "okR P r = (case r of Inl f \<Rightarrow> f = NoReturn | Inr x \<Rightarrow> P x)"

lemma okR_simps [simp]:
  "okR P (Inr x) = P x"
  "okR P (Inl f) = (f = NoReturn)"
  by (simp_all add: okR_def)

lemma okR_bindS [okR_intros]:
  "okR (\<lambda>x. okR P (f x)) r \<Longrightarrow> okR P (bindS r f)"
  by (cases r) auto

lemma okR_mono: "okR P r \<Longrightarrow> (\<And>x. P x \<Longrightarrow> Q x) \<Longrightarrow> okR Q r"
  by (cases r) auto

lemma okR_returned [okR_intros]: "(\<And>x. p = Some x \<Longrightarrow> P x) \<Longrightarrow> okR P (returned p)"
  by (cases p) auto

text \<open>
  \<open>safeR P r\<close> is \<open>okR\<close> for a computation that may also index a vector out of range.
\<close>

definition safeR :: "('a \<Rightarrow> bool) \<Rightarrow> 'a result \<Rightarrow> bool" where
  "safeR P r = (case r of Inl f \<Rightarrow> f = NoReturn \<or> f = BadIndex | Inr x \<Rightarrow> P x)"

lemma safeR_simps [simp]:
  "safeR P (Inr x) = P x"
  "safeR P (Inl f) = (f = NoReturn \<or> f = BadIndex)"
  by (simp_all add: safeR_def)

lemma safeR_bindS: "safeR (\<lambda>x. safeR P (f x)) r \<Longrightarrow> safeR P (bindS r f)"
  by (cases r) auto

lemma safeR_mono: "safeR P r \<Longrightarrow> (\<And>x. P x \<Longrightarrow> Q x) \<Longrightarrow> safeR Q r"
  by (cases r) auto

lemma okR_safeR: "okR P r \<Longrightarrow> (\<And>x. P x \<Longrightarrow> Q x) \<Longrightarrow> safeR Q r"
  by (cases r) auto

lemma okR_foldR:
  assumes "I s"
    and "\<And>x s. x \<in> set xs \<Longrightarrow> I s \<Longrightarrow> okR I (f x s)"
  shows "okR I (foldR f xs s)"
  using assms
proof (induction xs arbitrary: s)
  case Nil
  then show ?case by simp
next
  case (Cons x xs)
  have "okR I (f x s)" using Cons.prems by simp
  then have "okR (\<lambda>s'. okR I (foldR f xs s')) (f x s)"
    by (rule okR_mono) (use Cons in auto)
  then show ?case by (auto intro: okR_bindS)
qed

lemma foldR_invariant:
  assumes "\<And>x s s'. x \<in> set xs \<Longrightarrow> f x s = Inr s' \<Longrightarrow> v s' = v s"
    and "foldR f xs s = Inr s'"
  shows "v s' = v s"
  using assms
proof (induction xs arbitrary: s)
  case (Cons x xs)
  then obtain t where "f x s = Inr t" "foldR f xs t = Inr s'"
    by (auto simp: bindS_Inr_iff)
  then show ?case using Cons by force
qed simp

lemma fold_invariant_view:
  "(\<And>x s. x \<in> set xs \<Longrightarrow> v (f x s) = v s) \<Longrightarrow> v (fold f xs s) = v s"
  by (induction xs arbitrary: s) auto

subsection \<open>Hash sets\<close>

text \<open>
  An \<open>unordered_set\<close> or a \<open>set\<close> of pointers is the list of its elements in
  iteration order. The C++ library leaves the order open; here an insertion goes last.
\<close>

definition uset_insert :: "'a \<Rightarrow> 'a list \<Rightarrow> 'a list" where
  "uset_insert x xs = (if x \<in> set xs then xs else xs @ [x])"

definition uset_erase :: "'a \<Rightarrow> 'a list \<Rightarrow> 'a list" where
  "uset_erase x xs = filter (\<lambda>y. y \<noteq> x) xs"

lemma set_uset_insert [simp]: "set (uset_insert x xs) = insert x (set xs)"
  by (auto simp: uset_insert_def)

lemma set_uset_erase [simp]: "set (uset_erase x xs) = set xs - {x}"
  by (auto simp: uset_erase_def)

lemma distinct_uset_insert [simp]: "distinct (uset_insert x xs) = distinct xs"
  by (auto simp: uset_insert_def)

lemma distinct_uset_erase [simp]: "distinct xs \<Longrightarrow> distinct (uset_erase x xs)"
  by (simp add: uset_erase_def)

lemma uset_erase_notin [simp]: "x \<notin> set xs \<Longrightarrow> uset_erase x xs = xs"
  by (auto simp: uset_erase_def filter_id_conv)

lemma uset_insert_in [simp]: "x \<in> set xs \<Longrightarrow> uset_insert x xs = xs"
  by (simp add: uset_insert_def)

subsection \<open>Finding the first element\<close>

lemma find_SomeD: "find P xs = Some x \<Longrightarrow> x \<in> set xs \<and> P x"
  by (auto simp: find_Some_iff in_set_conv_nth)

lemma find_NoneD: "find P xs = None \<Longrightarrow> x \<in> set xs \<Longrightarrow> \<not> P x"
  by (auto simp: find_None_iff)

lemma find_append:
  "find P (xs @ ys) = (case find P xs of None \<Rightarrow> find P ys | Some x \<Rightarrow> Some x)"
  by (induction xs) auto

lemma find_Some_unique:
  assumes "x \<in> set xs" and "P x" and unique: "\<And>y. y \<in> set xs \<Longrightarrow> P y \<Longrightarrow> y = x"
  shows "find P xs = Some x"
proof (cases "find P xs")
  case None
  with assms(1,2) show ?thesis by (blast dest: find_NoneD)
next
  case (Some y)
  then have "y = x" using find_SomeD [OF Some] unique by blast
  with Some show ?thesis by simp
qed

subsection \<open>Decimal printing (\<open>std::to_string\<close>)\<close>

definition digit_char :: "nat \<Rightarrow> char" where
  "digit_char d = char_of (48 + d)"

fun show_nat :: "nat \<Rightarrow> string" where
  "show_nat n = (if n < 10 then [digit_char n] else show_nat (n div 10) @ [digit_char (n mod 10)])"

declare show_nat.simps [simp del]

lemma show_nat_small: "n < 10 \<Longrightarrow> show_nat n = [digit_char n]"
  by (simp add: show_nat.simps)

lemma show_nat_nonempty [simp]: "show_nat n \<noteq> []"
  by (simp add: show_nat.simps)

definition show_int :: "int \<Rightarrow> string" where
  "show_int i = (if i < 0 then CHR ''-'' # show_nat (nat (- i)) else show_nat (nat i))"

definition show_u32 :: "32 word \<Rightarrow> string" where
  "show_u32 x = show_nat (unat x)"

end
