(* ===== verification/Texts.thy ===== *)
theory Texts
  imports Prelude
begin

text \<open>
  The literal texts of the source, byte for byte: the sources are UTF-8 and a
  \<open>std::string\<close> is a sequence of bytes, so each literal is the list of its
  UTF-8 bytes. The comment before each definition gives the meaning in English.
\<close>

definition utf8 :: "nat list \<Rightarrow> string" where
  "utf8 ns = map char_of ns"

definition quote :: string where
  "quote = [CHR 0x22]"

definition newline :: string where
  "newline = [CHR 0x0A]"

definition tab :: string where
  "tab = [CHR 0x09]"

text \<open>You write too often.\<close>

definition txt_flood :: string where
  "txt_flood = utf8 [
    208, 146, 209, 139, 32, 209, 129, 208, 187, 208, 184, 209, 136, 208, 186, 208, 190, 208,
    188, 32, 209, 135, 208, 176, 209, 129, 209, 130, 208, 190, 32, 208, 191, 208, 184, 209, 136,
    208, 181, 209, 130, 208, 181, 33]"

text \<open>You forgot the message text.\<close>

definition txt_no_text :: string where
  "txt_no_text = utf8 [
    208, 146, 209, 139, 32, 208, 183, 208, 176, 208, 177, 209, 139, 208, 187, 208, 184, 32, 208,
    189, 208, 176, 208, 191, 208, 184, 209, 129, 208, 176, 209, 130, 209, 140, 32, 209, 130,
    208, 181, 208, 186, 209, 129, 209, 130, 32, 209, 129, 208, 190, 208, 190, 208, 177, 209,
    137, 208, 181, 208, 189, 208, 184, 209, 143, 32, 58, 40]"

text \<open>You cannot write to the room (quote).\<close>

definition txt_cannot_write :: string where
  "txt_cannot_write = utf8 [
    208, 146, 209, 139, 32, 208, 189, 208, 181, 32, 208, 188, 208, 190, 208, 182, 208, 181, 209,
    130, 208, 181, 32, 208, 191, 208, 184, 209, 129, 208, 176, 209, 130, 209, 140, 32, 208, 178,
    32, 208, 186, 208, 190, 208, 188, 208, 189, 208, 176, 209, 130, 209, 131, 32, 34]"

text \<open>Choose a nick first.\<close>

definition txt_need_nick :: string where
  "txt_need_nick = utf8 [
    208, 159, 208, 181, 209, 128, 208, 181, 208, 180, 32, 208, 189, 208, 176, 209, 135, 208,
    176, 208, 187, 208, 190, 208, 188, 32, 208, 190, 208, 177, 209, 137, 208, 181, 208, 189,
    208, 184, 209, 143, 32, 209, 131, 208, 186, 208, 176, 208, 182, 208, 184, 209, 130, 208,
    181, 32, 209, 129, 208, 178, 208, 190, 208, 185, 32, 208, 189, 208, 184, 208, 186, 58, 32,
    47, 110, 105, 99, 107, 32, 77, 121, 78, 105, 99, 107]"

text \<open>No such command, or not logged in.\<close>

definition txt_no_command :: string where
  "txt_no_command = utf8 [
    208, 162, 208, 176, 208, 186, 208, 176, 209, 143, 32, 208, 186, 208, 190, 208, 188, 208,
    176, 208, 189, 208, 180, 208, 176, 32, 208, 189, 208, 181, 32, 209, 129, 209, 131, 209, 137,
    208, 181, 209, 129, 209, 130, 208, 178, 209, 131, 208, 181, 209, 130, 32, 208, 184, 208,
    187, 208, 184, 32, 208, 178, 209, 139, 32, 208, 189, 208, 181, 32, 208, 178, 208, 190, 209,
    136, 208, 187, 208, 184, 32, 208, 178, 32, 209, 135, 208, 176, 209, 130]"

text \<open>You are not connected to the room (quote).\<close>

definition txt_not_connected :: string where
  "txt_not_connected = utf8 [
    208, 146, 209, 139, 32, 208, 189, 208, 181, 32, 208, 191, 208, 190, 208, 180, 208, 186, 208,
    187, 209, 142, 209, 135, 208, 181, 208, 189, 209, 139, 32, 208, 186, 32, 208, 186, 208, 190,
    208, 188, 208, 189, 208, 176, 209, 130, 208, 181, 32, 34]"

text \<open>Too many authorisation attempts.\<close>

definition txt_auth_too_often :: string where
  "txt_auth_too_often = utf8 [
    208, 161, 208, 187, 208, 184, 209, 136, 208, 186, 208, 190, 208, 188, 32, 209, 135, 208,
    176, 209, 129, 209, 130, 209, 139, 208, 181, 32, 208, 191, 208, 190, 208, 191, 209, 139,
    209, 130, 208, 186, 208, 184, 32, 208, 176, 208, 178, 209, 130, 208, 190, 209, 128, 208,
    184, 208, 183, 208, 176, 209, 134, 208, 184, 208, 184, 33, 32, 208, 159, 208, 190, 208, 191,
    209, 128, 208, 190, 208, 177, 209, 131, 208, 185, 209, 130, 208, 181, 32, 208, 191, 208,
    190, 208, 183, 208, 182, 208, 181, 46]"

text \<open>Wrong login or password.\<close>

definition txt_bad_loginpass :: string where
  "txt_bad_loginpass = utf8 [
    208, 157, 208, 181, 208, 178, 208, 181, 209, 128, 208, 189, 209, 139, 208, 185, 32, 208,
    187, 208, 190, 208, 179, 208, 184, 208, 189, 47, 208, 191, 208, 176, 209, 128, 208, 190,
    208, 187, 209, 140, 33]"

text \<open>Database error during authorisation.\<close>

definition txt_auth_db_error :: string where
  "txt_auth_db_error = utf8 [
    208, 158, 209, 136, 208, 184, 208, 177, 208, 186, 208, 176, 32, 208, 191, 208, 190, 208,
    180, 208, 186, 208, 187, 209, 142, 209, 135, 208, 181, 208, 189, 208, 184, 209, 143, 32,
    208, 186, 32, 208, 145, 208, 148, 32, 208, 191, 209, 128, 208, 184, 32, 208, 176, 208, 178,
    209, 130, 208, 190, 209, 128, 208, 184, 208, 183, 208, 176, 209, 134, 208, 184, 208, 184, 33]"

text \<open>You are already connected to the room (quote).\<close>

definition txt_already_connected :: string where
  "txt_already_connected = utf8 [
    208, 146, 209, 139, 32, 209, 131, 208, 182, 208, 181, 32, 208, 191, 208, 190, 208, 180, 208,
    186, 208, 187, 209, 142, 209, 135, 208, 181, 208, 189, 209, 139, 32, 208, 186, 32, 208, 186,
    208, 190, 208, 188, 208, 189, 208, 176, 209, 130, 208, 181, 32, 34]"

text \<open>Room (quote), start of: the room does not exist.\<close>

definition txt_room_pre :: string where
  "txt_room_pre = utf8 [
    208, 154, 208, 190, 208, 188, 208, 189, 208, 176, 209, 130, 209, 139, 32, 34]"

text \<open>(quote) does not exist.\<close>

definition txt_room_post :: string where
  "txt_room_post = utf8 [
    34, 32, 208, 189, 208, 181, 32, 209, 129, 209, 131, 209, 137, 208, 181, 209, 129, 209, 130,
    208, 178, 209, 131, 208, 181, 209, 130]"

text \<open>You were banned.\<close>

definition txt_you_banned :: string where
  "txt_you_banned = utf8 [
    208, 146, 209, 139, 32, 208, 177, 209, 139, 208, 187, 208, 184, 32, 208, 183, 208, 176, 208,
    177, 208, 176, 208, 189, 208, 181, 208, 189, 209, 139]"

text \<open>Guests cannot enter this room.\<close>

definition txt_guest_no_join :: string where
  "txt_guest_no_join = utf8 [
    208, 147, 208, 190, 209, 129, 209, 130, 208, 184, 32, 208, 189, 208, 181, 32, 208, 188, 208,
    190, 208, 179, 209, 131, 209, 130, 32, 208, 178, 208, 190, 208, 185, 209, 130, 208, 184, 32,
    208, 178, 32, 209, 141, 209, 130, 209, 131, 32, 208, 186, 208, 190, 208, 188, 208, 189, 208,
    176, 209, 130, 209, 131, 46, 32, 208, 144, 208, 178, 209, 130, 208, 190, 209, 128, 208, 184,
    208, 183, 209, 131, 208, 185, 209, 130, 208, 181, 209, 129, 209, 140, 32, 208, 189, 208,
    176, 32, 209, 129, 208, 176, 208, 185, 209, 130, 208, 181]"

text \<open>The nick you chose before (.\<close>

definition txt_old_nick_pre :: string where
  "txt_old_nick_pre = utf8 [
    208, 146, 209, 139, 208, 177, 209, 128, 208, 176, 208, 189, 208, 189, 209, 139, 208, 185,
    32, 208, 178, 208, 176, 208, 188, 208, 184, 32, 209, 128, 208, 176, 208, 189, 208, 181, 208,
    181, 32, 208, 189, 208, 184, 208, 186, 32, 40]"

text \<open>) is banned, choose another.\<close>

definition txt_old_nick_banned :: string where
  "txt_old_nick_banned = utf8 [
    41, 32, 208, 183, 208, 176, 208, 191, 209, 128, 208, 181, 209, 137, 208, 181, 208, 189, 44,
    32, 208, 178, 209, 139, 208, 177, 208, 181, 209, 128, 208, 184, 209, 130, 208, 181, 32, 208,
    180, 209, 128, 209, 131, 208, 179, 208, 190, 208, 185, 32, 208, 189, 208, 184, 208, 186]"

text \<open>) is taken, choose another.\<close>

definition txt_old_nick_taken :: string where
  "txt_old_nick_taken = utf8 [
    41, 32, 208, 183, 208, 176, 208, 189, 209, 143, 209, 130, 44, 32, 208, 178, 209, 139, 208,
    177, 208, 181, 209, 128, 208, 184, 209, 130, 208, 181, 32, 208, 180, 209, 128, 209, 131,
    208, 179, 208, 190, 208, 185, 32, 208, 189, 208, 184, 208, 186]"

text \<open>Type /help.\<close>

definition txt_type_help :: string where
  "txt_type_help = utf8 [
    208, 146, 208, 178, 208, 181, 208, 180, 208, 184, 209, 130, 208, 181, 32, 47, 104, 101, 108,
    112, 32, 208, 180, 208, 187, 209, 143, 32, 208, 191, 208, 190, 208, 187, 209, 131, 209, 135,
    208, 181, 208, 189, 208, 184, 209, 143, 32, 209, 129, 208, 191, 208, 184, 209, 129, 208,
    186, 208, 176, 32, 208, 178, 209, 129, 208, 181, 209, 133, 32, 208, 180, 208, 190, 209, 129,
    209, 130, 209, 131, 208, 191, 208, 189, 209, 139, 209, 133, 32, 208, 186, 208, 190, 208,
    188, 208, 176, 208, 189, 208, 180]"

text \<open>Guests cannot create rooms.\<close>

definition txt_guest_no_create :: string where
  "txt_guest_no_create = utf8 [
    208, 147, 208, 190, 209, 129, 209, 130, 208, 184, 32, 208, 189, 208, 181, 32, 208, 188, 208,
    190, 208, 179, 209, 131, 209, 130, 32, 209, 129, 208, 190, 208, 183, 208, 180, 208, 176,
    208, 178, 208, 176, 209, 130, 209, 140, 32, 208, 186, 208, 190, 208, 188, 208, 189, 208,
    176, 209, 130, 209, 139]"

text \<open>Invalid room name.\<close>

definition txt_bad_room_name :: string where
  "txt_bad_room_name = utf8 [
    208, 157, 208, 181, 208, 180, 208, 190, 208, 191, 209, 131, 209, 129, 209, 130, 208, 184,
    208, 188, 208, 190, 208, 181, 32, 208, 184, 208, 188, 209, 143, 32, 208, 186, 208, 190, 208,
    188, 208, 189, 208, 176, 209, 130, 209, 139]"

text \<open>Such a room already exists.\<close>

definition txt_room_exists :: string where
  "txt_room_exists = utf8 [
    208, 162, 208, 176, 208, 186, 208, 176, 209, 143, 32, 208, 186, 208, 190, 208, 188, 208,
    189, 208, 176, 209, 130, 208, 176, 32, 209, 131, 208, 182, 208, 181, 32, 209, 129, 209, 131,
    209, 137, 208, 181, 209, 129, 209, 130, 208, 178, 209, 131, 208, 181, 209, 130]"

text \<open>Guests cannot remove rooms.\<close>

definition txt_guest_no_remove :: string where
  "txt_guest_no_remove = utf8 [
    208, 147, 208, 190, 209, 129, 209, 130, 208, 184, 32, 208, 189, 208, 181, 32, 208, 188, 208,
    190, 208, 179, 209, 131, 209, 130, 32, 209, 131, 208, 180, 208, 176, 208, 187, 209, 143,
    209, 130, 209, 140, 32, 208, 186, 208, 190, 208, 188, 208, 189, 208, 176, 209, 130, 209, 139]"

text \<open>No such room.\<close>

definition txt_no_such_room :: string where
  "txt_no_such_room = utf8 [
    208, 162, 208, 176, 208, 186, 208, 176, 209, 143, 32, 208, 186, 208, 190, 208, 188, 208,
    189, 208, 176, 209, 130, 208, 176, 32, 208, 189, 208, 181, 32, 209, 129, 209, 131, 209, 137,
    208, 181, 209, 129, 209, 130, 208, 178, 209, 131, 208, 181, 209, 130]"

text \<open>You cannot remove this room.\<close>

definition txt_cannot_remove :: string where
  "txt_cannot_remove = utf8 [
    208, 146, 209, 139, 32, 208, 189, 208, 181, 32, 208, 188, 208, 190, 208, 182, 208, 181, 209,
    130, 208, 181, 32, 209, 131, 208, 180, 208, 176, 208, 187, 208, 184, 209, 130, 209, 140, 32,
    209, 141, 209, 130, 209, 131, 32, 208, 186, 208, 190, 208, 188, 208, 189, 208, 176, 209,
    130, 209, 131]"

text \<open>This nick is banned, choose another.\<close>

definition txt_nick_banned :: string where
  "txt_nick_banned = utf8 [
    208, 148, 208, 176, 208, 189, 208, 189, 209, 139, 208, 185, 32, 208, 189, 208, 184, 208,
    186, 32, 208, 183, 208, 176, 208, 191, 209, 128, 208, 181, 209, 137, 208, 181, 208, 189, 44,
    32, 208, 178, 209, 139, 208, 177, 208, 181, 209, 128, 208, 184, 209, 130, 208, 181, 32, 208,
    180, 209, 128, 209, 131, 208, 179, 208, 190, 208, 185]"

text \<open>Banned nicks (.\<close>

definition txt_banned_nicks :: string where
  "txt_banned_nicks = utf8 [
    208, 151, 208, 176, 208, 177, 208, 176, 208, 189, 208, 181, 208, 189, 208, 189, 209, 139,
    208, 181, 32, 208, 189, 208, 184, 208, 186, 208, 184, 32, 40]"

text \<open>Banned accounts (.\<close>

definition txt_banned_uids :: string where
  "txt_banned_uids = utf8 [
    208, 151, 208, 176, 208, 177, 208, 176, 208, 189, 208, 181, 208, 189, 208, 189, 209, 139,
    208, 181, 32, 208, 176, 208, 186, 208, 186, 208, 176, 209, 131, 208, 189, 209, 130, 209,
    139, 32, 40]"

text \<open>Banned IPs (.\<close>

definition txt_banned_ips :: string where
  "txt_banned_ips = utf8 [
    208, 151, 208, 176, 208, 177, 208, 176, 208, 189, 208, 181, 208, 189, 208, 189, 209, 139,
    208, 181, 32, 73, 80, 32, 40]"

text \<open>Limit of banned nicks.\<close>

definition txt_nick_limit :: string where
  "txt_nick_limit = utf8 [
    208, 159, 209, 128, 208, 181, 208, 178, 209, 139, 209, 136, 208, 181, 208, 189, 32, 208,
    187, 208, 184, 208, 188, 208, 184, 209, 130, 32, 208, 189, 208, 176, 32, 208, 186, 208, 190,
    208, 187, 208, 184, 209, 135, 208, 181, 209, 129, 209, 130, 208, 178, 208, 190, 32, 208,
    183, 208, 176, 208, 191, 209, 128, 208, 181, 209, 137, 208, 181, 208, 189, 208, 189, 209,
    139, 209, 133, 32, 208, 189, 208, 184, 208, 186, 208, 190, 208, 178]"

text \<open>Incorrect nick.\<close>

definition txt_bad_nick :: string where
  "txt_bad_nick = utf8 [
    208, 157, 208, 181, 208, 186, 208, 190, 209, 128, 209, 128, 208, 181, 208, 186, 209, 130,
    208, 189, 209, 139, 208, 185, 32, 208, 189, 208, 184, 208, 186]"

text \<open>Nick banned.\<close>

definition txt_nick_now_banned :: string where
  "txt_nick_now_banned = utf8 [
    208, 157, 208, 184, 208, 186, 32, 208, 183, 208, 176, 208, 191, 209, 128, 208, 181, 209,
    137, 208, 181, 208, 189]"

text \<open>Nick already banned.\<close>

definition txt_nick_was_banned :: string where
  "txt_nick_was_banned = utf8 [
    208, 157, 208, 184, 208, 186, 32, 209, 131, 208, 182, 208, 181, 32, 208, 183, 208, 176, 208,
    191, 209, 128, 208, 181, 209, 137, 208, 181, 208, 189]"

text \<open>Limit of banned accounts.\<close>

definition txt_uid_limit :: string where
  "txt_uid_limit = utf8 [
    208, 159, 209, 128, 208, 181, 208, 178, 209, 139, 209, 136, 208, 181, 208, 189, 32, 208,
    187, 208, 184, 208, 188, 208, 184, 209, 130, 32, 208, 189, 208, 176, 32, 208, 186, 208, 190,
    208, 187, 208, 184, 209, 135, 208, 181, 209, 129, 209, 130, 208, 178, 208, 190, 32, 208,
    183, 208, 176, 208, 177, 208, 176, 208, 189, 208, 181, 208, 189, 208, 189, 209, 139, 209,
    133, 32, 208, 176, 208, 186, 208, 186, 208, 176, 209, 131, 208, 189, 209, 130, 208, 190,
    208, 178]"

text \<open>Account banned.\<close>

definition txt_uid_now_banned :: string where
  "txt_uid_now_banned = utf8 [
    208, 144, 208, 186, 208, 186, 208, 176, 209, 131, 208, 189, 209, 130, 32, 208, 183, 208,
    176, 208, 177, 208, 176, 208, 189, 208, 181, 208, 189]"

text \<open>Account already banned.\<close>

definition txt_uid_was_banned :: string where
  "txt_uid_was_banned = utf8 [
    208, 144, 208, 186, 208, 186, 208, 176, 209, 131, 208, 189, 209, 130, 32, 209, 131, 208,
    182, 208, 181, 32, 208, 178, 32, 209, 129, 208, 191, 208, 184, 209, 129, 208, 186, 208, 181,
    32, 208, 183, 208, 176, 208, 177, 208, 176, 208, 189, 208, 181, 208, 189, 208, 189, 209,
    139, 209, 133]"

text \<open>Give the account id.\<close>

definition txt_give_uid :: string where
  "txt_give_uid = utf8 [
    208, 163, 208, 186, 208, 176, 208, 182, 208, 184, 209, 130, 208, 181, 32, 73, 68, 32, 208,
    176, 208, 186, 208, 186, 208, 176, 209, 131, 208, 189, 209, 130, 208, 176, 32, 208, 191,
    208, 190, 208, 187, 209, 140, 208, 183, 208, 190, 208, 178, 208, 176, 209, 130, 208, 181,
    208, 187, 209, 143]"

text \<open>Limit of banned IPs.\<close>

definition txt_ip_limit :: string where
  "txt_ip_limit = utf8 [
    208, 159, 209, 128, 208, 181, 208, 178, 209, 139, 209, 136, 208, 181, 208, 189, 32, 208,
    187, 208, 184, 208, 188, 208, 184, 209, 130, 32, 208, 189, 208, 176, 32, 208, 186, 208, 190,
    208, 187, 208, 184, 209, 135, 208, 181, 209, 129, 209, 130, 208, 178, 208, 190, 32, 208,
    183, 208, 176, 208, 177, 208, 176, 208, 189, 208, 181, 208, 189, 208, 189, 209, 139, 209,
    133, 32, 73, 80]"

text \<open>IP banned.\<close>

definition txt_ip_now_banned :: string where
  "txt_ip_now_banned = utf8 [
    73, 80, 32, 208, 183, 208, 176, 208, 177, 208, 176, 208, 189, 208, 181, 208, 189]"

text \<open>IP already banned.\<close>

definition txt_ip_was_banned :: string where
  "txt_ip_was_banned = utf8 [
    73, 80, 32, 209, 131, 208, 182, 208, 181, 32, 208, 178, 32, 209, 129, 208, 191, 208, 184,
    209, 129, 208, 186, 208, 181, 32, 208, 183, 208, 176, 208, 177, 208, 176, 208, 189, 208,
    181, 208, 189, 208, 189, 209, 139, 209, 133]"

text \<open>Give a correct IP address.\<close>

definition txt_give_ip :: string where
  "txt_give_ip = utf8 [
    208, 163, 208, 186, 208, 176, 208, 182, 208, 184, 209, 130, 208, 181, 32, 208, 186, 208,
    190, 209, 128, 209, 128, 208, 181, 208, 186, 209, 130, 208, 189, 209, 139, 208, 185, 32, 73,
    80, 45, 208, 176, 208, 180, 209, 128, 208, 181, 209, 129]"

text \<open>Unbanned.\<close>

definition txt_unbanned :: string where
  "txt_unbanned = utf8 [
    208, 160, 208, 176, 208, 183, 208, 177, 208, 176, 208, 189, 208, 181, 208, 189]"

text \<open>Nick was not banned.\<close>

definition txt_nick_not_banned :: string where
  "txt_nick_not_banned = utf8 [
    208, 157, 208, 184, 208, 186, 32, 208, 189, 208, 181, 32, 208, 177, 209, 139, 208, 187, 32,
    208, 183, 208, 176, 208, 177, 208, 176, 208, 189, 208, 181, 208, 189]"

text \<open>Account unbanned.\<close>

definition txt_uid_unbanned :: string where
  "txt_uid_unbanned = utf8 [
    208, 144, 208, 186, 208, 186, 208, 176, 209, 131, 208, 189, 209, 130, 32, 209, 128, 208,
    176, 208, 183, 208, 177, 208, 176, 208, 189, 208, 181, 208, 189]"

text \<open>Account was not banned.\<close>

definition txt_uid_not_banned :: string where
  "txt_uid_not_banned = utf8 [
    208, 144, 208, 186, 208, 186, 208, 176, 209, 131, 208, 189, 209, 130, 32, 208, 189, 208,
    181, 32, 208, 177, 209, 139, 208, 187, 32, 208, 183, 208, 176, 208, 177, 208, 176, 208, 189,
    208, 181, 208, 189]"

text \<open>IP unbanned.\<close>

definition txt_ip_unbanned :: string where
  "txt_ip_unbanned = utf8 [
    73, 80, 32, 209, 128, 208, 176, 208, 183, 208, 177, 208, 176, 208, 189, 208, 181, 208, 189]"

text \<open>IP was not banned.\<close>

definition txt_ip_not_banned :: string where
  "txt_ip_not_banned = utf8 [
    73, 80, 32, 208, 189, 208, 181, 32, 208, 177, 209, 139, 208, 187, 32, 208, 183, 208, 176,
    208, 177, 208, 176, 208, 189, 208, 181, 208, 189]"

text \<open>Wrong colour.\<close>

definition txt_bad_color :: string where
  "txt_bad_color = utf8 [
    208, 163, 208, 186, 208, 176, 208, 183, 208, 176, 208, 189, 32, 208, 189, 208, 181, 208,
    178, 208, 181, 209, 128, 208, 189, 209, 139, 208, 185, 32, 209, 134, 208, 178, 208, 181,
    209, 130]"

text \<open>No such user.\<close>

definition txt_no_user_kick :: string where
  "txt_no_user_kick = utf8 [
    208, 162, 208, 176, 208, 186, 208, 190, 208, 185, 32, 208, 191, 208, 190, 208, 187, 209,
    140, 208, 183, 208, 190, 208, 178, 208, 176, 209, 130, 208, 181, 208, 187, 209, 140, 32,
    208, 189, 208, 181, 32, 208, 189, 208, 176, 208, 185, 208, 180, 208, 181, 208, 189]"

text \<open>Limit of moderators.\<close>

definition txt_moder_limit :: string where
  "txt_moder_limit = utf8 [
    208, 159, 209, 128, 208, 181, 208, 178, 209, 139, 209, 136, 208, 181, 208, 189, 32, 208,
    187, 208, 184, 208, 188, 208, 184, 209, 130, 32, 208, 189, 208, 176, 32, 208, 186, 208, 190,
    208, 187, 208, 184, 209, 135, 208, 181, 209, 129, 209, 130, 208, 178, 208, 190, 32, 208,
    188, 208, 190, 208, 180, 208, 181, 209, 128, 208, 176, 209, 130, 208, 190, 209, 128, 208,
    190, 208, 178]"

text \<open>A guest cannot be a moderator.\<close>

definition txt_moder_guest :: string where
  "txt_moder_guest = utf8 [
    208, 147, 208, 190, 209, 129, 209, 130, 209, 143, 32, 208, 189, 208, 181, 208, 187, 209,
    140, 208, 183, 209, 143, 32, 208, 189, 208, 176, 208, 183, 208, 189, 208, 176, 209, 135,
    208, 184, 209, 130, 209, 140, 32, 208, 188, 208, 190, 208, 180, 208, 181, 209, 128, 208,
    176, 209, 130, 208, 190, 209, 128, 208, 190, 208, 188]"

text \<open>Moderator added.\<close>

definition txt_moder_added :: string where
  "txt_moder_added = utf8 [
    208, 156, 208, 190, 208, 180, 208, 181, 209, 128, 208, 176, 209, 130, 208, 190, 209, 128,
    32, 208, 180, 208, 190, 208, 177, 208, 176, 208, 178, 208, 187, 208, 181, 208, 189]"

text \<open>Already a moderator.\<close>

definition txt_moder_already :: string where
  "txt_moder_already = utf8 [
    208, 159, 208, 190, 208, 187, 209, 140, 208, 183, 208, 190, 208, 178, 208, 176, 209, 130,
    208, 181, 208, 187, 209, 140, 32, 209, 131, 208, 182, 208, 181, 32, 208, 178, 32, 209, 129,
    208, 191, 208, 184, 209, 129, 208, 186, 208, 181, 32, 208, 188, 208, 190, 208, 180, 208,
    181, 209, 128, 208, 176, 209, 130, 208, 190, 209, 128, 208, 190, 208, 178]"

text \<open>Moderator removed.\<close>

definition txt_moder_removed :: string where
  "txt_moder_removed = utf8 [
    208, 156, 208, 190, 208, 180, 208, 181, 209, 128, 208, 176, 209, 130, 208, 190, 209, 128,
    32, 209, 131, 208, 177, 209, 128, 208, 176, 208, 189]"

text \<open>Not a moderator.\<close>

definition txt_not_moder :: string where
  "txt_not_moder = utf8 [
    208, 159, 208, 190, 208, 187, 209, 140, 208, 183, 208, 190, 208, 178, 208, 176, 209, 130,
    208, 181, 208, 187, 209, 140, 32, 208, 189, 208, 181, 32, 209, 143, 208, 178, 208, 187, 209,
    143, 208, 181, 209, 130, 209, 129, 209, 143, 32, 208, 188, 208, 190, 208, 180, 208, 181,
    209, 128, 208, 176, 209, 130, 208, 190, 209, 128, 208, 190, 208, 188]"

text \<open>Moderators:.\<close>

definition txt_moders :: string where
  "txt_moders = utf8 [
    208, 156, 208, 190, 208, 180, 208, 181, 209, 128, 208, 176, 209, 130, 208, 190, 209, 128,
    209, 139, 58]"

text \<open>My rooms:.\<close>

definition txt_my_rooms :: string where
  "txt_my_rooms = utf8 [
    208, 156, 208, 190, 208, 184, 32, 208, 186, 208, 190, 208, 188, 208, 189, 208, 176, 209,
    130, 209, 139, 58, 10]"

text \<open>Rooms:.\<close>

definition txt_rooms :: string where
  "txt_rooms = utf8 [
    208, 154, 208, 190, 208, 188, 208, 189, 208, 176, 209, 130, 209, 139, 58, 10]"

text \<open>Users:.\<close>

definition txt_users :: string where
  "txt_users = utf8 [
    208, 159, 208, 190, 208, 187, 209, 140, 208, 183, 208, 190, 208, 178, 208, 176, 209, 130,
    208, 181, 208, 187, 208, 184, 58, 10]"

text \<open>Connections:.\<close>

definition txt_connections :: string where
  "txt_connections = utf8 [
    208, 159, 208, 190, 208, 180, 208, 186, 208, 187, 209, 142, 209, 135, 208, 181, 208, 189,
    208, 184, 209, 143, 58, 10]"

text \<open>Nick taken.\<close>

definition txt_nick_taken :: string where
  "txt_nick_taken = utf8 [
    208, 162, 208, 176, 208, 186, 208, 190, 208, 185, 32, 208, 189, 208, 184, 208, 186, 32, 209,
    131, 208, 182, 208, 181, 32, 208, 183, 208, 176, 208, 189, 209, 143, 209, 130]"

text \<open>Rules for nicks.\<close>

definition txt_nick_rules :: string where
  "txt_nick_rules = utf8 [
    208, 157, 208, 184, 208, 186, 32, 208, 180, 208, 190, 208, 187, 208, 182, 208, 181, 208,
    189, 32, 209, 129, 208, 190, 208, 180, 208, 181, 209, 128, 208, 182, 208, 176, 209, 130,
    209, 140, 32, 209, 130, 208, 190, 208, 187, 209, 140, 208, 186, 208, 190, 32, 208, 187, 208,
    176, 209, 130, 208, 184, 208, 189, 209, 129, 208, 186, 208, 184, 208, 181, 32, 208, 177,
    209, 131, 208, 186, 208, 178, 208, 190, 209, 134, 208, 184, 209, 132, 209, 128, 209, 139,
    44, 32, 209, 129, 208, 184, 208, 188, 208, 178, 208, 190, 208, 187, 209, 139, 32, 39, 46,
    95, 45, 39, 44, 32, 208, 191, 209, 128, 208, 190, 208, 177, 208, 181, 208, 187, 209, 139,
    32, 208, 184, 32, 208, 189, 208, 181, 32, 208, 180, 208, 187, 208, 184, 208, 189, 208, 181,
    208, 181, 32, 50, 52, 32, 209, 129, 208, 184, 208, 188, 208, 178, 208, 190, 208, 187, 208,
    190, 208, 178]"

text \<open>User not found.\<close>

definition txt_msg_no_user :: string where
  "txt_msg_no_user = utf8 [
    208, 163, 208, 186, 208, 176, 208, 183, 208, 176, 208, 189, 208, 189, 209, 139, 208, 185,
    32, 208, 191, 208, 190, 208, 187, 209, 140, 208, 183, 208, 190, 208, 178, 208, 176, 209,
    130, 208, 181, 208, 187, 209, 140, 32, 208, 189, 208, 181, 32, 208, 189, 208, 176, 208, 185,
    208, 180, 208, 181, 208, 189]"

text \<open>Available commands:.\<close>

definition txt_help_head :: string where
  "txt_help_head = utf8 [
    10, 208, 148, 208, 190, 209, 129, 209, 130, 209, 131, 208, 191, 208, 189, 209, 139, 208,
    181, 32, 208, 186, 208, 190, 208, 188, 208, 176, 208, 189, 208, 180, 209, 139, 58, 10]"

text \<open>Room owner:.\<close>

definition txt_help_owner :: string where
  "txt_help_owner = utf8 [
    10, 208, 146, 208, 187, 208, 176, 208, 180, 208, 181, 208, 187, 208, 181, 209, 134, 32, 208,
    186, 208, 190, 208, 188, 208, 189, 208, 176, 209, 130, 209, 139, 58, 10]"

text \<open>Room moderator:.\<close>

definition txt_help_moder :: string where
  "txt_help_moder = utf8 [
    10, 208, 156, 208, 190, 208, 180, 208, 181, 209, 128, 208, 176, 209, 130, 208, 190, 209,
    128, 32, 208, 186, 208, 190, 208, 188, 208, 189, 208, 176, 209, 130, 209, 139, 58, 10]"

text \<open>Admin:.\<close>

definition txt_help_admin :: string where
  "txt_help_admin = utf8 [
    10, 208, 144, 208, 180, 208, 188, 208, 184, 208, 189, 58, 10]"

text \<open><nick>.\<close>

definition arg_nick_angle :: string where
  "arg_nick_angle = utf8 [
    60, 208, 189, 208, 184, 208, 186, 62]"

text \<open><new nick>.\<close>

definition arg_new_nick :: string where
  "arg_new_nick = utf8 [
    60, 208, 189, 208, 190, 208, 178, 209, 139, 208, 185, 32, 208, 189, 208, 184, 208, 186, 62]"

text \<open><hex colour>.\<close>

definition arg_color :: string where
  "arg_color = utf8 [
    60, 209, 134, 208, 178, 208, 181, 209, 130, 32, 208, 178, 32, 104, 101, 120, 45, 209, 132,
    208, 190, 209, 128, 208, 188, 208, 176, 209, 130, 208, 181, 62]"

text \<open><message>.\<close>

definition arg_message :: string where
  "arg_message = utf8 [
    60, 209, 129, 208, 190, 208, 190, 208, 177, 209, 137, 208, 181, 208, 189, 208, 184, 208,
    181, 62]"

text \<open><nick> <message>.\<close>

definition arg_nick_message :: string where
  "arg_nick_message = utf8 [
    60, 208, 189, 208, 184, 208, 186, 62, 32, 60, 209, 129, 208, 190, 208, 190, 208, 177, 209,
    137, 208, 181, 208, 189, 208, 184, 208, 181, 62]"

text \<open><member_id> <message>.\<close>

definition arg_id_message :: string where
  "arg_id_message = utf8 [
    60, 109, 101, 109, 98, 101, 114, 95, 105, 100, 62, 32, 60, 209, 129, 208, 190, 208, 190,
    208, 177, 209, 137, 208, 181, 208, 189, 208, 184, 208, 181, 62]"

text \<open>Show all bans.\<close>

definition dsc_banlist :: string where
  "dsc_banlist = utf8 [
    208, 159, 208, 190, 208, 186, 208, 176, 208, 183, 208, 176, 209, 130, 209, 140, 32, 208,
    190, 208, 177, 209, 137, 208, 184, 208, 185, 32, 209, 129, 208, 191, 208, 184, 209, 129,
    208, 190, 208, 186, 32, 208, 177, 208, 176, 208, 189, 208, 190, 208, 178]"

text \<open>Ban a nick.\<close>

definition dsc_bannick :: string where
  "dsc_bannick = utf8 [
    208, 151, 208, 176, 208, 191, 209, 128, 208, 181, 209, 130, 208, 184, 209, 130, 209, 140,
    32, 208, 186, 32, 208, 184, 209, 129, 208, 191, 208, 190, 208, 187, 209, 140, 208, 183, 208,
    190, 208, 178, 208, 176, 208, 189, 208, 184, 209, 142, 32, 209, 131, 208, 186, 208, 176,
    208, 183, 208, 176, 208, 189, 208, 189, 209, 139, 208, 185, 32, 208, 189, 208, 184, 208, 186]"

text \<open>Ban an account.\<close>

definition dsc_banuid :: string where
  "dsc_banuid = utf8 [
    208, 151, 208, 176, 208, 177, 208, 176, 208, 189, 208, 184, 209, 130, 209, 140, 32, 208,
    176, 208, 186, 208, 186, 208, 176, 209, 131, 208, 189, 209, 130, 32, 208, 191, 208, 190,
    208, 187, 209, 140, 208, 183, 208, 190, 208, 178, 208, 176, 209, 130, 208, 181, 208, 187,
    209, 143, 32, 209, 129, 32, 209, 131, 208, 186, 208, 176, 208, 183, 208, 176, 208, 189, 208,
    189, 209, 139, 208, 188, 32, 73, 68]"

text \<open>Ban an IP.\<close>

definition dsc_banip :: string where
  "dsc_banip = utf8 [
    208, 151, 208, 176, 208, 177, 208, 176, 208, 189, 208, 184, 209, 130, 209, 140, 32, 73, 80,
    45, 208, 176, 208, 180, 209, 128, 208, 181, 209, 129]"

text \<open>Unban a nick.\<close>

definition dsc_unbannick :: string where
  "dsc_unbannick = utf8 [
    208, 163, 208, 177, 209, 128, 208, 176, 209, 130, 209, 140, 32, 208, 189, 208, 184, 208,
    186, 32, 208, 184, 208, 183, 32, 209, 129, 208, 191, 208, 184, 209, 129, 208, 186, 208, 176,
    32, 208, 183, 208, 176, 208, 191, 209, 128, 208, 181, 209, 137, 208, 181, 208, 189, 208,
    189, 209, 139, 209, 133]"

text \<open>Unban an account.\<close>

definition dsc_unbanuid :: string where
  "dsc_unbanuid = utf8 [
    208, 160, 208, 176, 208, 183, 208, 177, 208, 176, 208, 189, 208, 184, 209, 130, 209, 140,
    32, 208, 176, 208, 186, 208, 186, 208, 176, 209, 131, 208, 189, 209, 130, 32, 208, 191, 208,
    190, 208, 187, 209, 140, 208, 183, 208, 190, 208, 178, 208, 176, 209, 130, 208, 181, 208,
    187, 209, 143, 32, 209, 129, 32, 209, 131, 208, 186, 208, 176, 208, 183, 208, 176, 208, 189,
    208, 189, 209, 139, 208, 188, 32, 73, 68]"

text \<open>Unban an IP.\<close>

definition dsc_unbanip :: string where
  "dsc_unbanip = utf8 [
    208, 160, 208, 176, 208, 183, 208, 177, 208, 176, 208, 189, 208, 184, 209, 130, 209, 140,
    32, 73, 80, 45, 208, 176, 208, 180, 209, 128, 208, 181, 209, 129]"

text \<open>Change the colour.\<close>

definition dsc_color :: string where
  "dsc_color = utf8 [
    208, 161, 208, 188, 208, 181, 208, 189, 208, 184, 209, 130, 209, 140, 32, 209, 134, 208,
    178, 208, 181, 209, 130, 46, 32, 208, 157, 208, 176, 208, 191, 209, 128, 208, 184, 208, 188,
    208, 181, 209, 128, 58, 32, 35, 102, 48, 48, 32, 40, 208, 186, 209, 128, 208, 176, 209, 129,
    208, 189, 209, 139, 208, 185, 41, 44, 32, 35, 102, 48, 102, 48, 48, 48, 32, 40, 208, 190,
    209, 130, 209, 130, 208, 181, 208, 189, 208, 190, 208, 186, 32, 209, 128, 208, 190, 208,
    183, 208, 190, 208, 178, 208, 190, 208, 179, 208, 190, 41, 46, 32, 208, 148, 208, 190, 208,
    191, 209, 131, 209, 129, 208, 186, 208, 176, 208, 181, 209, 130, 209, 129, 209, 143, 32,
    208, 189, 208, 181, 32, 208, 191, 208, 184, 209, 129, 208, 176, 209, 130, 209, 140, 32, 208,
    183, 208, 189, 208, 176, 208, 186, 32, 35]"

text \<open>Change the gender.\<close>

definition dsc_gender :: string where
  "dsc_gender = utf8 [
    208, 161, 208, 188, 208, 181, 208, 189, 208, 184, 209, 130, 209, 140, 32, 208, 191, 208,
    190, 208, 187]"

text \<open>Help.\<close>

definition dsc_help :: string where
  "dsc_help = utf8 [
    208, 157, 208, 181, 32, 208, 184, 208, 188, 208, 181, 209, 142, 32, 208, 191, 209, 128, 208,
    181, 208, 180, 209, 129, 209, 130, 208, 176, 208, 178, 208, 187, 208, 181, 208, 189, 208,
    184, 209, 143, 44, 32, 208, 183, 208, 176, 209, 135, 208, 181, 208, 188, 32, 208, 183, 208,
    180, 208, 181, 209, 129, 209, 140, 32, 209, 141, 209, 130, 208, 176, 32, 208, 186, 208, 190,
    208, 188, 208, 176, 208, 189, 208, 180, 208, 176]"

text \<open>Show connection counters.\<close>

definition dsc_ipcounter :: string where
  "dsc_ipcounter = utf8 [
    208, 159, 208, 190, 208, 186, 208, 176, 208, 183, 208, 176, 209, 130, 209, 140, 32, 209,
    129, 209, 135, 208, 181, 209, 130, 209, 135, 208, 184, 208, 186, 208, 184, 32, 208, 191,
    208, 190, 208, 180, 208, 186, 208, 187, 209, 142, 209, 135, 208, 181, 208, 189, 208, 184,
    208, 185, 32, 209, 129, 32, 105, 112]"

text \<open>Kick a user.\<close>

definition dsc_kick :: string where
  "dsc_kick = utf8 [
    208, 154, 208, 184, 208, 186, 32, 208, 191, 208, 190, 208, 187, 209, 140, 208, 183, 208,
    190, 208, 178, 208, 176, 209, 130, 208, 181, 208, 187, 209, 143, 32, 209, 129, 32, 209, 131,
    208, 186, 208, 176, 208, 183, 208, 176, 208, 189, 208, 189, 209, 139, 208, 188, 32, 208,
    189, 208, 184, 208, 186, 208, 190, 208, 188]"

text \<open>Add a moderator.\<close>

definition dsc_addmoder :: string where
  "dsc_addmoder = utf8 [
    208, 161, 208, 180, 208, 181, 208, 187, 208, 176, 209, 130, 209, 140, 32, 208, 191, 208,
    190, 208, 187, 209, 140, 208, 183, 208, 190, 208, 178, 208, 176, 209, 130, 208, 181, 208,
    187, 209, 143, 32, 209, 129, 32, 209, 131, 208, 186, 208, 176, 208, 183, 208, 176, 208, 189,
    208, 189, 209, 139, 208, 188, 32, 73, 68, 32, 208, 176, 208, 186, 208, 186, 208, 176, 209,
    131, 208, 189, 209, 130, 208, 176, 32, 208, 188, 208, 190, 208, 180, 208, 181, 209, 128,
    208, 176, 209, 130, 208, 190, 209, 128, 208, 190, 208, 188]"

text \<open>Remove a moderator.\<close>

definition dsc_delmoder :: string where
  "dsc_delmoder = utf8 [
    208, 163, 208, 177, 209, 128, 208, 176, 209, 130, 209, 140, 32, 208, 191, 208, 190, 208,
    187, 209, 140, 208, 183, 208, 190, 208, 178, 208, 176, 209, 130, 208, 181, 208, 187, 209,
    143, 32, 209, 129, 32, 209, 131, 208, 186, 208, 176, 208, 183, 208, 176, 208, 189, 208, 189,
    209, 139, 208, 188, 32, 73, 68, 32, 208, 176, 208, 186, 208, 186, 208, 176, 209, 131, 208,
    189, 209, 130, 208, 176, 32, 208, 184, 208, 183, 32, 209, 129, 208, 191, 208, 184, 209, 129,
    208, 186, 208, 176, 32, 208, 188, 208, 190, 208, 180, 208, 181, 209, 128, 208, 176, 209,
    130, 208, 190, 209, 128, 208, 190, 208, 178]"

text \<open>List moderators.\<close>

definition dsc_moderlist :: string where
  "dsc_moderlist = utf8 [
    208, 159, 208, 190, 208, 186, 208, 176, 208, 183, 208, 176, 209, 130, 209, 140, 32, 209,
    129, 208, 191, 208, 184, 209, 129, 208, 190, 208, 186, 32, 73, 68, 32, 208, 188, 208, 190,
    208, 180, 208, 181, 209, 128, 208, 176, 209, 130, 208, 190, 209, 128, 208, 190, 208, 178,
    32, 208, 186, 208, 190, 208, 188, 208, 189, 208, 176, 209, 130, 209, 139]"

text \<open>Rooms I created.\<close>

definition dsc_myrooms :: string where
  "dsc_myrooms = utf8 [
    208, 161, 208, 191, 208, 184, 209, 129, 208, 190, 208, 186, 32, 208, 186, 208, 190, 208,
    188, 208, 189, 208, 176, 209, 130, 44, 32, 208, 186, 208, 190, 209, 130, 208, 190, 209, 128,
    209, 139, 208, 181, 32, 209, 143, 32, 209, 129, 208, 190, 208, 183, 208, 180, 208, 176, 208,
    187]"

text \<open>Change the nick.\<close>

definition dsc_nick :: string where
  "dsc_nick = utf8 [
    208, 161, 208, 188, 208, 181, 208, 189, 208, 184, 209, 130, 209, 140, 32, 208, 189, 208,
    184, 208, 186]"

text \<open>Private message.\<close>

definition dsc_msg :: string where
  "dsc_msg = utf8 [
    208, 157, 208, 176, 208, 191, 208, 184, 209, 129, 208, 176, 209, 130, 209, 140, 32, 208,
    187, 208, 184, 209, 135, 208, 189, 208, 190, 208, 181, 32, 209, 129, 208, 190, 208, 190,
    208, 177, 209, 137, 208, 181, 208, 189, 208, 184, 208, 181, 32, 208, 178, 32, 208, 191, 209,
    128, 208, 181, 208, 180, 208, 181, 208, 187, 208, 176, 209, 133, 32, 208, 186, 208, 190,
    208, 188, 208, 189, 208, 176, 209, 130, 209, 139, 32, 40, 209, 132, 209, 131, 208, 189, 208,
    186, 209, 134, 208, 184, 209, 143, 32, 209, 130, 208, 181, 209, 129, 209, 130, 208, 190,
    208, 178, 208, 176, 209, 143, 41]"

text \<open>Private message by member id.\<close>

definition dsc_umsg :: string where
  "dsc_umsg = utf8 [
    208, 157, 208, 176, 208, 191, 208, 184, 209, 129, 208, 176, 209, 130, 209, 140, 32, 208,
    187, 208, 184, 209, 135, 208, 189, 208, 190, 208, 181, 32, 209, 129, 208, 190, 208, 190,
    208, 177, 209, 137, 208, 181, 208, 189, 208, 184, 208, 181, 32, 208, 191, 208, 190, 32, 208,
    178, 208, 189, 209, 131, 209, 130, 209, 128, 208, 184, 208, 186, 208, 190, 208, 188, 208,
    189, 208, 176, 209, 130, 208, 189, 208, 190, 208, 188, 209, 131, 32, 105, 100, 32, 208, 191,
    208, 190, 208, 187, 209, 140, 208, 183, 208, 190, 208, 178, 208, 176, 209, 130, 208, 181,
    208, 187, 209, 143, 32, 40, 209, 132, 209, 131, 208, 189, 208, 186, 209, 134, 208, 184, 209,
    143, 32, 209, 130, 208, 181, 209, 129, 209, 130, 208, 190, 208, 178, 208, 176, 209, 143, 41]"

text \<open>List of rooms.\<close>

definition dsc_roomlist :: string where
  "dsc_roomlist = utf8 [
    208, 161, 208, 191, 208, 184, 209, 129, 208, 190, 208, 186, 32, 208, 186, 208, 190, 208,
    188, 208, 189, 208, 176, 209, 130]"

text \<open>Action message.\<close>

definition dsc_me :: string where
  "dsc_me = utf8 [
    208, 157, 208, 176, 208, 191, 208, 184, 209, 129, 208, 176, 209, 130, 209, 140, 32, 209,
    129, 208, 190, 208, 190, 208, 177, 209, 137, 208, 181, 208, 189, 208, 184, 208, 181, 45,
    208, 180, 208, 181, 208, 185, 209, 129, 209, 130, 208, 178, 208, 184, 208, 181, 32, 208,
    190, 209, 130, 32, 209, 129, 208, 178, 208, 190, 208, 181, 208, 179, 208, 190, 32, 208, 187,
    208, 184, 209, 134, 208, 176]"

text \<open>Third person message.\<close>

definition dsc_do :: string where
  "dsc_do = utf8 [
    208, 157, 208, 176, 208, 191, 208, 184, 209, 129, 208, 176, 209, 130, 209, 140, 32, 209,
    129, 208, 190, 208, 190, 208, 177, 209, 137, 208, 181, 208, 189, 208, 184, 208, 181, 32,
    208, 190, 209, 130, 32, 209, 130, 209, 128, 208, 181, 209, 130, 209, 140, 208, 181, 208,
    179, 208, 190, 32, 208, 187, 208, 184, 209, 134, 208, 176]"

text \<open>Offtopic message.\<close>

definition dsc_offtop :: string where
  "dsc_offtop = utf8 [
    208, 157, 208, 176, 208, 191, 208, 184, 209, 129, 208, 176, 209, 130, 209, 140, 32, 208,
    190, 209, 132, 209, 132, 209, 130, 208, 190, 208, 191, 45, 209, 129, 208, 190, 208, 190,
    208, 177, 209, 137, 208, 181, 208, 189, 208, 184, 208, 181]"

text \<open>List of clients.\<close>

definition dsc_userlist :: string where
  "dsc_userlist = utf8 [
    208, 161, 208, 191, 208, 184, 209, 129, 208, 190, 208, 186, 32, 208, 186, 208, 187, 208,
    184, 208, 181, 208, 189, 209, 130, 208, 190, 208, 178, 32, 209, 129, 32, 73, 68, 32, 208,
    184, 32, 73, 80]"

end
