(* ===== verification/State.thy ===== *)
theory State
  imports Texts
begin

text \<open>
  The data of the server. The classes \<open>Client\<close>, \<open>Member\<close>, \<open>Room\<close>,
  \<open>ClientsManager\<close> and \<open>Server\<close> are records; a \<open>shared_ptr\<close> is an address in
  one of three heaps of the \<open>world\<close>. The heaps are total functions: an address stays
  valid while somebody holds it, so only the null pointer (an option) can fault.
  Everything outside the source tree (jsoncpp, utfcpp, the WebSocket server, Redis, the
  SQL connectors, the random engine) is a field of the record \<open>env\<close>.
\<close>

type_synonym u32 = "32 word"
type_synonym time = int
type_synonym conn = nat
type_synonym client_ptr = nat
type_synonym member_ptr = nat
type_synonym room_ptr = nat

subsection \<open>Enumerations\<close>

datatype packet_type =
    PT_error | PT_system | PT_message | PT_online_list | PT_auth | PT_status | PT_join
  | PT_leave | PT_create_room | PT_remove_room | PT_ping

primrec packet_type_code :: "packet_type \<Rightarrow> int" where
  "packet_type_code PT_error = 0"
| "packet_type_code PT_system = 1"
| "packet_type_code PT_message = 2"
| "packet_type_code PT_online_list = 3"
| "packet_type_code PT_auth = 4"
| "packet_type_code PT_status = 5"
| "packet_type_code PT_join = 6"
| "packet_type_code PT_leave = 7"
| "packet_type_code PT_create_room = 8"
| "packet_type_code PT_remove_room = 9"
| "packet_type_code PT_ping = 10"

text \<open>
  \<open>Member::Status\<close> has a fixed underlying type, so a cast from any \<open>int\<close> is a
  valid value: \<open>St_other\<close> holds the values that have no name.
\<close>

datatype status =
    St_bad | St_offline | St_online | St_away | St_nick_change | St_gender_change
  | St_color_change | St_back | St_typing | St_stop_typing | St_orphan | St_other int

primrec status_code :: "status \<Rightarrow> int" where
  "status_code St_bad = 0"
| "status_code St_offline = 1"
| "status_code St_online = 2"
| "status_code St_away = 3"
| "status_code St_nick_change = 4"
| "status_code St_gender_change = 5"
| "status_code St_color_change = 6"
| "status_code St_back = 7"
| "status_code St_typing = 8"
| "status_code St_stop_typing = 9"
| "status_code St_orphan = 10"
| "status_code (St_other i) = i"

definition named_statuses :: "status list" where
  "named_statuses = [St_bad, St_offline, St_online, St_away, St_nick_change, St_gender_change,
     St_color_change, St_back, St_typing, St_stop_typing, St_orphan]"

definition status_of_int :: "int \<Rightarrow> status" where
  "status_of_int i = (case find (\<lambda>s. status_code s = i) named_statuses of
     Some s \<Rightarrow> s | None \<Rightarrow> St_other i)"

datatype error_code =
    EC_unknown | EC_database_error | EC_already_connected | EC_not_found | EC_access_denied
  | EC_invalid_target | EC_already_exists | EC_incorrect_loginpass | EC_user_banned

primrec error_code_num :: "error_code \<Rightarrow> u32" where
  "error_code_num EC_unknown = 0"
| "error_code_num EC_database_error = 1"
| "error_code_num EC_already_connected = 2"
| "error_code_num EC_not_found = 3"
| "error_code_num EC_access_denied = 4"
| "error_code_num EC_invalid_target = 5"
| "error_code_num EC_already_exists = 6"
| "error_code_num EC_incorrect_loginpass = 7"
| "error_code_num EC_user_banned = 8"

datatype style = Sty_message | Sty_me | Sty_event | Sty_offtop

primrec style_code :: "style \<Rightarrow> u32" where
  "style_code Sty_message = 0"
| "style_code Sty_me = 1"
| "style_code Sty_event = 2"
| "style_code Sty_offtop = 3"

subsection \<open>Objects\<close>

record client =
  c_connection :: "conn option"
  c_rooms :: "room_ptr list"
  c_name :: string
  c_uid :: u32
  c_isGirl :: bool
  c_color :: string
  c_lastClientIP :: string
  c_token :: string
  c_lastPacketTime :: time
  c_lastMessageTime :: time
  c_messageCounter :: int

record member =
  m_id :: u32
  m_client :: client_ptr
  m_room :: room_ptr
  m_nick :: string
  m_status :: status
  m_girl :: bool
  m_color :: string
  m_lastSeenTime :: time

record member_info =
  mi_user_id :: u32
  mi_nick :: string
  mi_girl :: bool
  mi_color :: string

record room =
  r_name :: string
  r_ownerId :: u32
  r_nextMessageId :: u32
  r_members :: "member_ptr list"
  r_membersInfo :: "(u32 \<times> member_info) list"
  r_bannedNicks :: "string list"
  r_bannedIps :: "string list"
  r_bannedUids :: "u32 list"
  r_moderators :: "u32 list"
  r_history :: "string list"
  r_nextMemberId :: u32

record counter =
  ct_connections :: int
  ct_clients :: int

subsection \<open>Packets\<close>

record packet_error =
  pe_sequenceId :: "u32 option"
  pe_source :: packet_type
  pe_target :: string
  pe_code :: error_code
  pe_info :: string

record packet_system =
  ps_sequenceId :: "u32 option"
  ps_target :: string
  ps_message :: string

record packet_message =
  pm_sequenceId :: "u32 option"
  pm_id :: string
  pm_msgtime :: time
  pm_target :: string
  pm_message :: string
  pm_color :: string
  pm_from_login :: string
  pm_from_id :: u32
  pm_to_id :: u32
  pm_style :: style

record packet_status =
  pt_sequenceId :: "u32 option"
  pt_target :: string
  pt_status :: status
  pt_member_id :: u32
  pt_user_id :: u32
  pt_girl :: bool
  pt_color :: string
  pt_name :: string
  pt_data :: string
  pt_is_owner :: bool
  pt_is_moder :: bool
  pt_last_seen_time :: time

record packet_online_list =
  po_sequenceId :: "u32 option"
  po_target :: string
  po_list :: "packet_status list"

record packet_auth =
  pa_sequenceId :: "u32 option"
  pa_ukey :: string
  pa_api_key :: string
  pa_user_id :: u32
  pa_name :: string
  pa_password :: string
  pa_token :: string

record packet_join =
  pj_sequenceId :: "u32 option"
  pj_target :: string
  pj_member_id :: u32
  pj_login :: string
  pj_auto_login :: bool
  pj_load_history :: bool

record packet_leave =
  pl_sequenceId :: "u32 option"
  pl_target :: string

record packet_create_room =
  pc_sequenceId :: "u32 option"
  pc_target :: string

record packet_remove_room =
  pr_sequenceId :: "u32 option"
  pr_target :: string

datatype packet =
    Packet_Error packet_error
  | Packet_System packet_system
  | Packet_Message packet_message
  | Packet_OnlineList packet_online_list
  | Packet_Auth packet_auth
  | Packet_Status packet_status
  | Packet_Join packet_join
  | Packet_Leave packet_leave
  | Packet_CreateRoom packet_create_room
  | Packet_RemoveRoom packet_remove_room
  | Packet_Ping "u32 option"

subsection \<open>The outside world\<close>

text \<open>
  An exception of the C++ libraries, as far as the source tells them apart: the packet
  reader catches \<open>std::out_of_range\<close>, the database layer the exceptions of its SQL
  client, which it turns into \<open>DbException\<close>; the login handler catches that one apart
  from every other \<open>std::exception\<close>.
\<close>

datatype exn = Out_of_range | Db_exception | Sql_exception | Other_exn

text \<open>
  jsoncpp, over an opaque type of documents: constructors, member access, the
  conversions (which may throw), iteration, \<open>FastWriter\<close> and \<open>Reader\<close>.
\<close>

record 'j jsoncpp =
  j_null :: 'j
  j_of_int :: "int \<Rightarrow> 'j"
  j_of_uint :: "u32 \<Rightarrow> 'j"
  j_of_uint64 :: "int \<Rightarrow> 'j"
  j_of_bool :: "bool \<Rightarrow> 'j"
  j_of_string :: "string \<Rightarrow> 'j"
  j_of_array :: "'j list \<Rightarrow> 'j"
  j_object :: 'j
  j_set :: "'j \<Rightarrow> string \<Rightarrow> 'j \<Rightarrow> 'j"
  j_get :: "'j \<Rightarrow> string \<Rightarrow> exn + 'j"
  j_isMember :: "'j \<Rightarrow> string \<Rightarrow> bool"
  j_elements :: "'j \<Rightarrow> 'j list"
  j_asInt :: "'j \<Rightarrow> exn + int"
  j_asUInt :: "'j \<Rightarrow> exn + u32"
  j_asUInt64 :: "'j \<Rightarrow> exn + int"
  j_asBool :: "'j \<Rightarrow> exn + bool"
  j_asString :: "'j \<Rightarrow> exn + string"
  j_write :: "'j \<Rightarrow> string"
  j_parse :: "string \<Rightarrow> 'j option"

datatype redis_reply = Reply_null | Reply_ok string | Reply_error

datatype backend = Mysql | Postgres

text \<open>The values of \<open>sql::ConnectOptionsMap\<close> that the source uses.\<close>

datatype connect_property = String_property string | Bool_property bool

text \<open>
  The environment. \<open>'x\<close> is the state of the external services (Redis and the SQL
  servers), which only their own operations read and change. \<open>e_random (lo, hi) k\<close> is the
  \<open>k\<close>-th number of a uniform distribution over \<open>lo .. hi\<close>. \<open>e_config\<close> reads a string of
  the configuration file; \<open>e_sql_conn\<close> tells whether the static \<open>conn\<close> of a database class
  is set and \<open>e_sql_open\<close> whether that connection is open; \<open>e_mysql_connect\<close> and
  \<open>e_postgres_connect\<close> make a connection and store it, \<open>e_mysql_reconnect\<close> is
  \<open>conn->reconnect()\<close>.
\<close>

record ('j, 'x) env =
  e_json :: "'j jsoncpp"
  e_maxHistory :: int
  e_header :: "conn \<Rightarrow> string \<Rightarrow> string option"
  e_remote_ip :: "conn \<Rightarrow> string"
  e_cookie :: "string \<Rightarrow> string \<Rightarrow> string option"
  e_random :: "nat \<times> nat \<Rightarrow> nat \<Rightarrow> nat"
  e_find_invalid :: "string \<Rightarrow> nat"
  e_redis_connected :: "'x \<Rightarrow> bool"
  e_redis_connect :: "'x \<Rightarrow> (exn + unit) \<times> 'x"
  e_redis_command :: "string \<Rightarrow> string list \<Rightarrow> 'x \<Rightarrow> (exn + redis_reply) \<times> 'x"
  e_config :: "string list \<Rightarrow> string"
  e_sql_conn :: "backend \<Rightarrow> 'x \<Rightarrow> bool"
  e_sql_open :: "backend \<Rightarrow> 'x \<Rightarrow> bool"
  e_mysql_connect :: "(string \<times> connect_property) list \<Rightarrow> 'x \<Rightarrow> (exn + unit) \<times> 'x"
  e_mysql_reconnect :: "'x \<Rightarrow> (exn + unit) \<times> 'x"
  e_postgres_connect :: "string \<Rightarrow> 'x \<Rightarrow> (exn + unit) \<times> 'x"
  e_sql_statement :: "'x \<Rightarrow> (exn + unit) \<times> 'x"
  e_sql_prepare :: "string \<Rightarrow> 'x \<Rightarrow> (exn + unit) \<times> 'x"
  e_sql_execute :: "string \<Rightarrow> string list \<Rightarrow> 'x \<Rightarrow> (exn + bool) \<times> 'x"
  e_sql_update :: "string \<Rightarrow> string list \<Rightarrow> 'x \<Rightarrow> (exn + int) \<times> 'x"
  e_sql_query :: "backend \<Rightarrow> string \<Rightarrow> string list \<Rightarrow> 'x \<Rightarrow> (exn + string list list) \<times> 'x"
  e_sql_int :: "string \<Rightarrow> int"
  e_stoi :: "string \<Rightarrow> exn + int"

datatype sent = Send conn string | Send_close conn

text \<open>
  The world: the three heaps, the fields of \<open>Server\<close> and \<open>ClientsManager\<close>, the
  clock, the position in the random stream, the external services, and what was sent.
  \<open>w_rooms\<close> is \<open>Server::rooms\<close>; \<open>w_clients\<close>, \<open>w_connectionToClient\<close>,
  \<open>w_tokenToClient\<close> and \<open>w_countersFromIp\<close> belong to the clients manager.
\<close>

record 'x world =
  w_client :: "client_ptr \<Rightarrow> client"
  w_member :: "member_ptr \<Rightarrow> member"
  w_room :: "room_ptr \<Rightarrow> room"
  w_nextClient :: client_ptr
  w_nextMember :: member_ptr
  w_nextRoom :: room_ptr
  w_rooms :: "room_ptr list"
  w_clients :: "client_ptr list"
  w_connectionToClient :: "conn \<rightharpoonup> client_ptr"
  w_tokenToClient :: "string \<rightharpoonup> client_ptr"
  w_countersFromIp :: "(string \<times> counter) list"
  w_now :: time
  w_random :: nat
  w_ext :: 'x
  w_out :: "sent list"

definition upd_client :: "client_ptr \<Rightarrow> (client \<Rightarrow> client) \<Rightarrow> 'x world \<Rightarrow> 'x world" where
  "upd_client c f w = w\<lparr>w_client := (w_client w)(c := f (w_client w c))\<rparr>"

definition upd_member :: "member_ptr \<Rightarrow> (member \<Rightarrow> member) \<Rightarrow> 'x world \<Rightarrow> 'x world" where
  "upd_member m f w = w\<lparr>w_member := (w_member w)(m := f (w_member w m))\<rparr>"

definition upd_room :: "room_ptr \<Rightarrow> (room \<Rightarrow> room) \<Rightarrow> 'x world \<Rightarrow> 'x world" where
  "upd_room r f w = w\<lparr>w_room := (w_room w)(r := f (w_room w r))\<rparr>"

definition emit :: "sent \<Rightarrow> 'x world \<Rightarrow> 'x world" where
  "emit out w = w\<lparr>w_out := w_out w @ [out]\<rparr>"

lemma upd_client_sel [simp]:
  "w_client (upd_client c f w) = (w_client w)(c := f (w_client w c))"
  "w_member (upd_client c f w) = w_member w"
  "w_room (upd_client c f w) = w_room w"
  "w_nextClient (upd_client c f w) = w_nextClient w"
  "w_nextMember (upd_client c f w) = w_nextMember w"
  "w_nextRoom (upd_client c f w) = w_nextRoom w"
  "w_rooms (upd_client c f w) = w_rooms w"
  "w_clients (upd_client c f w) = w_clients w"
  "w_connectionToClient (upd_client c f w) = w_connectionToClient w"
  "w_tokenToClient (upd_client c f w) = w_tokenToClient w"
  "w_countersFromIp (upd_client c f w) = w_countersFromIp w"
  "w_now (upd_client c f w) = w_now w"
  "w_random (upd_client c f w) = w_random w"
  "w_ext (upd_client c f w) = w_ext w"
  "w_out (upd_client c f w) = w_out w"
  by (simp_all add: upd_client_def)

lemma upd_member_sel [simp]:
  "w_client (upd_member m g w) = w_client w"
  "w_member (upd_member m g w) = (w_member w)(m := g (w_member w m))"
  "w_room (upd_member m g w) = w_room w"
  "w_nextClient (upd_member m g w) = w_nextClient w"
  "w_nextMember (upd_member m g w) = w_nextMember w"
  "w_nextRoom (upd_member m g w) = w_nextRoom w"
  "w_rooms (upd_member m g w) = w_rooms w"
  "w_clients (upd_member m g w) = w_clients w"
  "w_connectionToClient (upd_member m g w) = w_connectionToClient w"
  "w_tokenToClient (upd_member m g w) = w_tokenToClient w"
  "w_countersFromIp (upd_member m g w) = w_countersFromIp w"
  "w_now (upd_member m g w) = w_now w"
  "w_random (upd_member m g w) = w_random w"
  "w_ext (upd_member m g w) = w_ext w"
  "w_out (upd_member m g w) = w_out w"
  by (simp_all add: upd_member_def)

lemma upd_room_sel [simp]:
  "w_client (upd_room r h w) = w_client w"
  "w_member (upd_room r h w) = w_member w"
  "w_room (upd_room r h w) = (w_room w)(r := h (w_room w r))"
  "w_nextClient (upd_room r h w) = w_nextClient w"
  "w_nextMember (upd_room r h w) = w_nextMember w"
  "w_nextRoom (upd_room r h w) = w_nextRoom w"
  "w_rooms (upd_room r h w) = w_rooms w"
  "w_clients (upd_room r h w) = w_clients w"
  "w_connectionToClient (upd_room r h w) = w_connectionToClient w"
  "w_tokenToClient (upd_room r h w) = w_tokenToClient w"
  "w_countersFromIp (upd_room r h w) = w_countersFromIp w"
  "w_now (upd_room r h w) = w_now w"
  "w_random (upd_room r h w) = w_random w"
  "w_ext (upd_room r h w) = w_ext w"
  "w_out (upd_room r h w) = w_out w"
  by (simp_all add: upd_room_def)

lemma emit_sel [simp]:
  "w_client (emit out w) = w_client w"
  "w_member (emit out w) = w_member w"
  "w_room (emit out w) = w_room w"
  "w_nextClient (emit out w) = w_nextClient w"
  "w_nextMember (emit out w) = w_nextMember w"
  "w_nextRoom (emit out w) = w_nextRoom w"
  "w_rooms (emit out w) = w_rooms w"
  "w_clients (emit out w) = w_clients w"
  "w_connectionToClient (emit out w) = w_connectionToClient w"
  "w_tokenToClient (emit out w) = w_tokenToClient w"
  "w_countersFromIp (emit out w) = w_countersFromIp w"
  "w_now (emit out w) = w_now w"
  "w_random (emit out w) = w_random w"
  "w_ext (emit out w) = w_ext w"
  "w_out (emit out w) = w_out w @ [out]"
  by (simp_all add: emit_def)

subsection \<open>The linked structure\<close>

text \<open>
  What the invariants of the server speak about: which client is in which room through
  which member, names and nicks, connections, tokens and counters. Texts, colours,
  statuses, bans, histories and clocks are not in it.
\<close>

definition client_view :: "client \<Rightarrow> conn option \<times> room_ptr list \<times> string \<times> string" where
  "client_view c = (c_connection c, c_rooms c, c_lastClientIP c, c_token c)"

definition member_view :: "member \<Rightarrow> u32 \<times> client_ptr \<times> room_ptr \<times> string" where
  "member_view m = (m_id m, m_client m, m_room m, m_nick m)"

definition room_view :: "room \<Rightarrow> string \<times> member_ptr list" where
  "room_view r = (r_name r, r_members r)"

definition view ::
  "'x world \<Rightarrow> (client_ptr \<Rightarrow> conn option \<times> room_ptr list \<times> string \<times> string)
     \<times> (member_ptr \<Rightarrow> u32 \<times> client_ptr \<times> room_ptr \<times> string)
     \<times> (room_ptr \<Rightarrow> string \<times> member_ptr list)
     \<times> (client_ptr \<times> member_ptr \<times> room_ptr)
     \<times> room_ptr list \<times> client_ptr list
     \<times> (conn \<rightharpoonup> client_ptr) \<times> (string \<rightharpoonup> client_ptr) \<times> (string \<times> counter) list" where
  "view w = (client_view \<circ> w_client w, member_view \<circ> w_member w, room_view \<circ> w_room w,
     (w_nextClient w, w_nextMember w, w_nextRoom w), w_rooms w, w_clients w,
     w_connectionToClient w, w_tokenToClient w, w_countersFromIp w)"

lemma view_upd_client [view_simps]:
  "client_view (f (w_client w c)) = client_view (w_client w c) \<Longrightarrow> view (upd_client c f w) = view w"
  by (auto simp: view_def fun_eq_iff)

lemma view_upd_member [view_simps]:
  "member_view (f (w_member w m)) = member_view (w_member w m) \<Longrightarrow> view (upd_member m f w) = view w"
  by (auto simp: view_def fun_eq_iff)

lemma view_upd_room [view_simps]:
  "room_view (f (w_room w r)) = room_view (w_room w r) \<Longrightarrow> view (upd_room r f w) = view w"
  by (auto simp: view_def fun_eq_iff)

lemma view_emit [view_simps]: "view (emit out w) = view w"
  by (simp add: view_def)

lemma view_eqD:
  assumes "view w' = view w"
  shows "c_connection (w_client w' c) = c_connection (w_client w c)"
    and "c_rooms (w_client w' c) = c_rooms (w_client w c)"
    and "c_lastClientIP (w_client w' c) = c_lastClientIP (w_client w c)"
    and "c_token (w_client w' c) = c_token (w_client w c)"
    and "m_id (w_member w' m) = m_id (w_member w m)"
    and "m_client (w_member w' m) = m_client (w_member w m)"
    and "m_room (w_member w' m) = m_room (w_member w m)"
    and "m_nick (w_member w' m) = m_nick (w_member w m)"
    and "r_name (w_room w' r) = r_name (w_room w r)"
    and "r_members (w_room w' r) = r_members (w_room w r)"
    and "w_nextClient w' = w_nextClient w" and "w_nextMember w' = w_nextMember w"
    and "w_nextRoom w' = w_nextRoom w"
    and "w_rooms w' = w_rooms w" and "w_clients w' = w_clients w"
    and "w_connectionToClient w' = w_connectionToClient w"
    and "w_tokenToClient w' = w_tokenToClient w"
    and "w_countersFromIp w' = w_countersFromIp w"
  using assms
  by (auto simp: view_def client_view_def member_view_def room_view_def fun_eq_iff)

lemma status_code_inj: "status_code s = status_code t \<Longrightarrow> s \<in> set named_statuses
    \<Longrightarrow> t \<in> set named_statuses \<Longrightarrow> s = t"
  by (auto simp: named_statuses_def)

lemma status_of_int_code: "s \<in> set named_statuses \<Longrightarrow> status_of_int (status_code s) = s"
  by (auto simp: named_statuses_def status_of_int_def)

lemma packet_type_code_inj: "packet_type_code s = packet_type_code t \<Longrightarrow> s = t"
  by (cases s; cases t) auto

end
