(* ===== verification/Regex.thy ===== *)
theory Regex
  imports State "HOL-Library.Sublist"
begin

text \<open>
  The part of \<open>std::regex\<close> (ECMAScript grammar, C locale, byte strings) that the program
  uses, and on it the files of \<open>regex/\<close>: \<open>regex_split\<close> and the class
  \<open>regex_parser\<close> that takes command lines apart. A pattern denotes the list of all its
  matches at a position in the order the backtracking matcher tries them, so the first
  element is the match the library returns.
\<close>

subsection \<open>Patterns and their matches\<close>

datatype rx =
    Eps
  | Cls "char \<Rightarrow> bool"
  | Seq rx rx
  | Alt rx rx
  | Rep rx nat "nat option"
  | Grp nat rx
  | Bol
  | Eol

type_synonym caps = "nat \<rightharpoonup> string"

primrec rep_exact :: "(string \<times> caps \<Rightarrow> (string \<times> caps) list) \<Rightarrow> nat \<Rightarrow> string \<times> caps
    \<Rightarrow> (string \<times> caps) list" where
  "rep_exact f 0 s = [s]"
| "rep_exact f (Suc n) s = concat (map (rep_exact f n) (f s))"

text \<open>Greedy: one more round, if it consumes something, is tried before stopping.\<close>

primrec rep_upto :: "(string \<times> caps \<Rightarrow> (string \<times> caps) list) \<Rightarrow> nat \<Rightarrow> string \<times> caps
    \<Rightarrow> (string \<times> caps) list" where
  "rep_upto f 0 s = [s]"
| "rep_upto f (Suc k) s =
     concat (map (rep_upto f k) (filter (\<lambda>t. length (fst t) < length (fst s)) (f s))) @ [s]"

text \<open>
  \<open>rx_all b r (s, g)\<close>: \<open>s\<close> is what is left of the input, \<open>g\<close> the groups captured
  so far; \<open>b\<close> is the length of the rest at the position where \<open>^\<close> holds, if any.
\<close>

primrec rx_all :: "nat option \<Rightarrow> rx \<Rightarrow> string \<times> caps \<Rightarrow> (string \<times> caps) list" where
  "rx_all b Eps = (\<lambda>s. [s])"
| "rx_all b (Cls P) = (\<lambda>s. case fst s of [] \<Rightarrow> [] | c # cs \<Rightarrow> if P c then [(cs, snd s)] else [])"
| "rx_all b (Seq r1 r2) = (\<lambda>s. concat (map (rx_all b r2) (rx_all b r1 s)))"
| "rx_all b (Alt r1 r2) = (\<lambda>s. rx_all b r1 s @ rx_all b r2 s)"
| "rx_all b (Rep r lo hi) = (\<lambda>s. concat (map
     (\<lambda>t. rep_upto (rx_all b r) (case hi of None \<Rightarrow> length (fst t) | Some h \<Rightarrow> h - lo) t)
     (rep_exact (rx_all b r) lo s)))"
| "rx_all b (Grp n r) = (\<lambda>s. map
     (\<lambda>t. (fst t, (snd t)(n \<mapsto> take (length (fst s) - length (fst t)) (fst s)))) (rx_all b r s))"
| "rx_all b Bol = (\<lambda>s. if b = Some (length (fst s)) then [s] else [])"
| "rx_all b Eol = (\<lambda>s. if fst s = [] then [s] else [])"

primrec rx_groups :: "rx \<Rightarrow> nat" where
  "rx_groups Eps = 0"
| "rx_groups (Cls P) = 0"
| "rx_groups (Seq r1 r2) = rx_groups r1 + rx_groups r2"
| "rx_groups (Alt r1 r2) = rx_groups r1 + rx_groups r2"
| "rx_groups (Rep r lo hi) = rx_groups r"
| "rx_groups (Grp n r) = Suc (rx_groups r)"
| "rx_groups Bol = 0"
| "rx_groups Eol = 0"

subsection \<open>\<open>regex_match\<close>, \<open>regex_search\<close>, \<open>regex_replace\<close>\<close>

text \<open>
  \<open>smatch\<close>: after a failed search it is empty (\<open>size() == 0\<close>) and its suffix is the
  empty string.
\<close>

record smatch =
  sm_prefix :: string
  sm_str :: string
  sm_suffix :: string
  sm_caps :: caps
  sm_size :: nat

definition no_match :: smatch where
  "no_match = \<lparr>sm_prefix = [], sm_str = [], sm_suffix = [], sm_caps = Map.empty, sm_size = 0\<rparr>"

definition regex_match :: "string \<Rightarrow> rx \<Rightarrow> bool" where
  "regex_match s r = list_ex (\<lambda>t. fst t = []) (rx_all (Some (length s)) r (s, Map.empty))"

fun rx_search :: "nat option \<Rightarrow> rx \<Rightarrow> string \<Rightarrow> string \<Rightarrow> smatch option" where
  "rx_search b r pre s =
     (case rx_all b r (s, Map.empty) of
        t # _ \<Rightarrow> Some \<lparr>sm_prefix = pre, sm_str = take (length s - length (fst t)) s,
                    sm_suffix = fst t, sm_caps = snd t, sm_size = Suc (rx_groups r)\<rparr>
      | [] \<Rightarrow> (case s of [] \<Rightarrow> None | c # cs \<Rightarrow> rx_search b r (pre @ [c]) cs))"

declare rx_search.simps [simp del]

definition regex_search :: "string \<Rightarrow> rx \<Rightarrow> smatch option" where
  "regex_search s r = rx_search (Some (length s)) r [] s"

subsection \<open>A match cuts the input in three\<close>

lemma rep_exact_suffix:
  assumes "\<And>s t. t \<in> set (f s) \<Longrightarrow> suffix (fst t) (fst s)"
  shows "t \<in> set (rep_exact f n s) \<Longrightarrow> suffix (fst t) (fst s)"
  using assms by (induction n arbitrary: s) (auto, meson suffix_order.trans)

lemma rep_upto_suffix:
  assumes "\<And>s t. t \<in> set (f s) \<Longrightarrow> suffix (fst t) (fst s)"
  shows "t \<in> set (rep_upto f n s) \<Longrightarrow> suffix (fst t) (fst s)"
  using assms by (induction n arbitrary: s) (auto, meson suffix_order.trans)

lemma rx_all_suffix: "t \<in> set (rx_all b r s) \<Longrightarrow> suffix (fst t) (fst s)"
proof (induction r arbitrary: s t)
  case (Cls P)
  then show ?case by (cases "fst s") (auto split: if_splits simp: suffix_ConsI)
next
  case (Seq r1 r2)
  then obtain u where "u \<in> set (rx_all b r1 s)" "t \<in> set (rx_all b r2 u)" by auto
  then have "suffix (fst u) (fst s)" "suffix (fst t) (fst u)" using Seq.IH by blast+
  then show ?case by (meson suffix_order.trans)
next
  case (Rep r lo hi)
  from Rep.prems obtain u where u: "u \<in> set (rep_exact (rx_all b r) lo s)"
    and t: "t \<in> set (rep_upto (rx_all b r) (case hi of None \<Rightarrow> length (fst u) | Some h \<Rightarrow> h - lo) u)"
    by auto
  have "suffix (fst u) (fst s)" using Rep.IH u by (blast intro: rep_exact_suffix)
  moreover have "suffix (fst t) (fst u)" using Rep.IH t by (blast intro: rep_upto_suffix)
  ultimately show ?case by (meson suffix_order.trans)
qed (auto split: if_splits)

lemma suffix_take_append: "suffix t s \<Longrightarrow> take (length s - length t) s @ t = s"
  by (auto simp: suffix_def)

lemma rx_search_parts:
  "rx_search b r pre s = Some m \<Longrightarrow> sm_prefix m @ sm_str m @ sm_suffix m = pre @ s"
proof (induction b r pre s rule: rx_search.induct)
  case (1 b r pre s)
  show ?case
  proof (cases "rx_all b r (s, Map.empty)")
    case Nil
    with 1 show ?thesis
      by (cases s) (auto simp: rx_search.simps [of b r pre] split: list.splits)
  next
    case (Cons t ts)
    then have "suffix (fst t) s" using rx_all_suffix [of t b r "(s, Map.empty)"] by simp
    with Cons "1.prems" show ?thesis
      by (auto simp: rx_search.simps [of b r pre s] suffix_take_append)
  qed
qed

lemma regex_search_parts:
  "regex_search s r = Some m \<Longrightarrow> sm_prefix m @ sm_str m @ sm_suffix m = s"
  unfolding regex_search_def by (drule rx_search_parts) simp

text \<open>
  \<open>regex_replace\<close> with a replacement that has no \<open>$\<close>: every match of the leftmost
  non-overlapping matches is replaced; after the first match \<open>^\<close> holds nowhere
  (\<open>match_prev_avail\<close>). Every pattern the program replaces consumes at least one
  character; the advance of \<open>regex_iterator\<close> past an empty match is left out.
\<close>

function rx_replace :: "nat option \<Rightarrow> rx \<Rightarrow> string \<Rightarrow> string \<Rightarrow> string" where
  "rx_replace b r fmt s =
     (case rx_search b r [] s of
        None \<Rightarrow> s
      | Some m \<Rightarrow> if sm_str m = [] then s
                  else sm_prefix m @ fmt @ rx_replace None r fmt (sm_suffix m))"
  by pat_completeness auto
termination
proof (relation "measure (\<lambda>(b, r, fmt, s). length s)", goal_cases)
  case (2 b r fmt s m)
  then have "sm_prefix m @ sm_str m @ sm_suffix m = s" using rx_search_parts by fastforce
  then have "length s = length (sm_prefix m) + length (sm_str m) + length (sm_suffix m)"
    by (metis add.assoc length_append)
  with 2(2) show ?case by simp
qed simp

declare rx_replace.simps [simp del]

definition regex_replace :: "string \<Rightarrow> rx \<Rightarrow> string \<Rightarrow> string" where
  "regex_replace s r fmt = rx_replace (Some (length s)) r fmt s"

subsection \<open>Character classes\<close>

definition is_space :: "char \<Rightarrow> bool" where
  "is_space c = (c \<in> {CHR '' '', CHR 0x09, CHR 0x0A, CHR 0x0B, CHR 0x0C, CHR 0x0D})"

definition code_in :: "nat \<Rightarrow> nat \<Rightarrow> char \<Rightarrow> bool" where
  "code_in lo hi c = (lo \<le> (of_char c :: nat) \<and> (of_char c :: nat) \<le> hi)"

definition is_digit :: "char \<Rightarrow> bool" where
  "is_digit c = code_in 48 57 c"

definition is_alpha :: "char \<Rightarrow> bool" where
  "is_alpha c = (code_in 65 90 c \<or> code_in 97 122 c)"

definition is_xdigit :: "char \<Rightarrow> bool" where
  "is_xdigit c = (is_digit c \<or> code_in 65 70 c \<or> code_in 97 102 c)"

definition rx_char :: "char \<Rightarrow> rx" where
  "rx_char c = Cls (\<lambda>d. d = c)"

primrec rx_string :: "string \<Rightarrow> rx" where
  "rx_string [] = Eps"
| "rx_string (c # cs) = Seq (rx_char c) (rx_string cs)"

definition rx_plus :: "rx \<Rightarrow> rx" where
  "rx_plus r = Rep r 1 None"

definition rx_star :: "rx \<Rightarrow> rx" where
  "rx_star r = Rep r 0 None"

subsection \<open>A repeated class takes the longest run\<close>

lemma rep_upto_Cls:
  "length s \<le> k \<Longrightarrow> \<exists>ts. rep_upto (rx_all b (Cls P)) k (s, g) = (dropWhile P s, g) # ts"
proof (induction k arbitrary: s)
  case (Suc k)
  show ?case
  proof (cases s)
    case (Cons c cs)
    with Suc.prems Suc.IH [of cs] show ?thesis by auto
  qed simp
qed simp

lemma rx_all_star_Cls:
  "\<exists>ts. rx_all b (rx_star (Cls P)) (s, g) = (dropWhile P s, g) # ts"
  using rep_upto_Cls [of s "length s"] by (auto simp: rx_star_def)

lemma rx_all_plus_Cls:
  "s \<noteq> [] \<Longrightarrow> P (hd s) \<Longrightarrow> \<exists>ts. rx_all b (rx_plus (Cls P)) (s, g) = (dropWhile P s, g) # ts"
  using rep_upto_Cls [of "tl s" "length (tl s)"]
  by (cases s) (auto simp: rx_plus_def)

lemma rx_all_plus_Cls_none:
  "s = [] \<or> \<not> P (hd s) \<Longrightarrow> rx_all b (rx_plus (Cls P)) (s, g) = []"
  by (cases s) (auto simp: rx_plus_def)

lemma rx_search_Bol_short:
  "length s < n \<Longrightarrow> rx_search (Some n) (Seq Bol r) pre s = None"
proof (induction s arbitrary: pre)
  case Nil
  then show ?case by (simp add: rx_search.simps)
next
  case (Cons c cs)
  then show ?case by (subst rx_search.simps) simp
qed

lemma regex_search_Bol:
  "regex_search s (Seq Bol r) =
     (case rx_all (Some (length s)) r (s, Map.empty) of [] \<Rightarrow> None
      | t # _ \<Rightarrow> Some \<lparr>sm_prefix = [], sm_str = take (length s - length (fst t)) s,
           sm_suffix = fst t, sm_caps = snd t, sm_size = Suc (rx_groups r)\<rparr>)"
  unfolding regex_search_def
  by (subst rx_search.simps) (auto simp: rx_search_Bol_short split: list.splits)

lemma take_dropWhile_length: "take (length s - length (dropWhile P s)) s = takeWhile P s"
  by (induction s) (auto simp: Suc_diff_le length_dropWhile_le)

lemma regex_search_Bol_plus_Cls:
  "regex_search s (Seq Bol (rx_plus (Cls P))) =
     (if s = [] \<or> \<not> P (hd s) then None
      else Some \<lparr>sm_prefix = [], sm_str = takeWhile P s, sm_suffix = dropWhile P s,
             sm_caps = Map.empty, sm_size = 1\<rparr>)"
proof (cases "s = [] \<or> \<not> P (hd s)")
  case True
  then show ?thesis
    by (simp add: regex_search_Bol rx_all_plus_Cls_none)
next
  case False
  then obtain ts where "rx_all (Some (length s)) (rx_plus (Cls P)) (s, Map.empty)
      = (dropWhile P s, Map.empty) # ts"
    using rx_all_plus_Cls by blast
  with False show ?thesis
    by (simp add: regex_search_Bol take_dropWhile_length rx_plus_def)
qed

lemma rep_upto_Cls_all:
  "t \<in> set (rep_upto (rx_all b (Cls P)) k (s, g)) \<Longrightarrow>
     \<exists>u. s = u @ fst t \<and> list_all P u"
proof (induction k arbitrary: s)
  case (Suc k)
  show ?case
  proof (cases s)
    case (Cons c cs)
    show ?thesis
    proof (cases "t = (s, g)")
      case False
      with Suc.prems Cons have "P c" and "t \<in> set (rep_upto (rx_all b (Cls P)) k (cs, g))"
        by (auto split: if_splits)
      then obtain u where "cs = u @ fst t" "list_all P u" using Suc.IH by blast
      with \<open>P c\<close> Cons show ?thesis by (intro exI [of _ "c # u"]) simp
    qed simp
  qed (use Suc.prems in simp)
qed simp

lemma regex_match_star_Cls: "regex_match s (rx_star (Cls P)) = list_all P s"
proof
  assume "regex_match s (rx_star (Cls P))"
  then obtain t where "t \<in> set (rep_upto (rx_all (Some (length s)) (Cls P)) (length s) (s, Map.empty))"
      and "fst t = []"
    by (auto simp: regex_match_def rx_star_def list_ex_iff)
  then show "list_all P s" using rep_upto_Cls_all by fastforce
next
  assume "list_all P s"
  then have "dropWhile P s = []" by (simp add: dropWhile_eq_Nil_conv list_all_iff)
  with rx_all_star_Cls [of "Some (length s)" P s Map.empty]
  show "regex_match s (rx_star (Cls P))" by (auto simp: regex_match_def)
qed

subsection \<open>\<open>regex_split\<close>\<close>

text \<open>
  The separator may match the empty string; then the loop without a limit never ends.
\<close>

partial_function (option) regex_split_loop ::
    "rx \<Rightarrow> bool \<Rightarrow> int \<Rightarrow> string \<Rightarrow> string list \<Rightarrow> string list option" where
  "regex_split_loop r limited mx input res =
     (if limited \<and> mx \<le> 1 then Some (res @ [input])
      else (case regex_search input r of
              None \<Rightarrow> Some (res @ [input])
            | Some m \<Rightarrow> regex_split_loop r limited (mx - 1) (sm_suffix m) (res @ [sm_prefix m])))"

declare regex_split_loop.simps [code]

definition regex_split :: "string \<Rightarrow> rx \<Rightarrow> int \<Rightarrow> string list option" where
  "regex_split input r mx = regex_split_loop r (mx > 0) mx input []"

lemma regex_split_loop_limited:
  "nat mx \<le> n \<Longrightarrow> 0 < mx \<Longrightarrow>
     \<exists>xs. regex_split_loop r True mx input res = Some (res @ xs) \<and> xs \<noteq> [] \<and> length xs \<le> nat mx"
proof (induction n arbitrary: mx input res)
  case (Suc n)
  show ?case
  proof (cases "mx \<le> 1 \<or> regex_search input r = None")
    case True
    then have "regex_split_loop r True mx input res = Some (res @ [input])"
      by (subst regex_split_loop.simps) (auto split: option.splits)
    with Suc.prems show ?thesis by (intro exI [of _ "[input]"]) simp
  next
    case False
    then obtain m where m: "regex_search input r = Some m" by blast
    from False Suc.prems have "nat (mx - 1) \<le> n" "0 < mx - 1" by auto
    from Suc.IH [OF this] obtain xs where
      "regex_split_loop r True (mx - 1) (sm_suffix m) (res @ [sm_prefix m])
         = Some ((res @ [sm_prefix m]) @ xs)" "xs \<noteq> []" "length xs \<le> nat (mx - 1)"
      by blast
    with False m show ?thesis
      by (subst regex_split_loop.simps) (auto intro!: exI [of _ "sm_prefix m # xs"])
  qed
qed simp

lemma regex_split_loop_unlimited:
  assumes "\<And>s m. regex_search s r = Some m \<Longrightarrow> sm_str m \<noteq> []"
  shows "length input \<le> n \<Longrightarrow>
     \<exists>xs. regex_split_loop r False mx input res = Some (res @ xs) \<and> xs \<noteq> []"
proof (induction n arbitrary: mx input res)
  case 0
  have "regex_search [] r = None"
  proof (rule ccontr)
    assume "regex_search [] r \<noteq> None"
    then obtain m where "regex_search [] r = Some m" by blast
    with regex_search_parts [OF this] assms show False by simp
  qed
  with 0 show ?case by (subst regex_split_loop.simps) simp
next
  case (Suc n)
  show ?case
  proof (cases "regex_search input r")
    case None
    then show ?thesis by (subst regex_split_loop.simps) simp
  next
    case (Some m)
    from assms [OF Some] have "length (sm_str m) > 0" by simp
    with regex_search_parts [OF Some] have "length (sm_suffix m) < length input"
      by (metis add_less_same_cancel2 length_append less_add_same_cancel2 not_add_less2
          not_less_iff_gr_or_eq trans_less_add2)
    with Suc obtain xs where
      "regex_split_loop r False (mx - 1) (sm_suffix m) (res @ [sm_prefix m])
         = Some ((res @ [sm_prefix m]) @ xs)"
      by (metis less_Suc_eq_le order_less_le_trans)
    with Some show ?thesis
      by (subst regex_split_loop.simps) (auto intro!: exI [of _ "sm_prefix m # xs"])
  qed
qed

subsection \<open>The class \<open>regex_parser\<close>\<close>

record regex_parser =
  rp_iter :: int
  rp_input :: string
  rp_next_input :: string
  rp_match :: smatch

definition parser_new :: "string \<Rightarrow> regex_parser" where
  "parser_new input =
     \<lparr>rp_iter = -1, rp_input = [], rp_next_input = input, rp_match = no_match\<rparr>"

definition parser_set_input :: "string \<Rightarrow> regex_parser \<Rightarrow> regex_parser" where
  "parser_set_input input p = p\<lparr>rp_next_input := input, rp_iter := -1\<rparr>"

definition parser_valid :: "regex_parser \<Rightarrow> bool" where
  "parser_valid p = (0 \<le> rp_iter p \<and> rp_iter p < int (sm_size (rp_match p)))"

definition parser_next :: "rx \<Rightarrow> regex_parser \<Rightarrow> bool \<times> regex_parser" where
  "parser_next r p =
     (if rp_next_input p = [] then (False, p)
      else (let p1 = p\<lparr>rp_input := rp_next_input p\<rparr>
            in case regex_search (rp_input p1) r of
                 Some m \<Rightarrow> (True, p1\<lparr>rp_match := m, rp_iter := 0, rp_next_input := sm_suffix m\<rparr>)
               | None \<Rightarrow> (False, p1\<lparr>rp_match := no_match, rp_iter := -1\<rparr>)))"

definition parser_suffix :: "regex_parser \<Rightarrow> string" where
  "parser_suffix p = sm_suffix (rp_match p)"

text \<open>
  \<open>_match[el].str()\<close>; a group that did not take part in the match is empty.
  \<open>read\<close> leaves the variable alone when there is no such element (\<open>None\<close>).
\<close>

definition smatch_element :: "smatch \<Rightarrow> nat \<Rightarrow> string" where
  "smatch_element m el = (if el = 0 then sm_str m else case sm_caps m el of None \<Rightarrow> [] | Some s \<Rightarrow> s)"

definition parser_read :: "int \<Rightarrow> regex_parser \<Rightarrow> string option" where
  "parser_read el p =
     (if 0 \<le> rp_iter p \<and> 0 \<le> el \<and> el < int (sm_size (rp_match p))
      then Some (smatch_element (rp_match p) (nat el)) else None)"

definition parser_extract :: "regex_parser \<Rightarrow> string option \<times> regex_parser" where
  "parser_extract p =
     (if parser_valid p
      then (let p1 = p\<lparr>rp_iter := rp_iter p + 1\<rparr> in (parser_read (rp_iter p1) p1, p1))
      else (None, p))"

subsection \<open>Numbers from a stream (\<open>istringstream >> val\<close>)\<close>

definition digit_val :: "char \<Rightarrow> int" where
  "digit_val c = of_char c - 48"

definition read_digits :: "string \<Rightarrow> int" where
  "read_digits ds = foldl (\<lambda>n c. 10 * n + digit_val c) 0 ds"

definition istream_number :: "string \<Rightarrow> bool \<times> string" where
  "istream_number s =
     (let t = dropWhile is_space s
      in case t of
           c # cs \<Rightarrow> if c = CHR ''-'' then (True, takeWhile is_digit cs)
                     else if c = CHR ''+'' then (False, takeWhile is_digit cs)
                     else (False, takeWhile is_digit t)
         | [] \<Rightarrow> (False, []))"

text \<open>
  Extraction never leaves the variable unset: no digits give 0, a value out of range the
  nearest bound; for an unsigned type a minus sign negates modulo \<open>2 ^ 32\<close>.
\<close>

definition istream_uint :: "string \<Rightarrow> u32" where
  "istream_uint s =
     (let nd = istream_number s; v = read_digits (snd nd)
      in if v \<ge> 2 ^ 32 then - 1 else if fst nd then - word_of_int v else word_of_int v)"

definition istream_int :: "string \<Rightarrow> int" where
  "istream_int s =
     (let nd = istream_number s; v = (if fst nd then - read_digits (snd nd) else read_digits (snd nd))
      in max (- (2 ^ 31)) (min (2 ^ 31 - 1) v))"

subsection \<open>Reading what was printed\<close>

lemma read_digits_append [simp]:
  "read_digits (xs @ [c]) = 10 * read_digits xs + digit_val c"
  by (simp add: read_digits_def)

lemma of_char_digit_char: "d < 10 \<Longrightarrow> (of_char (digit_char d) :: nat) = 48 + d"
  by (simp add: digit_char_def)

lemma of_char_digit_char_int: "d < 10 \<Longrightarrow> (of_char (digit_char d) :: int) = 48 + int d"
proof -
  assume "d < 10"
  then have "int (of_char (digit_char d)) = 48 + int d" by (simp add: of_char_digit_char)
  then show ?thesis by (simp add: of_nat_of_char)
qed

lemma is_digit_digit_char: "d < 10 \<Longrightarrow> is_digit (digit_char d)"
  by (simp add: is_digit_def code_in_def of_char_digit_char)

lemma digit_val_digit_char: "d < 10 \<Longrightarrow> digit_val (digit_char d) = int d"
  by (simp add: digit_val_def of_char_digit_char_int)

lemma read_digits_show_nat: "read_digits (show_nat n) = int n \<and> list_all is_digit (show_nat n)"
proof (induction n rule: show_nat.induct)
  case (1 n)
  show ?case
  proof (cases "n < 10")
    case True
    then show ?thesis
      by (simp add: show_nat.simps [of n] read_digits_def digit_val_digit_char is_digit_digit_char)
  next
    case False
    with 1 show ?thesis
      by (simp add: show_nat.simps [of n] digit_val_digit_char is_digit_digit_char)
        (simp add: zdiv_int zmod_int)
  qed
qed

lemma digit_not_space: "is_digit c \<Longrightarrow> \<not> is_space c \<and> c \<noteq> CHR ''-'' \<and> c \<noteq> CHR ''+''"
  by (auto simp: is_digit_def is_space_def code_in_def)

lemma istream_number_digits:
  "list_all is_digit ds \<Longrightarrow> istream_number ds = (False, ds)"
  by (cases ds) (auto simp: istream_number_def Let_def digit_not_space list_all_iff
      takeWhile_eq_all_conv)

lemma istream_uint_show_u32: "istream_uint (show_u32 x) = x"
proof -
  have "uint x < 2 ^ LENGTH(32)" by (rule unsigned_less)
  then show ?thesis
    using read_digits_show_nat [of "unat x"]
    by (simp add: istream_uint_def show_u32_def istream_number_digits Let_def)
qed

subsection \<open>Matching in a locale\<close>

text \<open>
  \<open>regex_match_utf8\<close> on the name of the global locale, which nothing calls: \<open>compile\<close> makes a
  pattern of an extended regular expression or throws, \<open>installed\<close> tells which locales there
  are. An exception leaves the new locale in place.
\<close>

definition regex_match_utf8 ::
    "(string \<Rightarrow> rx option) \<Rightarrow> (string \<Rightarrow> bool) \<Rightarrow> string \<Rightarrow> string \<Rightarrow> string \<Rightarrow> (unit + bool) \<times> string" where
  "regex_match_utf8 compile installed input pattern old =
     (if \<not> installed ''en_US.UTF-8'' then (Inl (), old)
      else case compile pattern of
             None \<Rightarrow> (Inl (), ''en_US.UTF-8'')
           | Some rx \<Rightarrow> (Inr (regex_match input rx), old))"

lemma regex_match_utf8_restores: "regex_match_utf8 compile installed input pattern old = (Inr b, new) \<Longrightarrow> new = old"
  by (auto simp: regex_match_utf8_def split: if_splits option.splits)

lemma regex_match_utf8_leaks:
  "installed ''en_US.UTF-8'' \<Longrightarrow> compile pattern = None \<Longrightarrow>
     regex_match_utf8 compile installed input pattern old = (Inl (), ''en_US.UTF-8'')"
  by (simp add: regex_match_utf8_def)

end
