(* ===== verification/Wire.thy ===== *)
theory Wire
  imports Regex
begin

text \<open>
  The wire format: \<open>serialize\<close> and \<open>deserialize\<close> of every packet class, the
  dispatching reader \<open>Packet::read\<close>, the saved form of rooms, and the clean-up of
  incoming message texts. jsoncpp is the parameter \<open>J\<close>; a conversion of it that throws
  ends the whole computation with the exception.
\<close>

subsection \<open>Member access with conversion\<close>

definition get_string :: "'j jsoncpp \<Rightarrow> 'j \<Rightarrow> string \<Rightarrow> exn + string" where
  "get_string J obj k = bindS (j_get J obj k) (j_asString J)"

definition get_int :: "'j jsoncpp \<Rightarrow> 'j \<Rightarrow> string \<Rightarrow> exn + int" where
  "get_int J obj k = bindS (j_get J obj k) (j_asInt J)"

definition get_uint :: "'j jsoncpp \<Rightarrow> 'j \<Rightarrow> string \<Rightarrow> exn + u32" where
  "get_uint J obj k = bindS (j_get J obj k) (j_asUInt J)"

definition get_uint64 :: "'j jsoncpp \<Rightarrow> 'j \<Rightarrow> string \<Rightarrow> exn + int" where
  "get_uint64 J obj k = bindS (j_get J obj k) (j_asUInt64 J)"

definition get_bool :: "'j jsoncpp \<Rightarrow> 'j \<Rightarrow> string \<Rightarrow> exn + bool" where
  "get_bool J obj k = bindS (j_get J obj k) (j_asBool J)"

primrec mapS :: "('a \<Rightarrow> 'e + 'b) \<Rightarrow> 'a list \<Rightarrow> 'e + 'b list" where
  "mapS f [] = Inr []"
| "mapS f (x # xs) = bindS (f x) (\<lambda>y. bindS (mapS f xs) (\<lambda>ys. Inr (y # ys)))"

subsection \<open>Serializing packets\<close>

definition packet_serialize_base :: "'j jsoncpp \<Rightarrow> u32 option \<Rightarrow> 'j" where
  "packet_serialize_base J seq = (case seq of
       None \<Rightarrow> j_null J
     | Some n \<Rightarrow> j_set J (j_null J) ''sequenceId'' (j_of_uint J n))"

definition set_type :: "'j jsoncpp \<Rightarrow> packet_type \<Rightarrow> 'j \<Rightarrow> 'j" where
  "set_type J t obj = j_set J obj ''type'' (j_of_int J (packet_type_code t))"

definition error_serialize :: "'j jsoncpp \<Rightarrow> packet_error \<Rightarrow> 'j" where
  "error_serialize J p =
     (let obj = packet_serialize_base J (pe_sequenceId p);
          obj = set_type J PT_error obj;
          obj = j_set J obj ''source'' (j_of_uint J (word_of_int (packet_type_code (pe_source p))));
          obj = j_set J obj ''target'' (j_of_string J (pe_target p));
          obj = j_set J obj ''code'' (j_of_uint J (error_code_num (pe_code p)))
      in j_set J obj ''info'' (j_of_string J (pe_info p)))"

definition system_serialize :: "'j jsoncpp \<Rightarrow> packet_system \<Rightarrow> 'j" where
  "system_serialize J p =
     (let obj = packet_serialize_base J (ps_sequenceId p);
          obj = set_type J PT_system obj;
          obj = j_set J obj ''message'' (j_of_string J (ps_message p))
      in j_set J obj ''target'' (j_of_string J (ps_target p)))"

definition message_serialize :: "'j jsoncpp \<Rightarrow> packet_message \<Rightarrow> 'j" where
  "message_serialize J p =
     (let obj = packet_serialize_base J (pm_sequenceId p);
          obj = j_set J obj ''id'' (j_of_string J (pm_id p));
          obj = set_type J PT_message obj;
          obj = j_set J obj ''target'' (j_of_string J (pm_target p));
          obj = j_set J obj ''time'' (j_of_uint64 J (pm_msgtime p));
          obj = j_set J obj ''color'' (j_of_string J (pm_color p));
          obj = j_set J obj ''from_login'' (j_of_string J (pm_from_login p));
          obj = j_set J obj ''from'' (j_of_uint J (pm_from_id p));
          obj = j_set J obj ''to'' (j_of_uint J (pm_to_id p));
          obj = j_set J obj ''style'' (j_of_uint J (style_code (pm_style p)))
      in j_set J obj ''message'' (j_of_string J (pm_message p)))"

definition status_serialize :: "'j jsoncpp \<Rightarrow> packet_status \<Rightarrow> 'j" where
  "status_serialize J p =
     (let obj = packet_serialize_base J (pt_sequenceId p);
          obj = set_type J PT_status obj;
          obj = j_set J obj ''target'' (j_of_string J (pt_target p));
          obj = j_set J obj ''name'' (j_of_string J (pt_name p));
          obj = j_set J obj ''status'' (j_of_int J (status_code (pt_status p)));
          obj = j_set J obj ''member_id'' (j_of_uint J (pt_member_id p));
          obj = j_set J obj ''user_id'' (j_of_uint J (pt_user_id p));
          obj = j_set J obj ''girl'' (j_of_bool J (pt_girl p));
          obj = j_set J obj ''color'' (j_of_string J (pt_color p));
          obj = j_set J obj ''data'' (j_of_string J (pt_data p));
          obj = j_set J obj ''is_owner'' (j_of_bool J (pt_is_owner p));
          obj = j_set J obj ''is_moder'' (j_of_bool J (pt_is_moder p))
      in j_set J obj ''last_seen_time'' (j_of_uint64 J (pt_last_seen_time p)))"

definition online_list_serialize :: "'j jsoncpp \<Rightarrow> packet_online_list \<Rightarrow> 'j" where
  "online_list_serialize J p =
     (let obj = packet_serialize_base J (po_sequenceId p);
          obj = set_type J PT_online_list obj;
          obj = j_set J obj ''target'' (j_of_string J (po_target p))
      in j_set J obj ''list'' (j_of_array J (map (status_serialize J) (po_list p))))"

definition auth_serialize :: "'j jsoncpp \<Rightarrow> packet_auth \<Rightarrow> 'j" where
  "auth_serialize J p =
     (let obj = packet_serialize_base J (pa_sequenceId p);
          obj = set_type J PT_auth obj;
          obj = j_set J obj ''user_id'' (j_of_uint J (pa_user_id p));
          obj = j_set J obj ''name'' (j_of_string J (pa_name p))
      in j_set J obj ''token'' (j_of_string J (pa_token p)))"

definition join_serialize :: "'j jsoncpp \<Rightarrow> packet_join \<Rightarrow> 'j" where
  "join_serialize J p =
     (let obj = packet_serialize_base J (pj_sequenceId p);
          obj = set_type J PT_join obj;
          obj = j_set J obj ''target'' (j_of_string J (pj_target p));
          obj = j_set J obj ''member_id'' (j_of_uint J (pj_member_id p))
      in j_set J obj ''login'' (j_of_string J (pj_login p)))"

definition leave_serialize :: "'j jsoncpp \<Rightarrow> packet_leave \<Rightarrow> 'j" where
  "leave_serialize J p =
     j_set J (set_type J PT_leave (packet_serialize_base J (pl_sequenceId p)))
       ''target'' (j_of_string J (pl_target p))"

definition create_room_serialize :: "'j jsoncpp \<Rightarrow> packet_create_room \<Rightarrow> 'j" where
  "create_room_serialize J p =
     j_set J (set_type J PT_create_room (packet_serialize_base J (pc_sequenceId p)))
       ''target'' (j_of_string J (pc_target p))"

definition remove_room_serialize :: "'j jsoncpp \<Rightarrow> packet_remove_room \<Rightarrow> 'j" where
  "remove_room_serialize J p =
     j_set J (set_type J PT_remove_room (packet_serialize_base J (pr_sequenceId p)))
       ''target'' (j_of_string J (pr_target p))"

definition ping_serialize :: "'j jsoncpp \<Rightarrow> u32 option \<Rightarrow> 'j" where
  "ping_serialize J seq = set_type J PT_ping (packet_serialize_base J seq)"

primrec packet_serialize :: "'j jsoncpp \<Rightarrow> packet \<Rightarrow> 'j" where
  "packet_serialize J (Packet_Error p) = error_serialize J p"
| "packet_serialize J (Packet_System p) = system_serialize J p"
| "packet_serialize J (Packet_Message p) = message_serialize J p"
| "packet_serialize J (Packet_OnlineList p) = online_list_serialize J p"
| "packet_serialize J (Packet_Auth p) = auth_serialize J p"
| "packet_serialize J (Packet_Status p) = status_serialize J p"
| "packet_serialize J (Packet_Join p) = join_serialize J p"
| "packet_serialize J (Packet_Leave p) = leave_serialize J p"
| "packet_serialize J (Packet_CreateRoom p) = create_room_serialize J p"
| "packet_serialize J (Packet_RemoveRoom p) = remove_room_serialize J p"
| "packet_serialize J (Packet_Ping q) = ping_serialize J q"

text \<open>\<open>FastWriter().write(pack.serialize())\<close>, the text that goes to a socket.\<close>

definition wire :: "('j, 'x) env \<Rightarrow> packet \<Rightarrow> string" where
  "wire E p = j_write (e_json E) (packet_serialize (e_json E) p)"

subsection \<open>Cleaning up message texts\<close>

text \<open>
  \<open>e_find_invalid\<close> stands for \<open>utf8::find_invalid\<close>: the offset of the first invalid
  sequence, or the length of the text.
\<close>

function replaceInvalidUtf8 :: "(string \<Rightarrow> nat) \<Rightarrow> char \<Rightarrow> string \<Rightarrow> string" where
  "replaceInvalidUtf8 find_invalid c s =
     (if s = [] then []
      else if length s \<le> find_invalid s then s
      else take (find_invalid s) s @ c #
             replaceInvalidUtf8 find_invalid c (drop (Suc (find_invalid s)) s))"
  by pat_completeness auto
termination
  by (relation "measure (\<lambda>(f, c, s). length s)") auto

declare replaceInvalidUtf8.simps [simp del]

definition rx_newlines :: rx where
  "rx_newlines = Rep (rx_char (CHR 0x0A)) 3 None"

definition max_message_size :: nat where
  "max_message_size = 30 * 1024"

definition clean_message :: "('j, 'x) env \<Rightarrow> string \<Rightarrow> string" where
  "clean_message E msg =
     (let msg = regex_replace msg rx_newlines (newline @ newline @ newline);
          msg = (if length msg > max_message_size then take max_message_size msg else msg)
      in replaceInvalidUtf8 (e_find_invalid E) CHR '' '' msg)"

subsection \<open>New packets\<close>

text \<open>
  What the constructors without arguments leave. \<open>PacketError()\<close> leaves \<open>source\<close> and
  \<open>code\<close> unset; nothing reads them, and the values here stand for whatever they are.
\<close>

definition packet_error_new :: packet_error where
  "packet_error_new = \<lparr>pe_sequenceId = None, pe_source = PT_error, pe_target = [], pe_code = EC_unknown, pe_info = []\<rparr>"

definition packet_system_new :: packet_system where
  "packet_system_new = \<lparr>ps_sequenceId = None, ps_target = [], ps_message = []\<rparr>"

definition packet_message_new :: packet_message where
  "packet_message_new = \<lparr>pm_sequenceId = None, pm_id = [], pm_msgtime = 0, pm_target = [], pm_message = [],
     pm_color = [], pm_from_login = [], pm_from_id = 0, pm_to_id = 0, pm_style = Sty_message\<rparr>"

definition packet_online_list_new :: packet_online_list where
  "packet_online_list_new = \<lparr>po_sequenceId = None, po_target = [], po_list = []\<rparr>"

definition packet_auth_new :: packet_auth where
  "packet_auth_new = \<lparr>pa_sequenceId = None, pa_ukey = [], pa_api_key = [], pa_user_id = 0, pa_name = [],
     pa_password = [], pa_token = []\<rparr>"

definition packet_status_new :: packet_status where
  "packet_status_new = \<lparr>pt_sequenceId = None, pt_target = [], pt_status = St_bad, pt_member_id = 0,
     pt_user_id = 0, pt_girl = False, pt_color = [], pt_name = [], pt_data = [], pt_is_owner = False,
     pt_is_moder = False, pt_last_seen_time = 0\<rparr>"

definition packet_join_new :: packet_join where
  "packet_join_new = \<lparr>pj_sequenceId = None, pj_target = [], pj_member_id = 0, pj_login = [],
     pj_auto_login = True, pj_load_history = True\<rparr>"

definition packet_leave_new :: packet_leave where
  "packet_leave_new = \<lparr>pl_sequenceId = None, pl_target = []\<rparr>"

definition packet_create_room_new :: packet_create_room where
  "packet_create_room_new = \<lparr>pc_sequenceId = None, pc_target = []\<rparr>"

definition packet_remove_room_new :: packet_remove_room where
  "packet_remove_room_new = \<lparr>pr_sequenceId = None, pr_target = []\<rparr>"

lemmas packet_new_defs [simp] = packet_error_new_def packet_system_new_def packet_message_new_def
  packet_online_list_new_def packet_auth_new_def packet_status_new_def packet_join_new_def
  packet_leave_new_def packet_create_room_new_def packet_remove_room_new_def

subsection \<open>Reading packets\<close>

text \<open>\<open>deserialize\<close> sets the fields of a packet that its constructor has made.\<close>

definition packet_deserialize_base :: "'j jsoncpp \<Rightarrow> 'j \<Rightarrow> exn + u32 option" where
  "packet_deserialize_base J obj =
     (if j_isMember J obj ''sequenceId''
      then bindS (get_uint J obj ''sequenceId'') (\<lambda>n. Inr (Some n)) else Inr None)"

definition message_deserialize :: "('j, 'x) env \<Rightarrow> 'j \<Rightarrow> exn + packet_message" where
  "message_deserialize E obj =
     bindS (packet_deserialize_base (e_json E) obj) (\<lambda>seq.
     bindS (get_string (e_json E) obj ''message'') (\<lambda>msg.
     bindS (get_string (e_json E) obj ''target'') (\<lambda>targ.
     bindS (get_uint (e_json E) obj ''to'') (\<lambda>to.
     bindS (get_uint64 (e_json E) obj ''time'') (\<lambda>tm.
       Inr (packet_message_new\<lparr>pm_sequenceId := seq, pm_message := clean_message E msg,
              pm_target := targ, pm_to_id := to, pm_msgtime := tm\<rparr>))))))"

definition online_list_deserialize :: "'j jsoncpp \<Rightarrow> 'j \<Rightarrow> exn + packet_online_list" where
  "online_list_deserialize J obj =
     bindS (get_string J obj ''target'') (\<lambda>targ.
       Inr (packet_online_list_new\<lparr>po_target := targ\<rparr>))"

definition auth_deserialize :: "'j jsoncpp \<Rightarrow> 'j \<Rightarrow> exn + packet_auth" where
  "auth_deserialize J obj =
     bindS (packet_deserialize_base J obj) (\<lambda>seq.
     bindS (get_string J obj ''ukey'') (\<lambda>ukey.
     bindS (get_string J obj ''api_key'') (\<lambda>api_key.
     bindS (get_string J obj ''login'') (\<lambda>login.
     bindS (get_string J obj ''password'') (\<lambda>password.
     bindS (get_string J obj ''token'') (\<lambda>token.
       Inr (packet_auth_new\<lparr>pa_sequenceId := seq, pa_ukey := ukey, pa_api_key := api_key,
              pa_name := login, pa_password := password, pa_token := token\<rparr>)))))))"

definition status_deserialize :: "'j jsoncpp \<Rightarrow> 'j \<Rightarrow> exn + packet_status" where
  "status_deserialize J obj =
     bindS (packet_deserialize_base J obj) (\<lambda>seq.
     bindS (get_string J obj ''target'') (\<lambda>targ.
     bindS (get_int J obj ''status'') (\<lambda>st.
       Inr (packet_status_new\<lparr>pt_sequenceId := seq, pt_target := targ,
              pt_status := status_of_int st\<rparr>))))"

definition join_deserialize :: "'j jsoncpp \<Rightarrow> 'j \<Rightarrow> exn + packet_join" where
  "join_deserialize J obj =
     bindS (packet_deserialize_base J obj) (\<lambda>seq.
     bindS (get_string J obj ''target'') (\<lambda>targ.
     bindS (get_bool J obj ''auto_login'') (\<lambda>al.
     bindS (get_bool J obj ''load_history'') (\<lambda>lh.
       Inr (packet_join_new\<lparr>pj_sequenceId := seq, pj_target := targ, pj_auto_login := al,
              pj_load_history := lh\<rparr>)))))"

definition leave_deserialize :: "'j jsoncpp \<Rightarrow> 'j \<Rightarrow> exn + packet_leave" where
  "leave_deserialize J obj =
     bindS (packet_deserialize_base J obj) (\<lambda>seq.
     bindS (get_string J obj ''target'') (\<lambda>targ.
       Inr (packet_leave_new\<lparr>pl_sequenceId := seq, pl_target := targ\<rparr>)))"

definition create_room_deserialize :: "'j jsoncpp \<Rightarrow> 'j \<Rightarrow> exn + packet_create_room" where
  "create_room_deserialize J obj =
     bindS (packet_deserialize_base J obj) (\<lambda>seq.
     bindS (get_string J obj ''target'') (\<lambda>targ.
       Inr (packet_create_room_new\<lparr>pc_sequenceId := seq, pc_target := targ\<rparr>)))"

definition remove_room_deserialize :: "'j jsoncpp \<Rightarrow> 'j \<Rightarrow> exn + packet_remove_room" where
  "remove_room_deserialize J obj =
     bindS (packet_deserialize_base J obj) (\<lambda>seq.
     bindS (get_string J obj ''target'') (\<lambda>targ.
       Inr (packet_remove_room_new\<lparr>pr_sequenceId := seq, pr_target := targ\<rparr>)))"

text \<open>
  Error, system and ping packets read only the sequence id; their other fields keep what
  the constructor left, which nothing reads because \<open>process\<close> does nothing for them.
\<close>

primrec packet_deserialize :: "('j, 'x) env \<Rightarrow> packet_type \<Rightarrow> 'j \<Rightarrow> exn + packet" where
  "packet_deserialize E PT_error obj =
     bindS (packet_deserialize_base (e_json E) obj) (\<lambda>seq.
       Inr (Packet_Error (packet_error_new\<lparr>pe_sequenceId := seq\<rparr>)))"
| "packet_deserialize E PT_system obj =
     bindS (packet_deserialize_base (e_json E) obj) (\<lambda>seq.
       Inr (Packet_System (packet_system_new\<lparr>ps_sequenceId := seq\<rparr>)))"
| "packet_deserialize E PT_message obj =
     bindS (message_deserialize E obj) (\<lambda>p. Inr (Packet_Message p))"
| "packet_deserialize E PT_online_list obj =
     bindS (online_list_deserialize (e_json E) obj) (\<lambda>p. Inr (Packet_OnlineList p))"
| "packet_deserialize E PT_auth obj =
     bindS (auth_deserialize (e_json E) obj) (\<lambda>p. Inr (Packet_Auth p))"
| "packet_deserialize E PT_status obj =
     bindS (status_deserialize (e_json E) obj) (\<lambda>p. Inr (Packet_Status p))"
| "packet_deserialize E PT_join obj =
     bindS (join_deserialize (e_json E) obj) (\<lambda>p. Inr (Packet_Join p))"
| "packet_deserialize E PT_leave obj =
     bindS (leave_deserialize (e_json E) obj) (\<lambda>p. Inr (Packet_Leave p))"
| "packet_deserialize E PT_create_room obj =
     bindS (create_room_deserialize (e_json E) obj) (\<lambda>p. Inr (Packet_CreateRoom p))"
| "packet_deserialize E PT_remove_room obj =
     bindS (remove_room_deserialize (e_json E) obj) (\<lambda>p. Inr (Packet_RemoveRoom p))"
| "packet_deserialize E PT_ping obj =
     bindS (packet_deserialize_base (e_json E) obj) (\<lambda>seq. Inr (Packet_Ping seq))"

definition packet_types :: "packet_type list" where
  "packet_types = [PT_error, PT_system, PT_message, PT_online_list, PT_auth, PT_status, PT_join,
     PT_leave, PT_create_room, PT_remove_room, PT_ping]"

definition packet_type_of_int :: "int \<Rightarrow> packet_type option" where
  "packet_type_of_int i = find (\<lambda>t. packet_type_code t = i) packet_types"

text \<open>
  \<open>Packet::read\<close>: no packet for a text that is not JSON, for an unknown type, and when
  the packet's own reader throws \<open>std::out_of_range\<close>; every other exception leaves.
\<close>

definition packet_read :: "('j, 'x) env \<Rightarrow> string \<Rightarrow> exn + packet option" where
  "packet_read E data =
     (case j_parse (e_json E) data of
        None \<Rightarrow> Inr None
      | Some obj \<Rightarrow> bindS (get_int (e_json E) obj ''type'') (\<lambda>t.
          case packet_type_of_int t of
            None \<Rightarrow> Inr None
          | Some ty \<Rightarrow> (case packet_deserialize E ty obj of
                Inr p \<Rightarrow> Inr (Some p)
              | Inl e \<Rightarrow> if e = Out_of_range then Inr None else Inl e)))"

subsection \<open>Saved rooms\<close>

definition member_info_serialize :: "'j jsoncpp \<Rightarrow> member_info \<Rightarrow> 'j" where
  "member_info_serialize J mi =
     (let v = j_object J;
          v = j_set J v ''user_id'' (j_of_uint J (mi_user_id mi));
          v = j_set J v ''nick'' (j_of_string J (mi_nick mi));
          v = j_set J v ''girl'' (j_of_bool J (mi_girl mi))
      in j_set J v ''color'' (j_of_string J (mi_color mi)))"

text \<open>\<open>MemberInfo()\<close>, which leaves \<open>girl\<close> unset; both users set it.\<close>

definition member_info_new :: member_info where
  "member_info_new = \<lparr>mi_user_id = 0, mi_nick = [], mi_girl = False, mi_color = []\<rparr>"

definition member_info_deserialize :: "'j jsoncpp \<Rightarrow> 'j \<Rightarrow> exn + member_info" where
  "member_info_deserialize J val =
     bindS (get_uint J val ''user_id'') (\<lambda>uid.
     bindS (get_string J val ''nick'') (\<lambda>nick.
     bindS (get_bool J val ''girl'') (\<lambda>girl.
     bindS (get_string J val ''color'') (\<lambda>color.
       Inr (member_info_new\<lparr>mi_user_id := uid, mi_nick := nick, mi_girl := girl, mi_color := color\<rparr>)))))"

declare member_info_new_def [simp]

definition room_serialize :: "'j jsoncpp \<Rightarrow> room \<Rightarrow> 'j" where
  "room_serialize J r =
     (let val = j_null J;
          val = j_set J val ''owner_id'' (j_of_uint J (r_ownerId r));
          val = j_set J val ''name'' (j_of_string J (r_name r));
          val = j_set J val ''nextMessageId'' (j_of_uint J (r_nextMessageId r));
          val = j_set J val ''history'' (j_of_array J (map (j_of_string J) (r_history r)));
          val = j_set J val ''members_info''
                  (j_of_array J (map (\<lambda>p. member_info_serialize J (snd p)) (r_membersInfo r)));
          val = j_set J val ''bannedNicks'' (j_of_array J (map (j_of_string J) (r_bannedNicks r)));
          val = j_set J val ''bannedIps'' (j_of_array J (map (j_of_string J) (r_bannedIps r)));
          val = j_set J val ''bannedUids'' (j_of_array J (map (j_of_uint J) (r_bannedUids r)))
      in j_set J val ''moderators'' (j_of_array J (map (j_of_uint J) (r_moderators r))))"

definition get_list :: "'j jsoncpp \<Rightarrow> ('j \<Rightarrow> exn + 'a) \<Rightarrow> 'j \<Rightarrow> string \<Rightarrow> exn + 'a list" where
  "get_list J conv val k = bindS (j_get J val k) (\<lambda>a. mapS conv (j_elements J a))"

text \<open>
  \<open>deserialize\<close> fills a room made by the constructor: \<open>members\<close> and
  \<open>nextMemberId\<close> are not touched.
\<close>

definition room_deserialize :: "'j jsoncpp \<Rightarrow> 'j \<Rightarrow> room \<Rightarrow> exn + room" where
  "room_deserialize J val r =
     bindS (get_uint J val ''owner_id'') (\<lambda>owner.
     bindS (get_string J val ''name'') (\<lambda>nm.
     bindS (get_uint J val ''nextMessageId'') (\<lambda>nmid.
     bindS (get_list J (j_asString J) val ''history'') (\<lambda>hist.
     bindS (get_list J (member_info_deserialize J) val ''members_info'') (\<lambda>infos.
     bindS (get_list J (j_asString J) val ''bannedNicks'') (\<lambda>nicks.
     bindS (get_list J (j_asString J) val ''bannedIps'') (\<lambda>ips.
     bindS (get_list J (j_asUInt J) val ''bannedUids'') (\<lambda>uids.
     bindS (get_list J (j_asUInt J) val ''moderators'') (\<lambda>mods.
       Inr (r\<lparr>r_ownerId := owner, r_name := nm, r_nextMessageId := nmid, r_history := hist,
             r_membersInfo := fold (\<lambda>i. AList.update (mi_user_id i) i) infos [],
             r_bannedNicks := fold uset_insert nicks [],
             r_bannedIps := fold uset_insert ips [],
             r_bannedUids := fold uset_insert uids [],
             r_moderators := fold uset_insert mods []\<rparr>))))))))))"

end
