(* ===== verification/Sending.thy ===== *)
theory Sending
  imports Wire
begin

text \<open>
  How anything reaches a socket: \<open>Server::sendPacket\<close>, \<open>Server::sendRawData\<close>,
  \<open>Server::closeConnection\<close>, and \<open>Client::sendPacket\<close>, \<open>Client::sendRawData\<close>,
  which drop what is sent to a client without a connection; and the small accessors of
  \<open>Client\<close>. Sending never changes the linked structure.
\<close>

definition getRealClientIp :: "('j, 'x) env \<Rightarrow> conn \<Rightarrow> string" where
  "getRealClientIp E cn = (case e_header E cn ''X-Real-IP'' of
       Some ip \<Rightarrow> ip | None \<Rightarrow> e_remote_ip E cn)"

definition server_sendRawData :: "conn \<Rightarrow> string \<Rightarrow> 'x world \<Rightarrow> 'x world" where
  "server_sendRawData cn rdata w = emit (Send cn rdata) w"

definition server_sendPacket :: "('j, 'x) env \<Rightarrow> conn \<Rightarrow> packet \<Rightarrow> 'x world \<Rightarrow> 'x world" where
  "server_sendPacket E cn pack w = emit (Send cn (wire E pack)) w"

definition closeConnection :: "conn \<Rightarrow> 'x world \<Rightarrow> 'x world" where
  "closeConnection cn w = emit (Send_close cn) w"

definition client_sendPacket ::
    "('j, 'x) env \<Rightarrow> client_ptr \<Rightarrow> packet \<Rightarrow> 'x world \<Rightarrow> 'x world" where
  "client_sendPacket E c pack w = (case c_connection (w_client w c) of
       None \<Rightarrow> w | Some cn \<Rightarrow> server_sendPacket E cn pack w)"

definition client_sendRawData :: "client_ptr \<Rightarrow> string \<Rightarrow> 'x world \<Rightarrow> 'x world" where
  "client_sendRawData c rdata w = (case c_connection (w_client w c) of
       None \<Rightarrow> w | Some cn \<Rightarrow> server_sendRawData cn rdata w)"

definition client_isAdmin :: "client \<Rightarrow> bool" where
  "client_isAdmin c = (c_uid c = 1 \<or> c_uid c = 2)"

definition client_isGuest :: "client \<Rightarrow> bool" where
  "client_isGuest c = (c_uid c \<le> 0)"

lemma client_isGuest_iff: "client_isGuest c \<longleftrightarrow> c_uid c = 0"
  by (simp add: client_isGuest_def)

definition client_new :: "string \<Rightarrow> time \<Rightarrow> client" where
  "client_new tok now =
     \<lparr>c_connection = None, c_rooms = [], c_name = [], c_uid = 0, c_isGirl = False,
      c_color = ''gray'', c_lastClientIP = [], c_token = tok, c_lastPacketTime = now,
      c_lastMessageTime = now, c_messageCounter = 0\<rparr>"

definition client_setConnection ::
    "('j, 'x) env \<Rightarrow> client_ptr \<Rightarrow> conn option \<Rightarrow> 'x world \<Rightarrow> 'x world" where
  "client_setConnection E c cn w = upd_client c (\<lambda>cl.
     (let cl = cl\<lparr>c_connection := cn\<rparr>
      in case cn of None \<Rightarrow> cl | Some x \<Rightarrow> cl\<lparr>c_lastClientIP := getRealClientIp E x\<rparr>)) w"

text \<open>Packets with the constructors the code uses.\<close>

definition sys_packet :: "string \<Rightarrow> string \<Rightarrow> packet" where
  "sys_packet targ msg =
     Packet_System (packet_system_new\<lparr>ps_target := targ, ps_message := msg\<rparr>)"

definition err_packet ::
    "packet_type \<Rightarrow> u32 option \<Rightarrow> string \<Rightarrow> error_code \<Rightarrow> string \<Rightarrow> packet" where
  "err_packet src seq targ cod txt =
     Packet_Error \<lparr>pe_sequenceId = seq, pe_source = src, pe_target = targ, pe_code = cod,
       pe_info = txt\<rparr>"

definition leave_packet :: "string \<Rightarrow> packet" where
  "leave_packet targ = Packet_Leave (packet_leave_new\<lparr>pl_target := targ\<rparr>)"

text \<open>The constructors a client of the protocol would use.\<close>

definition make_room :: "string \<Rightarrow> packet_create_room" where
  "make_room targ = packet_create_room_new\<lparr>pc_target := targ\<rparr>"

definition drop_room :: "string \<Rightarrow> packet_remove_room" where
  "drop_room targ = packet_remove_room_new\<lparr>pr_target := targ\<rparr>"

subsection \<open>Everything but the sent list and the linked structure\<close>

text \<open>
  Two worlds are \<open>quiet\<close>-equal when they differ in nothing but what was sent.
\<close>

definition quiet :: "'x world \<Rightarrow> 'x world" where
  "quiet w = w\<lparr>w_out := []\<rparr>"

lemma quiet_emit [simp]: "quiet (emit out w) = quiet w"
  by (simp add: quiet_def emit_def)

lemma quiet_client_sendPacket [simp]: "quiet (client_sendPacket E c p w) = quiet w"
  by (simp add: client_sendPacket_def server_sendPacket_def split: option.split)

lemma quiet_client_sendRawData [simp]: "quiet (client_sendRawData c d w) = quiet w"
  by (simp add: client_sendRawData_def server_sendRawData_def split: option.split)

lemma quiet_closeConnection [simp]: "quiet (closeConnection cn w) = quiet w"
  by (simp add: closeConnection_def)

lemma quiet_eqD:
  assumes "quiet w' = quiet w"
  shows "w_client w' = w_client w" and "w_member w' = w_member w" and "w_room w' = w_room w"
    and "w_rooms w' = w_rooms w" and "w_clients w' = w_clients w" and "w_now w' = w_now w"
    and "w_ext w' = w_ext w" and "w_nextMember w' = w_nextMember w"
    and "w_nextRoom w' = w_nextRoom w" and "w_nextClient w' = w_nextClient w"
    and "w_connectionToClient w' = w_connectionToClient w"
    and "w_tokenToClient w' = w_tokenToClient w"
    and "w_countersFromIp w' = w_countersFromIp w" and "w_random w' = w_random w"
  using assms by (cases w; cases w'; simp add: quiet_def)+

lemma client_sendPacket_sel [simp]:
  "w_client (client_sendPacket E c p w) = w_client w"
  "w_member (client_sendPacket E c p w) = w_member w"
  "w_room (client_sendPacket E c p w) = w_room w"
  "w_rooms (client_sendPacket E c p w) = w_rooms w"
  "w_clients (client_sendPacket E c p w) = w_clients w"
  "w_now (client_sendPacket E c p w) = w_now w"
  "w_ext (client_sendPacket E c p w) = w_ext w"
  "w_nextMember (client_sendPacket E c p w) = w_nextMember w"
  "w_nextRoom (client_sendPacket E c p w) = w_nextRoom w"
  "w_nextClient (client_sendPacket E c p w) = w_nextClient w"
  "w_connectionToClient (client_sendPacket E c p w) = w_connectionToClient w"
  "w_tokenToClient (client_sendPacket E c p w) = w_tokenToClient w"
  "w_countersFromIp (client_sendPacket E c p w) = w_countersFromIp w"
  using quiet_eqD [OF quiet_client_sendPacket, of E c p w] by simp_all

lemma client_sendRawData_sel [simp]:
  "w_client (client_sendRawData c d w) = w_client w"
  "w_member (client_sendRawData c d w) = w_member w"
  "w_room (client_sendRawData c d w) = w_room w"
  "w_rooms (client_sendRawData c d w) = w_rooms w"
  "w_clients (client_sendRawData c d w) = w_clients w"
  "w_now (client_sendRawData c d w) = w_now w"
  "w_ext (client_sendRawData c d w) = w_ext w"
  "w_nextRoom (client_sendRawData c d w) = w_nextRoom w"
  using quiet_eqD [OF quiet_client_sendRawData, of c d w] by simp_all

lemma closeConnection_sel [simp]:
  "w_client (closeConnection cn w) = w_client w"
  "w_member (closeConnection cn w) = w_member w"
  "w_room (closeConnection cn w) = w_room w"
  "w_rooms (closeConnection cn w) = w_rooms w"
  "w_clients (closeConnection cn w) = w_clients w"
  "w_now (closeConnection cn w) = w_now w"
  "w_ext (closeConnection cn w) = w_ext w"
  "w_connectionToClient (closeConnection cn w) = w_connectionToClient w"
  "w_tokenToClient (closeConnection cn w) = w_tokenToClient w"
  "w_countersFromIp (closeConnection cn w) = w_countersFromIp w"
  "w_out (closeConnection cn w) = w_out w @ [Send_close cn]"
  "w_nextRoom (closeConnection cn w) = w_nextRoom w"
  by (simp_all add: closeConnection_def)

lemma view_quiet:
  assumes "quiet w' = quiet w"
  shows "view w' = view w"
  by (simp add: view_def quiet_eqD [OF assms])

lemma view_client_sendPacket [view_simps]: "view (client_sendPacket E c p w) = view w"
  by (rule view_quiet) simp

lemma view_client_sendRawData [view_simps]: "view (client_sendRawData c d w) = view w"
  by (rule view_quiet) simp

lemma view_closeConnection [view_simps]: "view (closeConnection cn w) = view w"
  by (rule view_quiet) simp

text \<open>What one client is sent.\<close>

definition delivery :: "'x world \<Rightarrow> client_ptr \<Rightarrow> string \<Rightarrow> sent list" where
  "delivery w c d = (case c_connection (w_client w c) of None \<Rightarrow> [] | Some cn \<Rightarrow> [Send cn d])"

lemma w_out_client_sendPacket [simp]:
  "w_out (client_sendPacket E c p w) = w_out w @ delivery w c (wire E p)"
  by (simp add: client_sendPacket_def server_sendPacket_def delivery_def split: option.split)

lemma w_out_client_sendRawData [simp]:
  "w_out (client_sendRawData c d w) = w_out w @ delivery w c d"
  by (simp add: client_sendRawData_def server_sendRawData_def delivery_def split: option.split)

lemma delivery_cong: "w_client w' = w_client w \<Longrightarrow> delivery w' c d = delivery w c d"
  by (simp add: delivery_def)

end
