(* ===== verification/Rooms.thy ===== *)
theory Rooms
  imports Sending
begin

text \<open>
  \<open>rooms.cpp\<close> and \<open>rooms.hpp\<close>: members and rooms. A room keeps its members, the
  stored infos of members who left, the three ban lists, the moderators and the bounded
  history; a member ties one client to one room and carries nick, status and id.
\<close>

subsection \<open>Rights of a member\<close>

definition member_isAdmin :: "'x world \<Rightarrow> member_ptr \<Rightarrow> bool" where
  "member_isAdmin w m = client_isAdmin (w_client w (m_client (w_member w m)))"

definition room_isModerator :: "u32 \<Rightarrow> room \<Rightarrow> bool" where
  "room_isModerator uid r = (uid \<in> set (r_moderators r))"

definition member_isOwner :: "'x world \<Rightarrow> member_ptr \<Rightarrow> bool" where
  "member_isOwner w m =
     (let cl = w_client w (m_client (w_member w m)); r = w_room w (m_room (w_member w m))
      in client_isAdmin cl \<or> (c_uid cl \<noteq> 0 \<and> c_uid cl = r_ownerId r))"

definition member_isModer :: "'x world \<Rightarrow> member_ptr \<Rightarrow> bool" where
  "member_isModer w m =
     (let cl = w_client w (m_client (w_member w m)); r = w_room w (m_room (w_member w m))
      in member_isOwner w m \<or> (c_uid cl \<noteq> 0 \<and> room_isModerator (c_uid cl) r))"

definition member_hasNick :: "'x world \<Rightarrow> member_ptr \<Rightarrow> bool" where
  "member_hasNick w m = (m_nick (w_member w m) \<noteq> [])"

definition member_sendPacket ::
    "('j, 'x) env \<Rightarrow> member_ptr \<Rightarrow> packet \<Rightarrow> 'x world \<Rightarrow> 'x world" where
  "member_sendPacket E m pack w = client_sendPacket E (m_client (w_member w m)) pack w"

definition member_setStatus :: "member_ptr \<Rightarrow> status \<Rightarrow> 'x world \<Rightarrow> 'x world" where
  "member_setStatus m stat w = upd_member m (\<lambda>mb.
     (let mb1 = (if stat \<noteq> m_status mb \<and> m_status mb = St_away
                 then mb\<lparr>m_lastSeenTime := w_now w\<rparr> else mb)
      in mb1\<lparr>m_status := stat\<rparr>)) w"

definition member_setGirl :: "member_ptr \<Rightarrow> bool \<Rightarrow> 'x world \<Rightarrow> 'x world" where
  "member_setGirl m g w = upd_member m (\<lambda>mb. mb\<lparr>m_girl := g\<rparr>) w"

definition member_setColor :: "member_ptr \<Rightarrow> string \<Rightarrow> 'x world \<Rightarrow> 'x world" where
  "member_setColor m clr w = upd_member m (\<lambda>mb. mb\<lparr>m_color := clr\<rparr>) w"

definition member_new :: "room_ptr \<Rightarrow> client_ptr \<Rightarrow> time \<Rightarrow> member" where
  "member_new r c now =
     \<lparr>m_id = 0, m_client = c, m_room = r, m_nick = [], m_status = St_bad, m_girl = False,
      m_color = ''gray'', m_lastSeenTime = now\<rparr>"

subsection \<open>Packets about members\<close>

definition status_packet ::
    "'x world \<Rightarrow> member_ptr \<Rightarrow> status \<Rightarrow> string \<Rightarrow> packet_status" where
  "status_packet w m stat dt =
     (let mb = w_member w m
      in packet_status_new\<lparr>pt_target := r_name (w_room w (m_room mb)), pt_name := m_nick mb,
           pt_member_id := m_id mb, pt_user_id := c_uid (w_client w (m_client mb)),
           pt_girl := m_girl mb, pt_color := m_color mb, pt_status := stat, pt_data := dt,
           pt_is_owner := member_isOwner w m,
           pt_is_moder := (if \<not> member_isOwner w m then member_isModer w m else True),
           pt_last_seen_time := m_lastSeenTime mb\<rparr>)"

text \<open>\<open>PacketStatus(member, dt)\<close>.\<close>

definition current_status_packet :: "'x world \<Rightarrow> member_ptr \<Rightarrow> string \<Rightarrow> packet_status" where
  "current_status_packet w m dt = status_packet w m (m_status (w_member w m)) dt"

declare current_status_packet_def [simp]

definition message_packet :: "'x world \<Rightarrow> member_ptr \<Rightarrow> string \<Rightarrow> packet_message" where
  "message_packet w m msg =
     (let mb = w_member w m
      in packet_message_new\<lparr>pm_target := r_name (w_room w (m_room mb)), pm_from_login := m_nick mb,
           pm_from_id := m_id mb, pm_color := m_color mb, pm_to_id := 0, pm_message := msg,
           pm_msgtime := w_now w\<rparr>)"

definition private_packet ::
    "'x world \<Rightarrow> member_ptr \<Rightarrow> member_ptr \<Rightarrow> string \<Rightarrow> packet_message" where
  "private_packet w from to msg = (message_packet w from msg)\<lparr>pm_to_id := m_id (w_member w to)\<rparr>"

definition join_packet :: "'x world \<Rightarrow> member_ptr \<Rightarrow> u32 option \<Rightarrow> packet" where
  "join_packet w m seq =
     (let mb = w_member w m
      in Packet_Join (packet_join_new\<lparr>pj_sequenceId := seq,
           pj_target := r_name (w_room w (m_room mb)), pj_member_id := m_id mb,
           pj_login := m_nick mb\<rparr>))"

definition online_list_packet :: "'x world \<Rightarrow> room_ptr \<Rightarrow> u32 option \<Rightarrow> packet" where
  "online_list_packet w r seq = Packet_OnlineList
     (packet_online_list_new\<lparr>po_sequenceId := seq, po_target := r_name (w_room w r),
      po_list := map (\<lambda>m. current_status_packet w m [])
        (filter (\<lambda>m. m_nick (w_member w m) \<noteq> []) (r_members (w_room w r)))\<rparr>)"

subsection \<open>Bans, moderators, message numbers\<close>

definition room_isBannedNick :: "string \<Rightarrow> room \<Rightarrow> bool" where
  "room_isBannedNick nick r = (nick \<in> set (r_bannedNicks r))"

definition room_isBannedIp :: "string \<Rightarrow> room \<Rightarrow> bool" where
  "room_isBannedIp ip r = (ip \<in> set (r_bannedIps r))"

definition room_isBannedUid :: "u32 \<Rightarrow> room \<Rightarrow> bool" where
  "room_isBannedUid uid r = (uid \<in> set (r_bannedUids r))"

definition room_banNick :: "string \<Rightarrow> room \<Rightarrow> bool \<times> room" where
  "room_banNick nick r =
     (nick \<notin> set (r_bannedNicks r), r\<lparr>r_bannedNicks := uset_insert nick (r_bannedNicks r)\<rparr>)"

definition room_banIp :: "string \<Rightarrow> room \<Rightarrow> bool \<times> room" where
  "room_banIp ip r =
     (ip \<notin> set (r_bannedIps r), r\<lparr>r_bannedIps := uset_insert ip (r_bannedIps r)\<rparr>)"

definition room_banUid :: "u32 \<Rightarrow> room \<Rightarrow> bool \<times> room" where
  "room_banUid uid r =
     (uid \<notin> set (r_bannedUids r), r\<lparr>r_bannedUids := uset_insert uid (r_bannedUids r)\<rparr>)"

definition room_unbanNick :: "string \<Rightarrow> room \<Rightarrow> bool \<times> room" where
  "room_unbanNick nick r =
     (nick \<in> set (r_bannedNicks r), r\<lparr>r_bannedNicks := uset_erase nick (r_bannedNicks r)\<rparr>)"

definition room_unbanIp :: "string \<Rightarrow> room \<Rightarrow> bool \<times> room" where
  "room_unbanIp ip r =
     (ip \<in> set (r_bannedIps r), r\<lparr>r_bannedIps := uset_erase ip (r_bannedIps r)\<rparr>)"

definition room_unbanUid :: "u32 \<Rightarrow> room \<Rightarrow> bool \<times> room" where
  "room_unbanUid uid r =
     (uid \<in> set (r_bannedUids r), r\<lparr>r_bannedUids := uset_erase uid (r_bannedUids r)\<rparr>)"

definition room_addModerator :: "u32 \<Rightarrow> room \<Rightarrow> bool \<times> room" where
  "room_addModerator uid r =
     (uid \<notin> set (r_moderators r), r\<lparr>r_moderators := uset_insert uid (r_moderators r)\<rparr>)"

definition room_removeModerator :: "u32 \<Rightarrow> room \<Rightarrow> bool \<times> room" where
  "room_removeModerator uid r =
     (uid \<in> set (r_moderators r), r\<lparr>r_moderators := uset_erase uid (r_moderators r)\<rparr>)"

definition room_newMessageId :: "room \<Rightarrow> u32 \<times> room" where
  "room_newMessageId r = (r_nextMessageId r, r\<lparr>r_nextMessageId := r_nextMessageId r + 1\<rparr>)"

definition room_new :: room where
  "room_new = \<lparr>r_name = [], r_ownerId = - 1, r_nextMessageId = 0, r_members = [],
     r_membersInfo = [], r_bannedNicks = [], r_bannedIps = [], r_bannedUids = [],
     r_moderators = [], r_history = [], r_nextMemberId = 0\<rparr>"

definition room_setName :: "string \<Rightarrow> room \<Rightarrow> room" where
  "room_setName nm r = r\<lparr>r_name := nm\<rparr>"

definition room_setOwner :: "u32 \<Rightarrow> room \<Rightarrow> room" where
  "room_setOwner nid r = r\<lparr>r_ownerId := nid\<rparr>"

subsection \<open>The four sets of a room share one contract\<close>

text \<open>
  The banned nicks, IPs and accounts and the moderators are used alike: \<open>ins\<close> and
  \<open>del\<close> report whether they changed anything, \<open>has\<close> asks, \<open>rest\<close> is everything
  else in the room.
\<close>

locale room_set =
  fixes ins :: "'k \<Rightarrow> room \<Rightarrow> bool \<times> room"
    and del :: "'k \<Rightarrow> room \<Rightarrow> bool \<times> room"
    and has :: "'k \<Rightarrow> room \<Rightarrow> bool"
    and elems :: "room \<Rightarrow> 'k list"
    and rest :: "room \<Rightarrow> 'r"
  assumes has_elems: "has k r \<longleftrightarrow> k \<in> set (elems r)"
    and elems_ins: "elems (snd (ins k r)) = (if k \<in> set (elems r) then elems r else elems r @ [k])"
    and elems_del: "elems (snd (del k r)) = filter (\<lambda>x. x \<noteq> k) (elems r)"
    and fst_ins: "fst (ins k r) \<longleftrightarrow> \<not> has k r"
    and fst_del: "fst (del k r) \<longleftrightarrow> has k r"
    and rest_ins: "rest (snd (ins k r)) = rest r"
    and rest_del: "rest (snd (del k r)) = rest r"
begin

lemma has_ins: "has k' (snd (ins k r)) \<longleftrightarrow> k' = k \<or> has k' r"
  by (auto simp: has_elems elems_ins)

lemma has_del: "has k' (snd (del k r)) \<longleftrightarrow> k' \<noteq> k \<and> has k' r"
  by (auto simp: has_elems elems_del)

lemma ins_idem: "\<not> fst (ins k (snd (ins k r)))"
  by (simp add: fst_ins has_ins)

lemma del_ins: "\<not> has k r \<Longrightarrow> elems (snd (del k (snd (ins k r)))) = elems r"
  by (auto simp: elems_del elems_ins has_elems filter_id_conv)

lemma length_ins: "length (elems (snd (ins k r))) \<le> Suc (length (elems r))"
  by (simp add: elems_ins)

lemma distinct_ins: "distinct (elems r) \<Longrightarrow> distinct (elems (snd (ins k r)))"
  by (simp add: elems_ins)

lemma distinct_del: "distinct (elems r) \<Longrightarrow> distinct (elems (snd (del k r)))"
  by (simp add: elems_del)

end

interpretation nick_bans: room_set room_banNick room_unbanNick room_isBannedNick r_bannedNicks
  "\<lambda>r. (r_name r, r_members r, r_bannedIps r, r_bannedUids r, r_moderators r)"
  by unfold_locales
    (auto simp: room_banNick_def room_unbanNick_def room_isBannedNick_def uset_insert_def
      uset_erase_def)

interpretation ip_bans: room_set room_banIp room_unbanIp room_isBannedIp r_bannedIps
  "\<lambda>r. (r_name r, r_members r, r_bannedNicks r, r_bannedUids r, r_moderators r)"
  by unfold_locales
    (auto simp: room_banIp_def room_unbanIp_def room_isBannedIp_def uset_insert_def
      uset_erase_def)

interpretation uid_bans: room_set room_banUid room_unbanUid room_isBannedUid r_bannedUids
  "\<lambda>r. (r_name r, r_members r, r_bannedNicks r, r_bannedIps r, r_moderators r)"
  by unfold_locales
    (auto simp: room_banUid_def room_unbanUid_def room_isBannedUid_def uset_insert_def
      uset_erase_def)

interpretation moderators: room_set room_addModerator room_removeModerator room_isModerator
  r_moderators "\<lambda>r. (r_name r, r_members r, r_bannedNicks r, r_bannedIps r, r_bannedUids r)"
  by unfold_locales
    (auto simp: room_addModerator_def room_removeModerator_def room_isModerator_def
      uset_insert_def uset_erase_def)

subsection \<open>History and broadcast\<close>

text \<open>
  \<open>history.size() > config["maxHistory"].asInt()\<close> compares a 64-bit unsigned with an
  \<open>int\<close>, which is converted: a negative limit is a huge one.
\<close>

definition history_limit :: "('j, 'x) env \<Rightarrow> nat" where
  "history_limit E = unat (word_of_int (e_maxHistory E) :: 64 word)"

fun trim_history :: "nat \<Rightarrow> string list \<Rightarrow> string list" where
  "trim_history lim [] = []"
| "trim_history lim (x # xs) = (if length (x # xs) > lim then trim_history lim xs else x # xs)"

definition addToHistory :: "('j, 'x) env \<Rightarrow> room_ptr \<Rightarrow> packet \<Rightarrow> 'x world \<Rightarrow> 'x world" where
  "addToHistory E r pack w = (case pack of
       Packet_Message pm \<Rightarrow>
         if pm_to_id pm = 0
         then upd_room r (\<lambda>rm. rm\<lparr>r_history :=
                trim_history (history_limit E) (r_history rm @ [wire E pack])\<rparr>) w
         else w
     | _ \<Rightarrow> w)"

definition sendPacketToAll :: "('j, 'x) env \<Rightarrow> room_ptr \<Rightarrow> packet \<Rightarrow> 'x world \<Rightarrow> 'x world" where
  "sendPacketToAll E r pack w =
     (let w1 = addToHistory E r pack w
      in fold (\<lambda>m v. client_sendPacket E (m_client (w_member v m)) pack v)
           (r_members (w_room w1 r)) w1)"

subsection \<open>Finding members\<close>

definition findMemberByClient :: "'x world \<Rightarrow> room_ptr \<Rightarrow> client_ptr \<Rightarrow> member_ptr option" where
  "findMemberByClient w r c = find (\<lambda>m. m_client (w_member w m) = c) (r_members (w_room w r))"

definition findMemberByNick :: "'x world \<Rightarrow> room_ptr \<Rightarrow> string \<Rightarrow> member_ptr option" where
  "findMemberByNick w r nick =
     find (\<lambda>m. m_nick (w_member w m) \<noteq> [] \<and> m_nick (w_member w m) = nick) (r_members (w_room w r))"

definition findMemberById :: "'x world \<Rightarrow> room_ptr \<Rightarrow> u32 \<Rightarrow> member_ptr option" where
  "findMemberById w r i = find (\<lambda>m. m_id (w_member w m) = i) (r_members (w_room w r))"

definition getStoredMemberInfo :: "'x world \<Rightarrow> room_ptr \<Rightarrow> member_ptr \<Rightarrow> member_info option" where
  "getStoredMemberInfo w r m =
     (let uid = c_uid (w_client w (m_client (w_member w m)))
      in if uid = 0 then None else map_of (r_membersInfo (w_room w r)) uid)"

subsection \<open>Changing the nick\<close>

definition member_setNick :: "('j, 'x) env \<Rightarrow> member_ptr \<Rightarrow> string \<Rightarrow> 'x world \<Rightarrow> 'x world" where
  "member_setNick E m nnick w =
     (let mb = w_member w m; r = m_room mb in
      if m_nick mb = nnick then w
      else if \<not> member_isModer w m \<and> room_isBannedNick nnick (w_room w r)
      then member_sendPacket E m (sys_packet (r_name (w_room w r)) txt_nick_banned) w
      else
        (let oldnick = m_nick mb;
             w1 = upd_member m (\<lambda>mb. mb\<lparr>m_nick := nnick\<rparr>) w;
             spack = current_status_packet w1 m [];
             spack = (if oldnick \<noteq> [] then
                        (if nnick = [] then spack\<lparr>pt_status := St_offline, pt_name := oldnick\<rparr>
                         else spack\<lparr>pt_status := St_nick_change, pt_data := oldnick\<rparr>)
                      else spack)
         in sendPacketToAll E r (Packet_Status spack) w1))"

subsection \<open>Members come and go\<close>

text \<open>
  \<open>do ++nextMemberId while (nextMemberId == 0 || findMemberById(nextMemberId))\<close> on a
  32-bit counter.
\<close>

partial_function (option) genNextMemberId_loop :: "(u32 \<Rightarrow> bool) \<Rightarrow> u32 \<Rightarrow> u32 option" where
  "genNextMemberId_loop taken n =
     (let n1 = n + 1
      in if n1 = 0 \<or> taken n1 then genNextMemberId_loop taken n1 else Some n1)"

declare genNextMemberId_loop.simps [code]

definition genNextMemberId :: "room_ptr \<Rightarrow> 'x world \<Rightarrow> (u32 \<times> 'x world) result" where
  "genNextMemberId r w =
     bindS (returned (genNextMemberId_loop (\<lambda>i. findMemberById w r i \<noteq> None)
                        (r_nextMemberId (w_room w r))))
       (\<lambda>i. Inr (i, upd_room r (\<lambda>rm. rm\<lparr>r_nextMemberId := i\<rparr>) w))"

datatype ban_exception = BannedByIPException | BannedByIDException

definition room_addMember ::
    "room_ptr \<Rightarrow> client_ptr \<Rightarrow> 'x world \<Rightarrow> ((ban_exception + member_ptr option) \<times> 'x world) result" where
  "room_addMember r c w =
     (let m = w_nextMember w;
          w = w\<lparr>w_member := (w_member w)(m := member_new r c (w_now w)), w_nextMember := Suc m\<rparr>
      in bindS (genNextMemberId r w) (\<lambda>(i, w).
         (let w = upd_member m (\<lambda>mb. mb\<lparr>m_id := i\<rparr>) w; user = w_client w c; rm = w_room w r
          in if \<not> member_isModer w m \<and> room_isBannedIp (c_lastClientIP user) rm
             then Inr (Inl BannedByIPException, w)
             else if \<not> member_isModer w m \<and> room_isBannedUid (c_uid user) rm
             then Inr (Inl BannedByIDException, w)
             else if m \<in> set (r_members rm) then Inr (Inr None, w)
             else Inr (Inr (Some m), upd_room r (\<lambda>rm. rm\<lparr>r_members := r_members rm @ [m]\<rparr>) w))))"

definition member_info_of :: "'x world \<Rightarrow> member_ptr \<Rightarrow> member_info" where
  "member_info_of w m =
     (let mb = w_member w m
      in member_info_new\<lparr>mi_user_id := c_uid (w_client w (m_client mb)), mi_nick := m_nick mb,
           mi_girl := m_girl mb, mi_color := m_color mb\<rparr>)"

text \<open>\<open>members.erase(m)\<close>; no caller looks at the boolean result.\<close>

definition room_eraseMember :: "room_ptr \<Rightarrow> member_ptr \<Rightarrow> 'x world \<Rightarrow> 'x world" where
  "room_eraseMember r m w = upd_room r (\<lambda>rm. rm\<lparr>r_members := uset_erase m (r_members rm)\<rparr>) w"

definition room_removeMember ::
    "('j, 'x) env \<Rightarrow> room_ptr \<Rightarrow> client_ptr \<Rightarrow> 'x world \<Rightarrow> 'x world result" where
  "room_removeMember E r c w =
     bindS (deref (findMemberByClient w r c)) (\<lambda>m.
       (let w1 = (if m_nick (w_member w m) \<noteq> []
                  then sendPacketToAll E r (Packet_Status (status_packet w m St_offline [])) w
                  else w);
            cli = m_client (w_member w1 m);
            w2 = (if \<not> client_isGuest (w_client w1 cli)
                  then upd_room r (\<lambda>rm. rm\<lparr>r_membersInfo :=
                         AList.update (c_uid (w_client w1 cli)) (member_info_of w1 m)
                           (r_membersInfo rm)\<rparr>) w1
                  else w1)
        in Inr (room_eraseMember r m w2)))"

definition client_onKick :: "client_ptr \<Rightarrow> room_ptr \<Rightarrow> 'x world \<Rightarrow> 'x world" where
  "client_onKick c r w = upd_client c (\<lambda>cl. cl\<lparr>c_rooms := uset_erase r (c_rooms cl)\<rparr>) w"

definition room_kickMember :: "('j, 'x) env \<Rightarrow> room_ptr \<Rightarrow> member_ptr \<Rightarrow> 'x world \<Rightarrow> 'x world" where
  "room_kickMember E r m w =
     (let w1 = client_onKick (m_client (w_member w m)) r w;
          w2 = (if m_nick (w_member w1 m) \<noteq> []
                then sendPacketToAll E r (Packet_Status (status_packet w1 m St_offline [])) w1
                else w1);
          w3 = member_sendPacket E m (leave_packet (r_name (w_room w2 r))) w2
      in room_eraseMember r m w3)"

definition room_kickClient :: "('j, 'x) env \<Rightarrow> room_ptr \<Rightarrow> client_ptr \<Rightarrow> 'x world \<Rightarrow> 'x world" where
  "room_kickClient E r c w = (case findMemberByClient w r c of
       Some m \<Rightarrow> room_kickMember E r m w | None \<Rightarrow> w)"

end
