(* ===== verification/Structure.thy ===== *)
theory Structure
  imports Rooms
begin

text \<open>
  The invariant that ties clients, members and rooms together, and its preservation by
  the two changes of the linked structure: a member enters a room (\<open>addMember\<close>) and a
  member leaves it (\<open>removeMember\<close>, \<open>kickMember\<close>).
\<close>

subsection \<open>Broadcasts only send and remember\<close>

lemma addToHistory_sel [simp]:
  "w_client (addToHistory E r p w) = w_client w"
  "w_member (addToHistory E r p w) = w_member w"
  "w_rooms (addToHistory E r p w) = w_rooms w"
  "w_clients (addToHistory E r p w) = w_clients w"
  "w_now (addToHistory E r p w) = w_now w"
  "w_ext (addToHistory E r p w) = w_ext w"
  "w_out (addToHistory E r p w) = w_out w"
  "r_members (w_room (addToHistory E r p w) q) = r_members (w_room w q)"
  "r_name (w_room (addToHistory E r p w) q) = r_name (w_room w q)"
  "r_membersInfo (w_room (addToHistory E r p w) q) = r_membersInfo (w_room w q)"
  "r_bannedNicks (w_room (addToHistory E r p w) q) = r_bannedNicks (w_room w q)"
  "r_bannedIps (w_room (addToHistory E r p w) q) = r_bannedIps (w_room w q)"
  "r_bannedUids (w_room (addToHistory E r p w) q) = r_bannedUids (w_room w q)"
  "r_moderators (w_room (addToHistory E r p w) q) = r_moderators (w_room w q)"
  "r_ownerId (w_room (addToHistory E r p w) q) = r_ownerId (w_room w q)"
  by (simp_all add: addToHistory_def split: packet.splits)

lemma fold_client_sendPacket:
  "fold (\<lambda>m v. client_sendPacket E (m_client (w_member v m)) p v) ms w
     = w\<lparr>w_out := w_out w @ concat (map (\<lambda>m. delivery w (m_client (w_member w m)) (wire E p)) ms)\<rparr>"
proof (induction ms arbitrary: w)
  case (Cons m ms)
  have "client_sendPacket E c p w = w\<lparr>w_out := w_out w @ delivery w c (wire E p)\<rparr>" for c
    by (simp add: client_sendPacket_def server_sendPacket_def emit_def delivery_def
        split: option.split)
  then show ?case by (simp add: Cons delivery_def)
qed simp

lemma sendPacketToAll_eq:
  "sendPacketToAll E r p w = (addToHistory E r p w)\<lparr>w_out := w_out w @
     concat (map (\<lambda>m. delivery w (m_client (w_member w m)) (wire E p)) (r_members (w_room w r)))\<rparr>"
  by (simp add: sendPacketToAll_def fold_client_sendPacket delivery_def)

lemma sendPacketToAll_sel [simp]:
  "w_client (sendPacketToAll E r p w) = w_client w"
  "w_member (sendPacketToAll E r p w) = w_member w"
  "w_rooms (sendPacketToAll E r p w) = w_rooms w"
  "w_clients (sendPacketToAll E r p w) = w_clients w"
  "w_now (sendPacketToAll E r p w) = w_now w"
  "w_ext (sendPacketToAll E r p w) = w_ext w"
  "r_members (w_room (sendPacketToAll E r p w) q) = r_members (w_room w q)"
  "r_name (w_room (sendPacketToAll E r p w) q) = r_name (w_room w q)"
  "r_membersInfo (w_room (sendPacketToAll E r p w) q) = r_membersInfo (w_room w q)"
  "r_bannedNicks (w_room (sendPacketToAll E r p w) q) = r_bannedNicks (w_room w q)"
  "r_bannedIps (w_room (sendPacketToAll E r p w) q) = r_bannedIps (w_room w q)"
  "r_bannedUids (w_room (sendPacketToAll E r p w) q) = r_bannedUids (w_room w q)"
  "r_moderators (w_room (sendPacketToAll E r p w) q) = r_moderators (w_room w q)"
  "r_ownerId (w_room (sendPacketToAll E r p w) q) = r_ownerId (w_room w q)"
  by (simp_all add: sendPacketToAll_eq)

lemma view_addToHistory [view_simps]: "view (addToHistory E r p w) = view w"
  by (auto simp: addToHistory_def room_view_def intro!: view_upd_room split: packet.split)

lemma view_out [view_simps]: "view (w\<lparr>w_out := x\<rparr>) = view w"
  by (simp add: view_def)

lemma view_sendPacketToAll [view_simps]: "view (sendPacketToAll E r p w) = view w"
  by (simp add: sendPacketToAll_eq view_simps)

lemma view_member_sendPacket [view_simps]: "view (member_sendPacket E m p w) = view w"
  by (simp add: member_sendPacket_def view_simps)

lemma view_member_setStatus [view_simps]: "view (member_setStatus m st w) = view w"
  by (simp add: member_setStatus_def view_simps member_view_def Let_def)

lemma view_member_setGirl [view_simps]: "view (member_setGirl m g w) = view w"
  by (simp add: member_setGirl_def view_simps member_view_def)

lemma view_member_setColor [view_simps]: "view (member_setColor m clr w) = view w"
  by (simp add: member_setColor_def view_simps member_view_def)

text \<open>An operation on the sets of a room, run on the room in the heap.\<close>

lemma view_room_set_ops [view_simps]:
  "view (upd_room r (\<lambda>rm. snd (room_banNick nick rm)) w) = view w"
  "view (upd_room r (\<lambda>rm. snd (room_banIp ip rm)) w) = view w"
  "view (upd_room r (\<lambda>rm. snd (room_banUid uid rm)) w) = view w"
  "view (upd_room r (\<lambda>rm. snd (room_unbanNick nick rm)) w) = view w"
  "view (upd_room r (\<lambda>rm. snd (room_unbanIp ip rm)) w) = view w"
  "view (upd_room r (\<lambda>rm. snd (room_unbanUid uid rm)) w) = view w"
  "view (upd_room r (\<lambda>rm. snd (room_addModerator uid rm)) w) = view w"
  "view (upd_room r (\<lambda>rm. snd (room_removeModerator uid rm)) w) = view w"
  "view (upd_room r (\<lambda>rm. snd (room_newMessageId rm)) w) = view w"
  "view (upd_room r (room_setOwner uid) w) = view w"
  by (simp_all add: view_upd_room room_view_def room_banNick_def room_banIp_def room_banUid_def
      room_unbanNick_def room_unbanIp_def room_unbanUid_def room_addModerator_def
      room_removeModerator_def room_newMessageId_def room_setOwner_def)

subsection \<open>The invariants\<close>

text \<open>
  Every client is in exactly the rooms that have a member for it, with one member per
  room; members have pairwise different ids, none of them 0; no two members of a room
  share a nick.
\<close>

definition members_ok :: "'x world \<Rightarrow> bool" where
  "members_ok w \<longleftrightarrow>
     (\<forall>c. distinct (c_rooms (w_client w c))) \<and>
     (\<forall>c. \<forall>r \<in> set (c_rooms (w_client w c)).
        \<exists>m \<in> set (r_members (w_room w r)). m_client (w_member w m) = c) \<and>
     (\<forall>r. \<forall>m \<in> set (r_members (w_room w r)).
        m_room (w_member w m) = r \<and> r \<in> set (c_rooms (w_client w (m_client (w_member w m))))
        \<and> m < w_nextMember w) \<and>
     (\<forall>r. distinct (r_members (w_room w r))) \<and>
     (\<forall>r. inj_on (\<lambda>m. m_client (w_member w m)) (set (r_members (w_room w r))))"

definition ids_ok :: "'x world \<Rightarrow> bool" where
  "ids_ok w \<longleftrightarrow>
     (\<forall>r. inj_on (\<lambda>m. m_id (w_member w m)) (set (r_members (w_room w r)))) \<and>
     (\<forall>r. \<forall>m \<in> set (r_members (w_room w r)). m_id (w_member w m) \<noteq> 0)"

definition nicks_ok :: "'x world \<Rightarrow> bool" where
  "nicks_ok w \<longleftrightarrow>
     (\<forall>r. \<forall>m \<in> set (r_members (w_room w r)). \<forall>m' \<in> set (r_members (w_room w r)).
        m_nick (w_member w m) \<noteq> [] \<longrightarrow> m_nick (w_member w m) = m_nick (w_member w m') \<longrightarrow> m = m')"

definition linked_ok :: "'x world \<Rightarrow> bool" where
  "linked_ok w \<longleftrightarrow> members_ok w \<and> ids_ok w \<and> nicks_ok w"

text \<open>
  The registry of the server: room names are unique, and every room somebody is in is
  registered.
\<close>

definition rooms_within :: "room_ptr set \<Rightarrow> 'x world \<Rightarrow> bool" where
  "rooms_within A w \<longleftrightarrow> (\<forall>c. set (c_rooms (w_client w c)) \<subseteq> A)"

definition names_ok :: "'x world \<Rightarrow> bool" where
  "names_ok w \<longleftrightarrow> distinct (w_rooms w) \<and>
     inj_on (\<lambda>r. r_name (w_room w r)) (set (w_rooms w)) \<and>
     (\<forall>r \<in> set (w_rooms w). r < w_nextRoom w)"

definition registry_ok :: "'x world \<Rightarrow> bool" where
  "registry_ok w \<longleftrightarrow> names_ok w \<and> rooms_within (set (w_rooms w)) w"

lemma members_ok_cong:
  assumes "view w' = view w"
  shows "members_ok w' = members_ok w"
  by (simp only: members_ok_def view_eqD [OF assms])

lemma ids_ok_cong:
  assumes "view w' = view w"
  shows "ids_ok w' = ids_ok w"
  by (simp only: ids_ok_def view_eqD [OF assms])

lemma nicks_ok_cong:
  assumes "view w' = view w"
  shows "nicks_ok w' = nicks_ok w"
  by (simp only: nicks_ok_def view_eqD [OF assms])

lemma linked_ok_cong:
  assumes "view w' = view w"
  shows "linked_ok w' = linked_ok w"
  by (simp only: linked_ok_def members_ok_cong [OF assms] ids_ok_cong [OF assms]
      nicks_ok_cong [OF assms])

lemma rooms_within_cong:
  assumes "view w' = view w"
  shows "rooms_within A w' = rooms_within A w"
  by (simp only: rooms_within_def view_eqD [OF assms])

lemma names_ok_cong:
  assumes "view w' = view w"
  shows "names_ok w' = names_ok w"
  by (simp only: names_ok_def view_eqD [OF assms])

lemma registry_ok_cong:
  assumes "view w' = view w"
  shows "registry_ok w' = registry_ok w"
  by (simp only: registry_ok_def names_ok_cong [OF assms] rooms_within_cong [OF assms]
      view_eqD [OF assms])

lemma members_okD:
  assumes "members_ok w"
  shows "distinct (c_rooms (w_client w c))"
    and "r \<in> set (c_rooms (w_client w c)) \<Longrightarrow>
           \<exists>m \<in> set (r_members (w_room w r)). m_client (w_member w m) = c"
    and "m \<in> set (r_members (w_room w r)) \<Longrightarrow> m_room (w_member w m) = r"
    and "m \<in> set (r_members (w_room w r)) \<Longrightarrow>
           r \<in> set (c_rooms (w_client w (m_client (w_member w m))))"
    and "m \<in> set (r_members (w_room w r)) \<Longrightarrow> m < w_nextMember w"
    and "distinct (r_members (w_room w r))"
    and "m \<in> set (r_members (w_room w r)) \<Longrightarrow> m' \<in> set (r_members (w_room w r)) \<Longrightarrow>
           m_client (w_member w m) = m_client (w_member w m') \<Longrightarrow> m = m'"
  using assms unfolding members_ok_def inj_on_def by blast+

subsection \<open>Finding the member of a client\<close>

lemma findMemberByClient_cong:
  assumes "view w' = view w"
  shows "findMemberByClient w' r c = findMemberByClient w r c"
  by (simp only: findMemberByClient_def view_eqD [OF assms])

lemma findMemberByClient_Some:
  "findMemberByClient w r c = Some m \<Longrightarrow>
     m \<in> set (r_members (w_room w r)) \<and> m_client (w_member w m) = c"
  unfolding findMemberByClient_def by (drule find_SomeD) simp

lemma findMemberByClient_in:
  assumes "members_ok w" and "r \<in> set (c_rooms (w_client w c))"
  obtains m where "findMemberByClient w r c = Some m" "m \<in> set (r_members (w_room w r))"
    "m_client (w_member w m) = c" "m_room (w_member w m) = r"
proof -
  obtain m where m: "m \<in> set (r_members (w_room w r))" "m_client (w_member w m) = c"
    using members_okD(2) [OF assms] by blast
  then have "findMemberByClient w r c = Some m"
    unfolding findMemberByClient_def
    by (intro find_Some_unique) (auto dest: members_okD(7) [OF assms(1)])
  with m members_okD(3) [OF assms(1)] show ?thesis by (intro that) auto
qed

lemma findMemberByClient_unique:
  assumes "members_ok w" and "m \<in> set (r_members (w_room w r))"
  shows "findMemberByClient w r (m_client (w_member w m)) = Some m"
  using assms unfolding findMemberByClient_def
  by (intro find_Some_unique) (auto dest: members_okD(7))

subsection \<open>Leaving\<close>

text \<open>What every way of leaving a room does to the linked structure.\<close>

definition unlink :: "room_ptr \<Rightarrow> member_ptr \<Rightarrow> client_ptr \<Rightarrow> 'x world \<Rightarrow> 'x world" where
  "unlink r m c w = room_eraseMember r m (client_onKick c r w)"

lemma unlink_sel:
  "c_rooms (w_client (unlink r m c w) d) =
     (if d = c then uset_erase r (c_rooms (w_client w c)) else c_rooms (w_client w d))"
  "c_connection (w_client (unlink r m c w) d) = c_connection (w_client w d)"
  "c_lastClientIP (w_client (unlink r m c w) d) = c_lastClientIP (w_client w d)"
  "c_token (w_client (unlink r m c w) d) = c_token (w_client w d)"
  "w_member (unlink r m c w) = w_member w"
  "r_members (w_room (unlink r m c w) q) =
     (if q = r then uset_erase m (r_members (w_room w r)) else r_members (w_room w q))"
  "r_name (w_room (unlink r m c w) q) = r_name (w_room w q)"
  "w_nextMember (unlink r m c w) = w_nextMember w"
  "w_nextRoom (unlink r m c w) = w_nextRoom w"
  "w_nextClient (unlink r m c w) = w_nextClient w"
  "w_rooms (unlink r m c w) = w_rooms w"
  "w_clients (unlink r m c w) = w_clients w"
  "w_connectionToClient (unlink r m c w) = w_connectionToClient w"
  "w_tokenToClient (unlink r m c w) = w_tokenToClient w"
  "w_countersFromIp (unlink r m c w) = w_countersFromIp w"
  by (simp_all add: unlink_def room_eraseMember_def client_onKick_def)

lemma members_ok_unlink:
  assumes ok: "members_ok w" and m: "m \<in> set (r_members (w_room w r))" "m_client (w_member w m) = c"
  shows "members_ok (unlink r m c w)"
  unfolding members_ok_def
proof (intro conjI allI ballI)
  fix d show "distinct (c_rooms (w_client (unlink r m c w) d))"
    using members_okD(1) [OF ok] by (simp add: unlink_sel)
next
  fix d q assume q: "q \<in> set (c_rooms (w_client (unlink r m c w) d))"
  then have "q \<in> set (c_rooms (w_client w d))" and ne: "d = c \<Longrightarrow> q \<noteq> r"
    by (auto simp: unlink_sel split: if_splits)
  then obtain k where "k \<in> set (r_members (w_room w q))" "m_client (w_member w k) = d"
    using members_okD(2) [OF ok] by blast
  with ne m show "\<exists>k \<in> set (r_members (w_room (unlink r m c w) q)).
      m_client (w_member (unlink r m c w) k) = d"
    by (intro bexI [of _ k]) (auto simp: unlink_sel)
next
  fix q k assume "k \<in> set (r_members (w_room (unlink r m c w) q))"
  then have k: "k \<in> set (r_members (w_room w q))" and ne: "q = r \<Longrightarrow> k \<noteq> m"
    by (auto simp: unlink_sel split: if_splits)
  show "m_room (w_member (unlink r m c w) k) = q"
    using members_okD(3) [OF ok k] by (simp add: unlink_sel)
  show "q \<in> set (c_rooms (w_client (unlink r m c w) (m_client (w_member (unlink r m c w) k))))"
    using members_okD(4) [OF ok k] members_okD(7) [OF ok k] ne m by (auto simp: unlink_sel)
  show "k < w_nextMember (unlink r m c w)"
    using members_okD(5) [OF ok k] by (simp add: unlink_sel)
next
  fix q show "distinct (r_members (w_room (unlink r m c w) q))"
    using members_okD(6) [OF ok] by (simp add: unlink_sel)
next
  fix q show "inj_on (\<lambda>k. m_client (w_member (unlink r m c w) k))
      (set (r_members (w_room (unlink r m c w) q)))"
    using members_okD(7) [OF ok] by (auto simp: unlink_sel inj_on_def)
qed

lemma linked_ok_unlink:
  assumes "linked_ok w" and "m \<in> set (r_members (w_room w r))" "m_client (w_member w m) = c"
  shows "linked_ok (unlink r m c w)"
  unfolding linked_ok_def
proof (intro conjI)
  show "members_ok (unlink r m c w)"
    using assms by (auto simp: linked_ok_def intro: members_ok_unlink)
  show "ids_ok (unlink r m c w)"
    using assms(1) by (auto simp: linked_ok_def ids_ok_def unlink_sel inj_on_def)
  show "nicks_ok (unlink r m c w)"
    using assms(1) by (auto simp: linked_ok_def nicks_ok_def unlink_sel)
qed

lemma rooms_within_unlink: "rooms_within A w \<Longrightarrow> rooms_within A (unlink r m c w)"
  by (auto simp: rooms_within_def unlink_sel)

lemma names_ok_unlink: "names_ok (unlink r m c w) = names_ok w"
  by (simp add: names_ok_def unlink_sel)

lemma registry_ok_unlink: "registry_ok w \<Longrightarrow> registry_ok (unlink r m c w)"
  by (simp add: registry_ok_def names_ok_unlink rooms_within_unlink unlink_sel)

end
