(* ===== verification/Linking.thy ===== *)
theory Linking
  imports Structure
begin

text \<open>
  What \<open>addMember\<close>, \<open>removeMember\<close> and \<open>kickMember\<close> do to the linked structure,
  and the search for a fresh member id.
\<close>

subsection \<open>Kicking and removing\<close>

lemma view_room_eraseMember:
  assumes "view w' = view w"
  shows "view (room_eraseMember r m w') = view (room_eraseMember r m w)"
  using assms view_eqD [OF assms]
  by (auto simp: view_def room_eraseMember_def fun_eq_iff room_view_def)

lemma view_client_onKick:
  assumes "view w' = view w"
  shows "view (client_onKick c r w') = view (client_onKick c r w)"
  using assms view_eqD [OF assms]
  by (auto simp: view_def client_onKick_def fun_eq_iff client_view_def)

lemma client_onKick_sel [simp]:
  "w_member (client_onKick c r w) = w_member w"
  "w_room (client_onKick c r w) = w_room w"
  "w_rooms (client_onKick c r w) = w_rooms w"
  by (simp_all add: client_onKick_def)

lemma view_room_kickMember:
  "view (room_kickMember E r m w) = view (unlink r m (m_client (w_member w m)) w)"
  unfolding room_kickMember_def unlink_def Let_def
  by (intro view_room_eraseMember) (simp add: view_simps)

lemma linked_ok_kickMember:
  assumes "linked_ok w" and "m \<in> set (r_members (w_room w r))"
  shows "linked_ok (room_kickMember E r m w)"
  unfolding linked_ok_cong [OF view_room_kickMember]
  using assms by (intro linked_ok_unlink) auto

lemma registry_ok_kickMember: "registry_ok w \<Longrightarrow> registry_ok (room_kickMember E r m w)"
  unfolding registry_ok_cong [OF view_room_kickMember] by (rule registry_ok_unlink)

lemma view_membersInfo [view_simps]:
  "view (upd_room r (\<lambda>rm. rm\<lparr>r_membersInfo := f rm\<rparr>) w) = view w"
  by (simp add: view_upd_room room_view_def)

lemma room_removeMember_view:
  assumes "findMemberByClient w r c = Some m"
  obtains w' where "room_removeMember E r c w = Inr w'" "view w' = view (room_eraseMember r m w)"
proof -
  let ?w1 = "if m_nick (w_member w m) \<noteq> []
             then sendPacketToAll E r (Packet_Status (status_packet w m St_offline [])) w else w"
  let ?cli = "m_client (w_member ?w1 m)"
  let ?w2 = "if \<not> client_isGuest (w_client ?w1 ?cli)
             then upd_room r (\<lambda>rm. rm\<lparr>r_membersInfo :=
                    AList.update (c_uid (w_client ?w1 ?cli)) (member_info_of ?w1 m)
                      (r_membersInfo rm)\<rparr>) ?w1 else ?w1"
  have "room_removeMember E r c w = Inr (room_eraseMember r m ?w2)"
    by (simp add: room_removeMember_def assms Let_def)
  moreover have "view ?w2 = view w" by (simp add: view_simps)
  then have "view (room_eraseMember r m ?w2) = view (room_eraseMember r m w)"
    by (rule view_room_eraseMember)
  ultimately show ?thesis by (rule that)
qed

lemma room_removeMember_null:
  "findMemberByClient w r c = None \<Longrightarrow> room_removeMember E r c w = Inl NullDeref"
  by (simp add: room_removeMember_def)

subsection \<open>A fresh member id\<close>

lemma genNextMemberId_loop_Some:
  "genNextMemberId_loop taken n = Some i \<Longrightarrow> i \<noteq> 0 \<and> \<not> taken i"
proof -
  assume ret: "genNextMemberId_loop taken n = Some i"
  show ?thesis
    by (rule genNextMemberId_loop.raw_induct [where P = "\<lambda>tk n i. i \<noteq> 0 \<and> \<not> tk i", OF _ ret])
      (auto simp: Let_def split: if_splits)
qed

text \<open>The counter meets every value, so the loop ends as soon as one id is free.\<close>

lemma genNextMemberId_loop_reaches:
  "n + of_nat (Suc k) \<noteq> 0 \<Longrightarrow> \<not> taken (n + of_nat (Suc k)) \<Longrightarrow>
     \<exists>i. genNextMemberId_loop taken n = Some i"
proof (induction k arbitrary: n)
  case 0
  then show ?case by (subst genNextMemberId_loop.simps) (simp add: Let_def)
next
  case (Suc k)
  show ?case
  proof (cases "n + 1 = 0 \<or> taken (n + 1)")
    case True
    have "n + of_nat (Suc (Suc k)) = (n + 1) + of_nat (Suc k)" by simp
    with Suc.prems Suc.IH [of "n + 1"] obtain i where "genNextMemberId_loop taken (n + 1) = Some i"
      by metis
    with True show ?thesis by (subst genNextMemberId_loop.simps) (simp add: Let_def)
  next
    case False
    then show ?thesis by (subst genNextMemberId_loop.simps) (simp add: Let_def)
  qed
qed

lemma genNextMemberId_loop_total:
  assumes "j \<noteq> 0" and "\<not> taken j"
  shows "\<exists>i. genNextMemberId_loop taken n = Some i"
proof -
  define k where "k = unat (j - n - 1)"
  have "n + of_nat (Suc k) = j" by (simp add: k_def)
  with assms show ?thesis using genNextMemberId_loop_reaches [of n k taken] by simp
qed

lemma free_word_exists:
  fixes T :: "u32 set"
  assumes "card T < 2 ^ 32 - 1"
  shows "\<exists>j. j \<noteq> 0 \<and> j \<notin> T"
proof (rule ccontr)
  assume "\<nexists>j. j \<noteq> 0 \<and> j \<notin> T"
  then have "UNIV \<subseteq> insert 0 T" by auto
  then have "card (UNIV :: u32 set) \<le> card (insert 0 T)" by (intro card_mono) auto
  also have "\<dots> \<le> Suc (card T)" by (rule card_insert_le_m1) auto
  finally show False using assms by (simp add: card_word)
qed

lemma findMemberById_None:
  "findMemberById w r i = None \<longleftrightarrow> (\<forall>m \<in> set (r_members (w_room w r)). m_id (w_member w m) \<noteq> i)"
  by (auto simp: findMemberById_def find_None_iff)

lemma genNextMemberId_fresh:
  assumes "genNextMemberId r w = Inr (i, w')"
  shows "i \<noteq> 0" and "\<forall>m \<in> set (r_members (w_room w r)). m_id (w_member w m) \<noteq> i"
    and "w' = upd_room r (\<lambda>rm. rm\<lparr>r_nextMemberId := i\<rparr>) w"
proof -
  from assms have loop: "genNextMemberId_loop (\<lambda>i. findMemberById w r i \<noteq> None)
      (r_nextMemberId (w_room w r)) = Some i"
    and w': "w' = upd_room r (\<lambda>rm. rm\<lparr>r_nextMemberId := i\<rparr>) w"
    by (auto simp: genNextMemberId_def bindS_Inr_iff returned_def split: option.splits)
  from genNextMemberId_loop_Some [OF loop]
  show "i \<noteq> 0" and "\<forall>m \<in> set (r_members (w_room w r)). m_id (w_member w m) \<noteq> i"
    by (auto simp: findMemberById_None)
  show "w' = upd_room r (\<lambda>rm. rm\<lparr>r_nextMemberId := i\<rparr>) w" by (fact w')
qed

lemma genNextMemberId_total:
  assumes "length (r_members (w_room w r)) < 2 ^ 32 - 1"
  shows "\<exists>i. genNextMemberId r w = Inr (i, upd_room r (\<lambda>rm. rm\<lparr>r_nextMemberId := i\<rparr>) w)"
proof -
  let ?T = "(\<lambda>m. m_id (w_member w m)) ` set (r_members (w_room w r))"
  have "card ?T \<le> length (r_members (w_room w r))"
    by (metis card_image_le card_length finite_set order_trans)
  with assms have "card ?T < 2 ^ 32 - 1" by simp
  from free_word_exists [OF this] obtain j where "j \<noteq> 0" "j \<notin> ?T" by blast
  then have "\<not> findMemberById w r j \<noteq> None" by (auto simp: findMemberById_None)
  then obtain i where "genNextMemberId_loop (\<lambda>i. findMemberById w r i \<noteq> None)
      (r_nextMemberId (w_room w r)) = Some i"
    using genNextMemberId_loop_total [where taken = "\<lambda>i. findMemberById w r i \<noteq> None"]
      \<open>j \<noteq> 0\<close> by metis
  then show ?thesis by (simp add: genNextMemberId_def)
qed

subsection \<open>Entering\<close>

text \<open>
  The new member object, then the room that holds it, then the client that is in the
  room.
\<close>

definition alloc :: "room_ptr \<Rightarrow> client_ptr \<Rightarrow> u32 \<Rightarrow> 'x world \<Rightarrow> 'x world" where
  "alloc r c i w = w\<lparr>w_member := (w_member w)(w_nextMember w := (member_new r c (w_now w))\<lparr>m_id := i\<rparr>),
     w_nextMember := Suc (w_nextMember w)\<rparr>"

definition enter :: "room_ptr \<Rightarrow> client_ptr \<Rightarrow> u32 \<Rightarrow> 'x world \<Rightarrow> 'x world" where
  "enter r c i w =
     upd_room r (\<lambda>rm. rm\<lparr>r_members := r_members rm @ [w_nextMember w]\<rparr>) (alloc r c i w)"

definition link :: "room_ptr \<Rightarrow> client_ptr \<Rightarrow> u32 \<Rightarrow> 'x world \<Rightarrow> 'x world" where
  "link r c i w =
     upd_client c (\<lambda>cl. cl\<lparr>c_rooms := uset_insert r (c_rooms cl)\<rparr>) (enter r c i w)"

definition fresh_id :: "room_ptr \<Rightarrow> u32 \<Rightarrow> 'x world \<Rightarrow> bool" where
  "fresh_id r i w \<longleftrightarrow> i \<noteq> 0 \<and> (\<forall>m \<in> set (r_members (w_room w r)). m_id (w_member w m) \<noteq> i)"

lemma link_sel:
  "w_member (link r c i w) = (w_member w)(w_nextMember w := (member_new r c (w_now w))\<lparr>m_id := i\<rparr>)"
  "c_rooms (w_client (link r c i w) d) =
     (if d = c then uset_insert r (c_rooms (w_client w c)) else c_rooms (w_client w d))"
  "c_connection (w_client (link r c i w) d) = c_connection (w_client w d)"
  "c_lastClientIP (w_client (link r c i w) d) = c_lastClientIP (w_client w d)"
  "c_token (w_client (link r c i w) d) = c_token (w_client w d)"
  "r_members (w_room (link r c i w) q) =
     (if q = r then r_members (w_room w r) @ [w_nextMember w] else r_members (w_room w q))"
  "r_name (w_room (link r c i w) q) = r_name (w_room w q)"
  "w_nextMember (link r c i w) = Suc (w_nextMember w)"
  "w_nextRoom (link r c i w) = w_nextRoom w"
  "w_nextClient (link r c i w) = w_nextClient w"
  "w_rooms (link r c i w) = w_rooms w"
  "w_clients (link r c i w) = w_clients w"
  "w_connectionToClient (link r c i w) = w_connectionToClient w"
  "w_tokenToClient (link r c i w) = w_tokenToClient w"
  "w_countersFromIp (link r c i w) = w_countersFromIp w"
  by (simp_all add: link_def enter_def alloc_def)

lemma alloc_sel:
  "w_member (alloc r c i w) = (w_member w)(w_nextMember w := (member_new r c (w_now w))\<lparr>m_id := i\<rparr>)"
  "w_client (alloc r c i w) = w_client w"
  "w_room (alloc r c i w) = w_room w"
  "w_nextMember (alloc r c i w) = Suc (w_nextMember w)"
  "w_nextRoom (alloc r c i w) = w_nextRoom w"
  "w_nextClient (alloc r c i w) = w_nextClient w"
  "w_rooms (alloc r c i w) = w_rooms w"
  "w_clients (alloc r c i w) = w_clients w"
  "w_connectionToClient (alloc r c i w) = w_connectionToClient w"
  "w_tokenToClient (alloc r c i w) = w_tokenToClient w"
  "w_countersFromIp (alloc r c i w) = w_countersFromIp w"
  by (simp_all add: alloc_def)

lemma linked_ok_alloc:
  assumes "linked_ok w"
  shows "linked_ok (alloc r c i w)"
proof -
  have ok: "members_ok w" using assms by (simp add: linked_ok_def)
  have lt: "m \<in> set (r_members (w_room w q)) \<Longrightarrow> m \<noteq> w_nextMember w" for m q
    using members_okD(5) [OF ok] by blast
  have "members_ok (alloc r c i w)"
    using members_okD [OF ok] lt unfolding members_ok_def
    by (auto simp: alloc_sel inj_on_def less_SucI)
  moreover have "ids_ok (alloc r c i w)"
    using assms lt unfolding linked_ok_def ids_ok_def by (auto simp: alloc_sel inj_on_def)
  moreover have "nicks_ok (alloc r c i w)"
    using assms lt unfolding linked_ok_def nicks_ok_def by (auto simp: alloc_sel)
  ultimately show ?thesis by (simp add: linked_ok_def)
qed

lemma members_ok_link:
  assumes ok: "members_ok w" and r: "r \<notin> set (c_rooms (w_client w c))"
  shows "members_ok (link r c i w)"
proof -
  have lt: "m \<in> set (r_members (w_room w q)) \<Longrightarrow> m \<noteq> w_nextMember w" for m q
    using members_okD(5) [OF ok] by blast
  have noc: "m \<in> set (r_members (w_room w r)) \<Longrightarrow> m_client (w_member w m) \<noteq> c" for m
    using members_okD(4) [OF ok] r by blast
  show ?thesis
    unfolding members_ok_def
  proof (intro conjI allI ballI)
    fix d show "distinct (c_rooms (w_client (link r c i w) d))"
      using members_okD(1) [OF ok] by (simp add: link_sel)
  next
    fix d q assume "q \<in> set (c_rooms (w_client (link r c i w) d))"
    then show "\<exists>k \<in> set (r_members (w_room (link r c i w) q)).
        m_client (w_member (link r c i w) k) = d"
      using members_okD(2) [OF ok, of q d] lt
      by (cases "q = r \<and> d = c") (auto simp: link_sel member_new_def split: if_splits)
  next
    fix q k assume k: "k \<in> set (r_members (w_room (link r c i w) q))"
    show "m_room (w_member (link r c i w) k) = q"
      using k members_okD(3) [OF ok, of k q] lt [of k q]
      by (auto simp: link_sel member_new_def split: if_splits)
    show "q \<in> set (c_rooms (w_client (link r c i w) (m_client (w_member (link r c i w) k))))"
      using k members_okD(4) [OF ok, of k q] lt [of k q]
      by (auto simp: link_sel member_new_def split: if_splits)
    show "k < w_nextMember (link r c i w)"
      using k members_okD(5) [OF ok, of k q] by (auto simp: link_sel split: if_splits)
  next
    fix q show "distinct (r_members (w_room (link r c i w) q))"
      using members_okD(6) [OF ok, of q] lt [of _ q] by (auto simp: link_sel)
  next
    fix q show "inj_on (\<lambda>k. m_client (w_member (link r c i w) k))
        (set (r_members (w_room (link r c i w) q)))"
      using members_okD(7) [OF ok, of _ q] lt [of _ q] noc
      by (cases "q = r") (auto simp: link_sel inj_on_def member_new_def)
  qed
qed

lemma linked_ok_link:
  assumes "linked_ok w" and "r \<notin> set (c_rooms (w_client w c))" and "fresh_id r i w"
  shows "linked_ok (link r c i w)"
proof -
  have ok: "members_ok w" using assms by (simp add: linked_ok_def)
  have lt: "m \<in> set (r_members (w_room w q)) \<Longrightarrow> m \<noteq> w_nextMember w" for m q
    using members_okD(5) [OF ok] by blast
  have "ids_ok (link r c i w)"
    using assms(1,3) lt unfolding linked_ok_def ids_ok_def fresh_id_def
    by (auto simp: link_sel inj_on_def)
  moreover have "nicks_ok (link r c i w)"
    using assms(1) lt unfolding linked_ok_def nicks_ok_def
    by (auto simp: link_sel member_new_def)
  ultimately show ?thesis
    using members_ok_link [OF ok assms(2)] by (simp add: linked_ok_def)
qed

lemma rooms_within_link: "rooms_within A w \<Longrightarrow> r \<in> A \<Longrightarrow> rooms_within A (link r c i w)"
  by (auto simp: rooms_within_def link_sel)

lemma registry_ok_link:
  "registry_ok w \<Longrightarrow> r \<in> set (w_rooms w) \<Longrightarrow> registry_ok (link r c i w)"
  by (auto simp: registry_ok_def names_ok_def rooms_within_def link_sel)

lemma registry_ok_alloc: "registry_ok (alloc r c i w) = registry_ok w"
  by (simp add: registry_ok_def names_ok_def rooms_within_def alloc_sel)

text \<open>The three outcomes of \<open>addMember\<close>.\<close>

lemma room_addMember_cases:
  assumes "members_ok w" and "room_addMember r c w = Inr (res, w')"
  obtains (banned) e i where "res = Inl e" "fresh_id r i w" "view w' = view (alloc r c i w)"
  | (added) i where "res = Inr (Some (w_nextMember w))" "fresh_id r i w"
      "view w' = view (enter r c i w)"
proof -
  let ?m = "w_nextMember w"
  let ?w0 = "w\<lparr>w_member := (w_member w)(?m := member_new r c (w_now w)), w_nextMember := Suc ?m\<rparr>"
  have notin: "?m \<notin> set (r_members (w_room w r))"
    using members_okD(5) [OF assms(1), of ?m r] by blast
  from assms(2) obtain i w1 where gen: "genNextMemberId r ?w0 = Inr (i, w1)"
    and rest: "(let w = upd_member ?m (\<lambda>mb. mb\<lparr>m_id := i\<rparr>) w1; user = w_client w c; rm = w_room w r
          in if \<not> member_isModer w ?m \<and> room_isBannedIp (c_lastClientIP user) rm
             then Inr (Inl BannedByIPException, w)
             else if \<not> member_isModer w ?m \<and> room_isBannedUid (c_uid user) rm
             then Inr (Inl BannedByIDException, w)
             else if ?m \<in> set (r_members rm) then Inr (Inr None, w)
             else Inr (Inr (Some ?m), upd_room r (\<lambda>rm. rm\<lparr>r_members := r_members rm @ [?m]\<rparr>) w))
          = (Inr (res, w') :: (_ \<times> _) result)"
    unfolding room_addMember_def Let_def bindS_Inr_iff by (auto split: prod.splits)
  note w1 = genNextMemberId_fresh(3) [OF gen]
  have "fresh_id r i w"
    using genNextMemberId_fresh(1,2) [OF gen] notin
    by (auto simp: fresh_id_def split: if_splits)
  moreover have alloc: "view (upd_member ?m (\<lambda>mb. mb\<lparr>m_id := i\<rparr>) w1) = view (alloc r c i w)"
    by (auto simp: w1 view_def alloc_def fun_eq_iff room_view_def client_view_def)
  moreover have "view (upd_room r (\<lambda>rm. rm\<lparr>r_members := r_members rm @ [?m]\<rparr>)
      (upd_member ?m (\<lambda>mb. mb\<lparr>m_id := i\<rparr>) w1)) = view (enter r c i w)"
    by (auto simp: w1 view_def enter_def alloc_def fun_eq_iff room_view_def client_view_def)
  ultimately show ?thesis
    using rest notin banned added by (auto simp: Let_def w1 split: if_splits)
qed

lemma room_addMember_total:
  assumes "length (r_members (w_room w r)) < 2 ^ 32 - 1"
  shows "\<exists>res w'. room_addMember r c w = Inr (res, w')"
proof -
  let ?w0 = "w\<lparr>w_member := (w_member w)(w_nextMember w := member_new r c (w_now w)),
     w_nextMember := Suc (w_nextMember w)\<rparr>"
  from assms have "length (r_members (w_room ?w0 r)) < 2 ^ 32 - 1" by simp
  from genNextMemberId_total [OF this] show ?thesis
    unfolding room_addMember_def Let_def by auto
qed

end
