(* ===== verification/Clients.thy ===== *)
theory Clients
  imports Linking
begin

text \<open>
  \<open>client.cpp\<close>: joining and leaving rooms, and what a client does when it is revived,
  disconnected or removed. \<open>chat_ok\<close> is the invariant of the chat side of the server;
  \<open>keeps\<close> says that a change preserves it and leaves the clients manager alone.
\<close>

subsection \<open>Operations of a client\<close>

definition client_getRoomByName :: "'x world \<Rightarrow> client_ptr \<Rightarrow> string \<Rightarrow> room_ptr option" where
  "client_getRoomByName w c nm = find (\<lambda>r. r_name (w_room w r) = nm) (c_rooms (w_client w c))"

definition client_joinRoom ::
    "client_ptr \<Rightarrow> room_ptr \<Rightarrow> 'x world \<Rightarrow> ((ban_exception + member_ptr option) \<times> 'x world) result" where
  "client_joinRoom c r w =
     bindS (room_addMember r c w) (\<lambda>(res, w).
       case res of
         Inr (Some m) \<Rightarrow>
           (let w = upd_client c (\<lambda>cl. cl\<lparr>c_rooms := uset_insert r (c_rooms cl)\<rparr>) w
            in Inr (res, member_setStatus m St_online w))
       | _ \<Rightarrow> Inr (res, w))"

definition client_leaveRoom ::
    "('j, 'x) env \<Rightarrow> client_ptr \<Rightarrow> room_ptr \<Rightarrow> 'x world \<Rightarrow> 'x world result" where
  "client_leaveRoom E c r w =
     (if r \<in> set (c_rooms (w_client w c))
      then room_removeMember E r c
             (upd_client c (\<lambda>cl. cl\<lparr>c_rooms := uset_erase r (c_rooms cl)\<rparr>) w)
      else Inr w)"

definition send_history :: "client_ptr \<Rightarrow> room_ptr \<Rightarrow> 'x world \<Rightarrow> 'x world" where
  "send_history c r w = fold (client_sendRawData c) (r_history (w_room w r)) w"

definition revive_in_room ::
    "('j, 'x) env \<Rightarrow> client_ptr \<Rightarrow> room_ptr \<Rightarrow> 'x world \<Rightarrow> 'x world result" where
  "revive_in_room E c r w =
     bindS (deref (findMemberByClient w r c)) (\<lambda>m.
       (let w = member_setStatus m St_online w;
            w = client_sendPacket E c (join_packet w m None) w;
            w = client_sendPacket E c (online_list_packet w r None) w;
            w = send_history c r w
        in Inr (if m_nick (w_member w m) \<noteq> []
                then sendPacketToAll E r (Packet_Status (status_packet w m St_back [])) w
                else w)))"

definition client_onRevive :: "('j, 'x) env \<Rightarrow> client_ptr \<Rightarrow> 'x world \<Rightarrow> 'x world result" where
  "client_onRevive E c w =
     (let w = upd_client c (\<lambda>cl. cl\<lparr>c_lastPacketTime := w_now w\<rparr>) w
      in iterR (\<lambda>w. c_rooms (w_client w c)) (revive_in_room E c) w)"

definition orphan_in_room ::
    "('j, 'x) env \<Rightarrow> client_ptr \<Rightarrow> room_ptr \<Rightarrow> 'x world \<Rightarrow> 'x world result" where
  "orphan_in_room E c r w =
     bindS (deref (findMemberByClient w r c)) (\<lambda>m.
       (let w = member_setStatus m St_orphan w
        in Inr (if m_nick (w_member w m) \<noteq> []
                then sendPacketToAll E r (Packet_Status (status_packet w m St_orphan [])) w
                else w)))"

definition client_onDisconnect :: "('j, 'x) env \<Rightarrow> client_ptr \<Rightarrow> 'x world \<Rightarrow> 'x world result" where
  "client_onDisconnect E c w =
     (let w = client_setConnection E c None w
      in iterR (\<lambda>w. c_rooms (w_client w c)) (orphan_in_room E c) w)"

definition client_onRemove :: "('j, 'x) env \<Rightarrow> client_ptr \<Rightarrow> 'x world \<Rightarrow> 'x world result" where
  "client_onRemove E c w =
     bindS (iterR (\<lambda>w. c_rooms (w_client w c)) (\<lambda>r. room_removeMember E r c) w) (\<lambda>w.
       (let w = upd_client c (\<lambda>cl. cl\<lparr>c_rooms := []\<rparr>) w
        in Inr (client_setConnection E c None w)))"

text \<open>No loop over the rooms of a client changes the list of its rooms.\<close>

lemma send_history_client: "w_client (send_history c r w) = w_client w" "w_clients (send_history c r w) = w_clients w"
  unfolding send_history_def by (rule fold_invariant_view, simp)+

lemma loops_keep_clients:
  "revive_in_room E c r w = Inr w' \<Longrightarrow> w_client w' = w_client w"
  "orphan_in_room E c r w = Inr w' \<Longrightarrow> w_client w' = w_client w"
  "room_removeMember E r c w = Inr w' \<Longrightarrow> w_client w' = w_client w"
  "orphan_in_room E c r w = Inr w' \<Longrightarrow> w_clients w' = w_clients w"
  by (auto simp: revive_in_room_def orphan_in_room_def room_removeMember_def room_eraseMember_def member_setStatus_def
      send_history_client bindS_Inr_iff Let_def)

lemma client_onRevive_eq:
  "client_onRevive E c w = (let w = upd_client c (\<lambda>cl. cl\<lparr>c_lastPacketTime := w_now w\<rparr>) w
     in foldR (revive_in_room E c) (c_rooms (w_client w c)) w)"
  unfolding client_onRevive_def Let_def by (rule iterR_eq) (simp add: loops_keep_clients)

lemma client_onDisconnect_eq:
  "client_onDisconnect E c w = (let w = client_setConnection E c None w
     in foldR (orphan_in_room E c) (c_rooms (w_client w c)) w)"
  unfolding client_onDisconnect_def Let_def by (rule iterR_eq) (simp add: loops_keep_clients)

lemma client_onRemove_eq:
  "client_onRemove E c w = bindS (foldR (\<lambda>r. room_removeMember E r c) (c_rooms (w_client w c)) w) (\<lambda>w.
     (let w = upd_client c (\<lambda>cl. cl\<lparr>c_rooms := []\<rparr>) w
      in Inr (client_setConnection E c None w)))"
  unfolding client_onRemove_def by (subst iterR_eq) (simp_all add: loops_keep_clients)

lemma client_onDisconnect_clients:
  assumes "client_onDisconnect E c w = Inr w'"
  shows "w_clients w' = w_clients w"
proof -
  have "w_clients w' = w_clients (client_setConnection E c None w)"
    using assms unfolding client_onDisconnect_eq Let_def
    by (rule foldR_invariant [rotated]) (rule loops_keep_clients(4))
  then show ?thesis by (simp add: client_setConnection_def)
qed

subsection \<open>What the clients manager sees\<close>

text \<open>
  The chat side of the server (rooms and packets) never touches connections, addresses,
  tokens and counters; only clients of the manager are in rooms.
\<close>

definition mgr_view ::
  "'x world \<Rightarrow> (client_ptr \<Rightarrow> conn option \<times> string \<times> string) \<times> client_ptr \<times> client_ptr list
     \<times> (conn \<rightharpoonup> client_ptr) \<times> (string \<rightharpoonup> client_ptr) \<times> (string \<times> counter) list" where
  "mgr_view w = ((\<lambda>c. (c_connection (w_client w c), c_lastClientIP (w_client w c), c_token (w_client w c))),
     w_nextClient w, w_clients w, w_connectionToClient w, w_tokenToClient w, w_countersFromIp w)"

definition residents_ok :: "'x world \<Rightarrow> bool" where
  "residents_ok w \<longleftrightarrow> (\<forall>c. c_rooms (w_client w c) \<noteq> [] \<longrightarrow> c \<in> set (w_clients w))"

definition chat_ok :: "'x world \<Rightarrow> bool" where
  "chat_ok w \<longleftrightarrow> linked_ok w \<and> registry_ok w \<and> residents_ok w"

definition keeps :: "'x world \<Rightarrow> 'x world \<Rightarrow> bool" where
  "keeps w w' \<longleftrightarrow> (chat_ok w \<longrightarrow> chat_ok w') \<and> mgr_view w' = mgr_view w"

lemma mgr_view_cong:
  assumes "view w' = view w"
  shows "mgr_view w' = mgr_view w"
  by (simp only: mgr_view_def view_eqD [OF assms])

lemma residents_ok_cong:
  assumes "view w' = view w"
  shows "residents_ok w' = residents_ok w"
  by (simp only: residents_ok_def view_eqD [OF assms])

lemma chat_ok_cong:
  assumes "view w' = view w"
  shows "chat_ok w' = chat_ok w"
  by (simp only: chat_ok_def linked_ok_cong [OF assms] registry_ok_cong [OF assms]
      residents_ok_cong [OF assms])

lemma mgr_view_eqD:
  assumes "mgr_view w' = mgr_view w"
  shows "c_connection (w_client w' c) = c_connection (w_client w c)"
    and "c_lastClientIP (w_client w' c) = c_lastClientIP (w_client w c)"
    and "c_token (w_client w' c) = c_token (w_client w c)"
    and "w_nextClient w' = w_nextClient w" and "w_clients w' = w_clients w"
    and "w_connectionToClient w' = w_connectionToClient w"
    and "w_tokenToClient w' = w_tokenToClient w"
    and "w_countersFromIp w' = w_countersFromIp w"
  using assms by (auto simp: mgr_view_def fun_eq_iff)

lemma keeps_refl [simp]: "keeps w w"
  by (simp add: keeps_def)

lemma keeps_trans: "keeps w w1 \<Longrightarrow> keeps w1 w2 \<Longrightarrow> keeps w w2"
  by (simp add: keeps_def)

lemma keeps_view:
  assumes "view w' = view w"
  shows "keeps w w'"
  by (simp only: keeps_def chat_ok_cong [OF assms] mgr_view_cong [OF assms] simp_thms)

lemma residents_ok_unlink: "residents_ok w \<Longrightarrow> residents_ok (unlink r m c w)"
  unfolding residents_ok_def unlink_sel
  by (cases "c_rooms (w_client w c) = []") (auto simp: uset_erase_def)

lemma mgr_view_unlink: "mgr_view (unlink r m c w) = mgr_view w"
  by (simp add: mgr_view_def unlink_sel)

lemma keeps_unlink:
  assumes "m \<in> set (r_members (w_room w r))" and "m_client (w_member w m) = c"
  shows "keeps w (unlink r m c w)"
  using assms
  by (simp add: keeps_def chat_ok_def linked_ok_unlink registry_ok_unlink residents_ok_unlink
      mgr_view_unlink)

lemma keeps_kickMember:
  assumes "m \<in> set (r_members (w_room w r))"
  shows "keeps w (room_kickMember E r m w)"
  by (rule keeps_trans [OF keeps_unlink [OF assms refl] keeps_view [OF view_room_kickMember]])

lemma keeps_alloc: "keeps w (alloc r c i w)"
  by (simp add: keeps_def chat_ok_def linked_ok_alloc registry_ok_alloc residents_ok_def
      mgr_view_def alloc_sel)

lemma keeps_link:
  assumes "r \<notin> set (c_rooms (w_client w c))" and "fresh_id r i w"
    and "r \<in> set (w_rooms w)" and "c \<in> set (w_clients w)"
  shows "keeps w (link r c i w)"
  using assms
  by (auto simp: keeps_def chat_ok_def linked_ok_link registry_ok_link residents_ok_def
      mgr_view_def link_sel)

lemma chat_okD:
  assumes "chat_ok w"
  shows "members_ok w" and "ids_ok w" and "nicks_ok w" and "linked_ok w" and "names_ok w"
    and "registry_ok w" and "rooms_within (set (w_rooms w)) w" and "residents_ok w"
  using assms by (simp_all add: chat_ok_def linked_ok_def registry_ok_def)

subsection \<open>Joining and leaving\<close>

lemma client_joinRoom_cases:
  assumes "members_ok w" and "client_joinRoom c r w = Inr (res, w')"
  obtains (banned) e i where "res = Inl e" "fresh_id r i w" "view w' = view (alloc r c i w)"
  | (joined) i where "res = Inr (Some (w_nextMember w))" "fresh_id r i w"
      "view w' = view (link r c i w)"
proof -
  from assms(2) obtain res1 w1 where add1: "room_addMember r c w = Inr (res1, w1)"
    and w1: "(case res1 of
         Inr (Some m) \<Rightarrow>
           (let w = upd_client c (\<lambda>cl. cl\<lparr>c_rooms := uset_insert r (c_rooms cl)\<rparr>) w1
            in Inr (res1, member_setStatus m St_online w))
       | _ \<Rightarrow> Inr (res1, w1)) = (Inr (res, w') :: (_ \<times> _) result)"
    unfolding client_joinRoom_def bindS_Inr_iff by auto
  then have "res1 = res" by (auto simp: Let_def split: sum.splits option.splits)
  with add1 have add: "room_addMember r c w = Inr (res, w1)" by simp
  note w' = w1 [unfolded \<open>res1 = res\<close>]
  from assms(1) add show ?thesis
  proof (cases rule: room_addMember_cases)
    case (banned e i)
    with w' that(1) show ?thesis by auto
  next
    case (added i)
    have "view (upd_client c (\<lambda>cl. cl\<lparr>c_rooms := uset_insert r (c_rooms cl)\<rparr>) w1)
        = view (link r c i w)"
      using added(3) view_eqD [OF added(3)]
      by (auto simp: view_def link_def fun_eq_iff client_view_def)
    then have "view w' = view (link r c i w)"
      using w' added(1) by (auto simp: Let_def view_simps)
    with added that(2) show ?thesis by blast
  qed
qed

lemma client_joinRoom_total:
  assumes "length (r_members (w_room w r)) < 2 ^ 32 - 1"
  shows "\<exists>res w'. client_joinRoom c r w = Inr (res, w')"
proof -
  from room_addMember_total [OF assms] obtain res w' where "room_addMember r c w = Inr (res, w')"
    by blast
  then show ?thesis
    by (auto simp: client_joinRoom_def Let_def split: sum.split option.split)
qed

lemma room_addMember_okR: "okR (\<lambda>_. True) (room_addMember r c w)"
  unfolding room_addMember_def genNextMemberId_def Let_def
  by (intro okR_intros) (auto intro!: okR_intros)

lemma client_joinRoom_okR: "okR (\<lambda>_. True) (client_joinRoom c r w)"
  unfolding client_joinRoom_def
  by (intro okR_intros okR_mono [OF room_addMember_okR])
    (auto simp: Let_def split: sum.split option.split)

lemma keeps_joinRoom:
  assumes "chat_ok w" and "client_joinRoom c r w = Inr (res, w')"
    and "r \<notin> set (c_rooms (w_client w c))" and "r \<in> set (w_rooms w)" and "c \<in> set (w_clients w)"
  shows "keeps w w'"
  using chat_okD(1) [OF assms(1)] assms(2)
proof (cases rule: client_joinRoom_cases)
  case (banned e i)
  then show ?thesis by (meson keeps_trans keeps_alloc keeps_view)
next
  case (joined i)
  then show ?thesis using assms by (meson keeps_trans keeps_link keeps_view)
qed

lemma client_leaveRoom_in:
  assumes "members_ok w" and "r \<in> set (c_rooms (w_client w c))"
  obtains m w' where "client_leaveRoom E c r w = Inr w'" "view w' = view (unlink r m c w)"
    "m \<in> set (r_members (w_room w r))" "m_client (w_member w m) = c"
proof -
  obtain m where m: "findMemberByClient w r c = Some m" "m \<in> set (r_members (w_room w r))"
      "m_client (w_member w m) = c"
    using findMemberByClient_in [OF assms] by metis
  have kick: "upd_client c (\<lambda>cl. cl\<lparr>c_rooms := uset_erase r (c_rooms cl)\<rparr>) w = client_onKick c r w"
    by (simp add: client_onKick_def)
  have "findMemberByClient (client_onKick c r w) r c = Some m"
    using m(1) by (simp add: findMemberByClient_def)
  then obtain w' where "room_removeMember E r c (client_onKick c r w) = Inr w'"
      "view w' = view (room_eraseMember r m (client_onKick c r w))"
    by (rule room_removeMember_view)
  with assms(2) m show ?thesis
    by (intro that [of w' m]) (simp_all add: client_leaveRoom_def kick unlink_def)
qed

lemma client_leaveRoom_notin:
  "r \<notin> set (c_rooms (w_client w c)) \<Longrightarrow> client_leaveRoom E c r w = Inr w"
  by (simp add: client_leaveRoom_def)

lemma client_leaveRoom_ok:
  assumes "members_ok w"
  obtains w' where "client_leaveRoom E c r w = Inr w'" "keeps w w'"
    "\<And>d. c_rooms (w_client w' d) =
       (if d = c then uset_erase r (c_rooms (w_client w c)) else c_rooms (w_client w d))"
    "\<And>q. set (r_members (w_room w' q)) =
       set (r_members (w_room w q)) - {m. q = r \<and> m_client (w_member w m) = c}"
    "\<And>m. m_client (w_member w' m) = m_client (w_member w m)"
    "w_rooms w' = w_rooms w"
proof (cases "r \<in> set (c_rooms (w_client w c))")
  case True
  from client_leaveRoom_in [OF assms True] obtain m w' where
    w': "client_leaveRoom E c r w = Inr w'" "view w' = view (unlink r m c w)"
    and m: "m \<in> set (r_members (w_room w r))" "m_client (w_member w m) = c" by metis
  note v = view_eqD [OF w'(2)]
  have uniq: "k = m" if "k \<in> set (r_members (w_room w r))" "m_client (w_member w k) = c" for k
    using members_okD(7) [OF assms that(1) m(1)] that m by simp
  have "set (r_members (w_room w' q)) =
       set (r_members (w_room w q)) - {m. q = r \<and> m_client (w_member w m) = c}" for q
    using m by (auto simp: v unlink_sel dest: uniq)
  moreover have "keeps w w'" by (meson keeps_trans keeps_unlink [OF m] keeps_view w'(2))
  ultimately show ?thesis
    using w'(1) by (intro that [of w']) (simp_all add: v unlink_sel)
next
  case False
  have "set (r_members (w_room w q)) =
       set (r_members (w_room w q)) - {m. q = r \<and> m_client (w_member w m) = c}" for q
    using False members_okD(4) [OF assms] by blast
  with False show ?thesis by (intro that [of w]) (simp_all add: client_leaveRoom_def)
qed

lemma findMemberByClient_not_None:
  "members_ok w \<Longrightarrow> r \<in> set (c_rooms (w_client w c)) \<Longrightarrow> findMemberByClient w r c \<noteq> None"
  by (metis findMemberByClient_in option.distinct(1))

subsection \<open>Revival and disconnection do not change the structure\<close>

lemma view_send_history [view_simps]: "view (send_history c r w) = view w"
  unfolding send_history_def by (rule fold_invariant_view) (rule view_client_sendRawData)

lemma revive_in_room_view: "revive_in_room E c r w = Inr w' \<Longrightarrow> view w' = view w"
  by (auto simp: revive_in_room_def bindS_Inr_iff Let_def view_simps)

lemma orphan_in_room_view: "orphan_in_room E c r w = Inr w' \<Longrightarrow> view w' = view w"
  by (auto simp: orphan_in_room_def bindS_Inr_iff Let_def view_simps)

lemma loop_in_rooms_total:
  assumes "members_ok w"
    and step: "\<And>r w. r \<in> set rs \<Longrightarrow> findMemberByClient w r c \<noteq> None \<Longrightarrow> \<exists>w'. f r w = Inr w'"
    and view: "\<And>r w w'. f r w = Inr w' \<Longrightarrow> view w' = view w"
    and "set rs \<subseteq> set (c_rooms (w_client w c))"
  shows "\<exists>w'. foldR f rs w = Inr w' \<and> view w' = view w"
  using assms(1,4) step
proof (induction rs arbitrary: w)
  case (Cons r rs)
  then have "findMemberByClient w r c \<noteq> None"
    by (intro findMemberByClient_not_None) auto
  with Cons.prems(3) obtain w1 where w1: "f r w = Inr w1" by fastforce
  note v = view [OF w1]
  have "\<exists>w'. foldR f rs w1 = Inr w' \<and> view w' = view w1"
  proof (rule Cons.IH)
    show "members_ok w1" using Cons.prems(1) by (simp add: members_ok_cong [OF v])
    show "set rs \<subseteq> set (c_rooms (w_client w1 c))" using Cons.prems(2) by (simp add: view_eqD [OF v])
  qed (use Cons.prems(3) in simp)
  with w1 v show ?case by auto
qed simp

lemma client_onRevive_total:
  assumes "members_ok w"
  shows "\<exists>w'. client_onRevive E c w = Inr w' \<and> view w' = view w"
proof -
  let ?w = "upd_client c (\<lambda>cl. cl\<lparr>c_lastPacketTime := w_now w\<rparr>) w"
  have v: "view ?w = view w" by (simp add: view_upd_client client_view_def)
  have "\<exists>w'. foldR (revive_in_room E c) (c_rooms (w_client ?w c)) ?w = Inr w' \<and> view w' = view ?w"
    by (rule loop_in_rooms_total)
      (use assms in \<open>auto simp: members_ok_cong [OF v] revive_in_room_def Let_def
         intro: revive_in_room_view\<close>)
  then show ?thesis by (simp add: client_onRevive_eq v)
qed

lemma client_setConnection_sel:
  "c_rooms (w_client (client_setConnection E c cn w) d) = c_rooms (w_client w d)"
  "c_connection (w_client (client_setConnection E c cn w) d) =
     (if d = c then cn else c_connection (w_client w d))"
  "c_lastClientIP (w_client (client_setConnection E c cn w) d) =
     (if d = c \<and> cn \<noteq> None then getRealClientIp E (the cn) else c_lastClientIP (w_client w d))"
  "c_token (w_client (client_setConnection E c cn w) d) = c_token (w_client w d)"
  "w_member (client_setConnection E c cn w) = w_member w"
  "w_room (client_setConnection E c cn w) = w_room w"
  "w_rooms (client_setConnection E c cn w) = w_rooms w"
  "w_clients (client_setConnection E c cn w) = w_clients w"
  "w_nextMember (client_setConnection E c cn w) = w_nextMember w"
  "w_nextRoom (client_setConnection E c cn w) = w_nextRoom w"
  "w_nextClient (client_setConnection E c cn w) = w_nextClient w"
  "w_connectionToClient (client_setConnection E c cn w) = w_connectionToClient w"
  "w_tokenToClient (client_setConnection E c cn w) = w_tokenToClient w"
  "w_countersFromIp (client_setConnection E c cn w) = w_countersFromIp w"
  by (auto simp: client_setConnection_def Let_def split: option.split)

lemma chat_ok_setConnection: "chat_ok (client_setConnection E c cn w) = chat_ok w"
  by (simp add: chat_ok_def linked_ok_def members_ok_def ids_ok_def nicks_ok_def registry_ok_def
      names_ok_def rooms_within_def residents_ok_def client_setConnection_sel)

lemma client_onDisconnect_total:
  assumes "chat_ok w"
  shows "\<exists>w'. client_onDisconnect E c w = Inr w' \<and> view w' = view (client_setConnection E c None w)"
proof -
  let ?w = "client_setConnection E c None w"
  have "members_ok ?w" using assms chat_ok_setConnection chat_okD(1) by metis
  then have "\<exists>w'. foldR (orphan_in_room E c) (c_rooms (w_client ?w c)) ?w = Inr w' \<and> view w' = view ?w"
    by (rule loop_in_rooms_total) (auto simp: orphan_in_room_def Let_def intro: orphan_in_room_view)
  then show ?thesis by (simp add: client_onDisconnect_eq Let_def)
qed

subsection \<open>Removing a client\<close>

text \<open>
  \<open>onRemove\<close> takes the client out of the members of every room first and clears the
  client's own set of rooms at the end. In between the invariant holds of the world in
  which the rooms already done are hidden from that set.
\<close>

definition hide :: "client_ptr \<Rightarrow> room_ptr set \<Rightarrow> 'x world \<Rightarrow> 'x world" where
  "hide c D w = upd_client c (\<lambda>cl. cl\<lparr>c_rooms := filter (\<lambda>r. r \<notin> D) (c_rooms cl)\<rparr>) w"

lemma hide_empty: "view (hide c {} w) = view w"
  by (simp add: hide_def view_upd_client client_view_def)

lemma hide_step:
  assumes "view w1 = view (room_eraseMember r m w)"
  shows "view (hide c (insert r D) w1) = view (unlink r m c (hide c D w))"
  using assms view_eqD [OF assms]
  by (auto simp: view_def hide_def unlink_def client_onKick_def room_eraseMember_def fun_eq_iff
      client_view_def uset_erase_def intro: filter_cong)

lemma room_eraseMember_sel [simp]:
  "w_client (room_eraseMember r m w) = w_client w"
  "w_member (room_eraseMember r m w) = w_member w"
  "w_rooms (room_eraseMember r m w) = w_rooms w"
  "w_clients (room_eraseMember r m w) = w_clients w"
  by (simp_all add: room_eraseMember_def)

lemma mgr_view_eraseMember: "mgr_view (room_eraseMember r m w) = mgr_view w"
  by (simp add: mgr_view_def room_eraseMember_def)

text \<open>
  \<open>onRemove\<close> runs after the manager has forgotten the client, so it can rely only on
  the part of the invariant that does not mention the manager.
\<close>

definition rooms_ok :: "'x world \<Rightarrow> bool" where
  "rooms_ok w \<longleftrightarrow> linked_ok w \<and> registry_ok w"

lemma rooms_okD:
  assumes "rooms_ok w"
  shows "members_ok w" and "linked_ok w" and "registry_ok w"
  using assms by (simp_all add: rooms_ok_def linked_ok_def)

lemma chat_ok_iff: "chat_ok w \<longleftrightarrow> rooms_ok w \<and> residents_ok w"
  by (simp add: chat_ok_def rooms_ok_def)

lemma rooms_ok_cong:
  assumes "view w' = view w"
  shows "rooms_ok w' = rooms_ok w"
  by (simp only: rooms_ok_def linked_ok_cong [OF assms] registry_ok_cong [OF assms])

lemma rooms_ok_unlink:
  "rooms_ok w \<Longrightarrow> m \<in> set (r_members (w_room w r)) \<Longrightarrow> m_client (w_member w m) = c \<Longrightarrow>
     rooms_ok (unlink r m c w)"
  by (simp add: rooms_ok_def linked_ok_unlink registry_ok_unlink)

lemma rooms_ok_setConnection: "rooms_ok (client_setConnection E c cn w) = rooms_ok w"
  by (simp add: rooms_ok_def linked_ok_def members_ok_def ids_ok_def nicks_ok_def registry_ok_def
      names_ok_def rooms_within_def client_setConnection_sel)

lemma client_onRemove_loop:
  assumes "rooms_ok (hide c D w)" and "distinct rs" and "set rs \<inter> D = {}"
    and "set rs \<subseteq> set (c_rooms (w_client w c))"
  shows "\<exists>w'. foldR (\<lambda>r. room_removeMember E r c) rs w = Inr w' \<and> rooms_ok (hide c (D \<union> set rs) w')
    \<and> mgr_view w' = mgr_view w \<and> (\<forall>d. c_rooms (w_client w' d) = c_rooms (w_client w d))"
  using assms
proof (induction rs arbitrary: D w)
  case (Cons r rs)
  let ?h = "hide c D w"
  have "r \<in> set (c_rooms (w_client ?h c))" using Cons.prems by (simp add: hide_def)
  from findMemberByClient_in [OF rooms_okD(1) [OF Cons.prems(1)] this] obtain m
    where fm: "findMemberByClient ?h r c = Some m"
    and mh: "m \<in> set (r_members (w_room ?h r))" "m_client (w_member ?h m) = c" by metis
  from fm have "findMemberByClient w r c = Some m" by (simp add: findMemberByClient_def hide_def)
  then obtain w1 where w1: "room_removeMember E r c w = Inr w1"
      and v1: "view w1 = view (room_eraseMember r m w)"
    by (rule room_removeMember_view)
  have "rooms_ok (unlink r m c ?h)" by (rule rooms_ok_unlink [OF Cons.prems(1) mh])
  then have ok1: "rooms_ok (hide c (insert r D) w1)"
    by (simp add: rooms_ok_cong [OF hide_step [OF v1]])
  have rooms1: "c_rooms (w_client w1 d) = c_rooms (w_client w d)" for d
    by (simp add: view_eqD [OF v1])
  have mgr1: "mgr_view w1 = mgr_view w"
    by (simp add: mgr_view_cong [OF v1] mgr_view_eraseMember)
  have "\<exists>w'. foldR (\<lambda>r. room_removeMember E r c) rs w1 = Inr w'
      \<and> rooms_ok (hide c (insert r D \<union> set rs) w') \<and> mgr_view w' = mgr_view w1
      \<and> (\<forall>d. c_rooms (w_client w' d) = c_rooms (w_client w1 d))"
    using Cons.prems by (intro Cons.IH [OF ok1]) (auto simp: rooms1)
  with w1 mgr1 rooms1 show ?case by auto
qed simp

lemma client_onRemove_total:
  assumes "rooms_ok w"
  shows "\<exists>w'. client_onRemove E c w = Inr w' \<and> rooms_ok w'
    \<and> mgr_view w' = mgr_view (client_setConnection E c None w)
    \<and> (\<forall>d. c_rooms (w_client w' d) = (if d = c then [] else c_rooms (w_client w d)))"
proof -
  let ?rs = "c_rooms (w_client w c)"
  have "rooms_ok (hide c {} w)" using assms by (simp add: rooms_ok_cong [OF hide_empty])
  moreover have "distinct ?rs" using rooms_okD(1) [OF assms] by (rule members_okD(1))
  ultimately obtain w1 where w1: "foldR (\<lambda>r. room_removeMember E r c) ?rs w = Inr w1"
    and ok1: "rooms_ok (hide c (set ?rs) w1)" and mgr1: "mgr_view w1 = mgr_view w"
    and rooms1: "\<And>d. c_rooms (w_client w1 d) = c_rooms (w_client w d)"
    using client_onRemove_loop [of c "{}" w ?rs E] by auto
  let ?w2 = "upd_client c (\<lambda>cl. cl\<lparr>c_rooms := []\<rparr>) w1"
  have "view ?w2 = view (hide c (set ?rs) w1)"
    by (auto simp: view_def hide_def fun_eq_iff client_view_def rooms1)
  then have "rooms_ok (client_setConnection E c None ?w2)"
    using ok1 by (simp add: rooms_ok_setConnection rooms_ok_cong [of ?w2])
  moreover have "client_onRemove E c w = Inr (client_setConnection E c None ?w2)"
    by (simp add: client_onRemove_eq w1 Let_def)
  moreover have "mgr_view (client_setConnection E c None ?w2) = mgr_view (client_setConnection E c None w)"
    using mgr_view_eqD [OF mgr1]
    by (auto simp: mgr_view_def client_setConnection_sel fun_eq_iff)
  moreover have "\<forall>d. c_rooms (w_client (client_setConnection E c None ?w2) d) =
      (if d = c then [] else c_rooms (w_client w d))"
    by (simp add: client_setConnection_sel rooms1)
  ultimately show ?thesis by blast
qed

end
