(* ===== verification/Registry.thy ===== *)
theory Registry
  imports Clients
begin

text \<open>
  The registry of rooms of \<open>server.cpp\<close>: \<open>createRoom\<close>, \<open>removeRoom\<close> and
  \<open>getRoomByName\<close>, with \<open>Room::onDestroy\<close>, which makes every member leave. Names
  stay unique and no client is left in a room that is gone.
\<close>

subsection \<open>The registry of rooms\<close>

definition server_getRoomByName :: "'x world \<Rightarrow> string \<Rightarrow> room_ptr option" where
  "server_getRoomByName w nm = find (\<lambda>r. r_name (w_room w r) = nm) (w_rooms w)"

definition room_onCreate :: "room_ptr \<Rightarrow> 'x world \<Rightarrow> 'x world" where
  "room_onCreate r w = w"

declare room_onCreate_def [simp]

definition server_createRoom :: "string \<Rightarrow> 'x world \<Rightarrow> room_ptr option \<times> 'x world" where
  "server_createRoom nm w = (case server_getRoomByName w nm of
       Some _ \<Rightarrow> (None, w)
     | None \<Rightarrow>
         (let r = w_nextRoom w
          in (Some r, room_onCreate r (w\<lparr>w_room := (w_room w)(r := room_setName nm room_new),
                w_rooms := uset_insert r (w_rooms w), w_nextRoom := Suc r\<rparr>))))"

definition room_onDestroy :: "('j, 'x) env \<Rightarrow> room_ptr \<Rightarrow> 'x world \<Rightarrow> 'x world result" where
  "room_onDestroy E r w =
     foldR (\<lambda>m w.
        (let c = m_client (w_member w m)
         in bindS (client_leaveRoom E c r w) (\<lambda>w.
              Inr (client_sendPacket E c (leave_packet (r_name (w_room w r))) w))))
       (r_members (w_room w r)) w"

definition server_removeRoom :: "('j, 'x) env \<Rightarrow> string \<Rightarrow> 'x world \<Rightarrow> (bool \<times> 'x world) result" where
  "server_removeRoom E nm w = (case server_getRoomByName w nm of
       None \<Rightarrow> Inr (False, w)
     | Some r \<Rightarrow> bindS (room_onDestroy E r (w\<lparr>w_rooms := uset_erase r (w_rooms w)\<rparr>))
                   (\<lambda>w. Inr (True, w)))"

subsection \<open>Looking a room up\<close>

lemma server_getRoomByName_Some:
  "server_getRoomByName w nm = Some r \<Longrightarrow> r \<in> set (w_rooms w) \<and> r_name (w_room w r) = nm"
  unfolding server_getRoomByName_def by (drule find_SomeD) simp

lemma server_getRoomByName_None:
  "server_getRoomByName w nm = None \<Longrightarrow> r \<in> set (w_rooms w) \<Longrightarrow> r_name (w_room w r) \<noteq> nm"
  unfolding server_getRoomByName_def by (drule find_NoneD) simp_all

lemma client_getRoomByName_Some:
  "client_getRoomByName w c nm = Some r \<Longrightarrow>
     r \<in> set (c_rooms (w_client w c)) \<and> r_name (w_room w r) = nm"
  unfolding client_getRoomByName_def by (drule find_SomeD) simp

lemma client_getRoomByName_None:
  "client_getRoomByName w c nm = None \<Longrightarrow> r \<in> set (c_rooms (w_client w c)) \<Longrightarrow>
     r_name (w_room w r) \<noteq> nm"
  unfolding client_getRoomByName_def by (drule find_NoneD) simp_all

lemma server_getRoomByName_iff:
  assumes "names_ok w" and "r \<in> set (w_rooms w)"
  shows "server_getRoomByName w (r_name (w_room w r)) = Some r"
  unfolding server_getRoomByName_def
  using assms by (intro find_Some_unique) (auto simp: names_ok_def inj_on_def)

subsection \<open>Creating a room\<close>

lemma no_members_unregistered:
  assumes "chat_ok w" and "r \<notin> set (w_rooms w)"
  shows "r_members (w_room w r) = []"
proof (rule ccontr)
  assume "r_members (w_room w r) \<noteq> []"
  then obtain m where "m \<in> set (r_members (w_room w r))" by (meson last_in_set)
  then have "r \<in> set (c_rooms (w_client w (m_client (w_member w m))))"
    using members_okD(4) [OF chat_okD(1) [OF assms(1)]] by blast
  with assms chat_okD(7) [OF assms(1)] show False by (auto simp: rooms_within_def)
qed

lemma server_createRoom_Some:
  assumes "server_getRoomByName w nm = None"
  shows "server_createRoom nm w = (Some (w_nextRoom w),
     w\<lparr>w_room := (w_room w)(w_nextRoom w := room_setName nm room_new),
       w_rooms := uset_insert (w_nextRoom w) (w_rooms w), w_nextRoom := Suc (w_nextRoom w)\<rparr>)"
  by (simp add: server_createRoom_def assms Let_def)

lemma keeps_createRoom:
  assumes "chat_ok w"
  shows "keeps w (snd (server_createRoom nm w))"
proof (cases "server_getRoomByName w nm")
  case (Some r)
  then show ?thesis by (simp add: server_createRoom_def)
next
  case None
  let ?r = "w_nextRoom w"
  let ?w = "snd (server_createRoom nm w)"
  note w' = server_createRoom_Some [OF None]
  have fresh: "?r \<notin> set (w_rooms w)"
    using chat_okD(5) [OF assms] by (auto simp: names_ok_def)
  have no: "r_members (w_room w ?r) = []" by (rule no_members_unregistered [OF assms fresh])
  have mem: "r_members (w_room ?w q) = r_members (w_room w q)" for q
    by (simp add: w' no room_setName_def room_new_def)
  have sel: "w_client ?w = w_client w" "w_member ?w = w_member w" "w_nextMember ?w = w_nextMember w"
    "w_clients ?w = w_clients w"
    by (simp_all add: w')
  have "linked_ok ?w"
    using chat_okD(4) [OF assms]
    by (simp add: linked_ok_def members_ok_def ids_ok_def nicks_ok_def mem sel)
  moreover have "names_ok ?w"
    using chat_okD(5) [OF assms] server_getRoomByName_None [OF None] fresh
    by (auto simp: names_ok_def w' inj_on_def room_setName_def room_new_def less_SucI)
  moreover have "rooms_within (set (w_rooms ?w)) ?w"
    using chat_okD(7) [OF assms] by (auto simp: rooms_within_def w')
  moreover have "residents_ok ?w" using chat_okD(8) [OF assms] by (simp add: residents_ok_def sel)
  moreover have "mgr_view ?w = mgr_view w" by (simp add: mgr_view_def w')
  ultimately show ?thesis by (simp add: keeps_def chat_ok_def registry_ok_def)
qed

subsection \<open>Removing a room\<close>

lemma room_onDestroy_loop:
  fixes r E
  defines "body \<equiv> \<lambda>m w. (let c = m_client (w_member w m)
         in bindS (client_leaveRoom E c r w) (\<lambda>w.
              Inr (client_sendPacket E c (leave_packet (r_name (w_room w r))) w)))"
  assumes "linked_ok w" and "rooms_within A w" and "residents_ok w" and "names_ok w"
    and "r_members (w_room w r) = ms"
  shows "\<exists>w'. foldR body ms w = Inr w' \<and> linked_ok w' \<and> rooms_within A w' \<and> residents_ok w'
    \<and> names_ok w' \<and> r_members (w_room w' r) = [] \<and> mgr_view w' = mgr_view w
    \<and> w_rooms w' = w_rooms w \<and> (\<forall>q. r_name (w_room w' q) = r_name (w_room w q))"
  using assms(2-)
proof (induction ms arbitrary: w)
  case (Cons m ms)
  let ?c = "m_client (w_member w m)"
  have ok: "members_ok w" using Cons.prems(1) by (simp add: linked_ok_def)
  have m: "m \<in> set (r_members (w_room w r))" using Cons.prems(5) by simp
  have "r \<in> set (c_rooms (w_client w ?c))" by (rule members_okD(4) [OF ok m])
  from client_leaveRoom_in [OF ok this] obtain k w1 where
    w1: "client_leaveRoom E ?c r w = Inr w1" "view w1 = view (unlink r k ?c w)"
    and k: "k \<in> set (r_members (w_room w r))" "m_client (w_member w k) = ?c" by metis
  have km: "k = m" using members_okD(7) [OF ok k(1) m k(2)] .
  let ?w2 = "client_sendPacket E ?c (leave_packet (r_name (w_room w1 r))) w1"
  have v1: "view w1 = view (unlink r m ?c w)" using w1(2) km by simp
  then have v: "view ?w2 = view (unlink r m ?c w)" by (simp add: view_simps)
  have "distinct (m # ms)" using members_okD(6) [OF ok, of r] Cons.prems(5) by simp
  then have mem2: "r_members (w_room ?w2 r) = ms"
    using Cons.prems(5) by (auto simp: view_eqD [OF v1] unlink_sel uset_erase_def filter_id_conv)
  have "\<exists>w'. foldR body ms ?w2 = Inr w' \<and> linked_ok w' \<and> rooms_within A w' \<and> residents_ok w'
    \<and> names_ok w' \<and> r_members (w_room w' r) = [] \<and> mgr_view w' = mgr_view ?w2
    \<and> w_rooms w' = w_rooms ?w2 \<and> (\<forall>q. r_name (w_room w' q) = r_name (w_room ?w2 q))"
  proof (rule Cons.IH)
    show "linked_ok ?w2"
      using linked_ok_unlink [OF Cons.prems(1) m refl] by (simp add: linked_ok_cong [OF v])
    show "rooms_within A ?w2"
      using rooms_within_unlink [OF Cons.prems(2)] by (simp add: rooms_within_cong [OF v])
    show "residents_ok ?w2"
      using residents_ok_unlink [OF Cons.prems(3)] by (simp add: residents_ok_cong [OF v])
    show "names_ok ?w2" using Cons.prems(4) by (simp add: names_ok_cong [OF v] names_ok_unlink)
  qed (rule mem2)
  moreover have "body m w = Inr ?w2" by (simp add: body_def Let_def w1)
  moreover have "mgr_view ?w2 = mgr_view w" by (simp add: mgr_view_cong [OF v] mgr_view_unlink)
  moreover have "w_rooms ?w2 = w_rooms w" "\<And>q. r_name (w_room ?w2 q) = r_name (w_room w q)"
    by (simp_all add: view_eqD [OF v1] unlink_sel)
  ultimately show ?case by auto
qed simp

text \<open>A removed room is out of the registry, and nobody is in it any more.\<close>

lemma server_removeRoom_found:
  assumes "chat_ok w" and "server_getRoomByName w nm = Some r"
  shows "\<exists>w'. server_removeRoom E nm w = Inr (True, w') \<and> keeps w w'
    \<and> w_rooms w' = uset_erase r (w_rooms w) \<and> r_members (w_room w' r) = []
    \<and> (\<forall>q. r_name (w_room w' q) = r_name (w_room w q))"
proof -
  let ?w = "w\<lparr>w_rooms := uset_erase r (w_rooms w)\<rparr>"
  have "linked_ok ?w"
    using chat_okD(4) [OF assms(1)]
    by (simp add: linked_ok_def members_ok_def ids_ok_def nicks_ok_def)
  moreover have "rooms_within (insert r (set (w_rooms ?w))) ?w"
    using chat_okD(7) [OF assms(1)] by (auto simp: rooms_within_def)
  moreover have "residents_ok ?w" using chat_okD(8) [OF assms(1)] by (simp add: residents_ok_def)
  moreover have "names_ok ?w"
    using chat_okD(5) [OF assms(1)] by (auto simp: names_ok_def inj_on_def)
  ultimately obtain w' where w': "room_onDestroy E r ?w = Inr w'" and ok: "linked_ok w'"
    and within: "rooms_within (insert r (set (w_rooms ?w))) w'" and res: "residents_ok w'"
    and names: "names_ok w'" and none: "r_members (w_room w' r) = []"
    and mgr: "mgr_view w' = mgr_view ?w" and rooms: "w_rooms w' = w_rooms ?w"
    and nm: "\<And>q. r_name (w_room w' q) = r_name (w_room ?w q)"
    unfolding room_onDestroy_def using room_onDestroy_loop [of ?w] by blast
  have "r \<notin> set (c_rooms (w_client w' c))" for c
    using members_okD(2) [of w' r c] ok none by (auto simp: linked_ok_def)
  with within have "rooms_within (set (w_rooms w')) w'" by (auto simp: rooms_within_def rooms)
  with ok res names have "chat_ok w'" by (simp add: chat_ok_def registry_ok_def)
  moreover have "mgr_view w' = mgr_view w" by (simp add: mgr) (simp add: mgr_view_def)
  ultimately show ?thesis
    using none by (simp add: server_removeRoom_def assms(2) w' keeps_def rooms nm)
qed

lemma server_removeRoom_total:
  assumes "chat_ok w"
  shows "\<exists>b w'. server_removeRoom E nm w = Inr (b, w') \<and> keeps w w'"
  using server_removeRoom_found [OF assms, of nm _ E]
  by (cases "server_getRoomByName w nm") (auto simp: server_removeRoom_def)

lemma server_removeRoom_gone:
  assumes "chat_ok w" and "server_removeRoom E nm w = Inr (b, w')"
  shows "server_getRoomByName w' nm = None"
proof (cases "server_getRoomByName w nm")
  case None
  with assms(2) show ?thesis by (simp add: server_removeRoom_def)
next
  case (Some r)
  with server_removeRoom_found [OF assms(1) Some, of E] assms(2)
  have rooms: "w_rooms w' = uset_erase r (w_rooms w)"
    and nm: "\<And>q. r_name (w_room w' q) = r_name (w_room w q)" by auto
  have "q \<in> set (w_rooms w) \<Longrightarrow> r_name (w_room w q) = nm \<Longrightarrow> q = r" for q
    using server_getRoomByName_iff [OF chat_okD(5) [OF assms(1)], of q] Some by simp
  then show ?thesis
    unfolding server_getRoomByName_def by (auto simp: find_None_iff rooms nm)
qed

end
