(* ===== verification/Manager.thy ===== *)
theory Manager
  imports Registry
begin

text \<open>
  \<open>src/clients_manager.hpp\<close> and the key generator of \<open>utils.hpp\<close>: the clients, the
  maps from connections and tokens to them, and the counters per address. The counters
  are exact: an address has an entry just when it has a client, and the entry counts its
  clients and its connections.
\<close>

subsection \<open>Keys\<close>

definition key_alphabet :: string where
  "key_alphabet = ''abcdefghijklmnopqrstuvwxyzABCDEFGHIJKLMNOPQRSTUVWXYZ1234567890''"

text \<open>The bounds of the distribution that the constructor of \<open>Keygen\<close> makes.\<close>

definition keygen_distribution :: "nat \<times> nat" where
  "keygen_distribution = (0, length key_alphabet - 1)"

definition keygen_generate :: "('j, 'x) env \<Rightarrow> nat \<Rightarrow> nat \<Rightarrow> string" where
  "keygen_generate E len pos = map (\<lambda>i. key_alphabet ! e_random E keygen_distribution (pos + i)) [0..<len]"

text \<open>As the random numbers keep to their bounds, a key is made of characters of the alphabet.\<close>

definition random_laws :: "('j, 'x) env \<Rightarrow> bool" where
  "random_laws E \<longleftrightarrow> (\<forall>lo hi k. lo \<le> hi \<longrightarrow> lo \<le> e_random E (lo, hi) k \<and> e_random E (lo, hi) k \<le> hi)"

lemma keygen_in_alphabet:
  assumes "random_laws E"
  shows "set (keygen_generate E len pos) \<subseteq> set key_alphabet"
proof -
  have "e_random E keygen_distribution k < length key_alphabet" for k
  proof -
    have "e_random E keygen_distribution k \<le> length key_alphabet - 1"
      using assms by (simp add: random_laws_def keygen_distribution_def)
    moreover have "0 < length key_alphabet" by (simp add: key_alphabet_def)
    ultimately show ?thesis by linarith
  qed
  then show ?thesis by (auto simp: keygen_generate_def)
qed

definition tokenLength :: nat where
  "tokenLength = 64"

partial_function (option) draw_token ::
    "('j, 'x) env \<Rightarrow> (string \<Rightarrow> bool) \<Rightarrow> nat \<Rightarrow> (string \<times> nat) option" where
  "draw_token E used pos =
     (let token = keygen_generate E tokenLength pos; pos = pos + tokenLength
      in if used token then draw_token E used pos else Some (token, pos))"

declare draw_token.simps [code]

subsection \<open>Counters\<close>

definition zero_counter :: counter where
  "zero_counter = \<lparr>ct_connections = 0, ct_clients = 0\<rparr>"

definition counter_at :: "string \<Rightarrow> (string \<times> counter) list \<Rightarrow> counter" where
  "counter_at ip cs = (case map_of cs ip of None \<Rightarrow> zero_counter | Some ct \<Rightarrow> ct)"

text \<open>\<open>countersFromIp[ip]\<close> makes an entry of zeros when there is none.\<close>

definition getCounterFromIp :: "string \<Rightarrow> 'x world \<Rightarrow> counter \<times> 'x world" where
  "getCounterFromIp ip w = (case map_of (w_countersFromIp w) ip of
       Some ct \<Rightarrow> (ct, w)
     | None \<Rightarrow> (zero_counter,
         w\<lparr>w_countersFromIp := AList.update ip zero_counter (w_countersFromIp w)\<rparr>))"

datatype counter_field = Connections | Clients

definition counters_increment :: "string \<Rightarrow> (string \<times> counter) list \<Rightarrow> (string \<times> counter) list" where
  "counters_increment ip cs =
     (let ct = counter_at ip cs
      in AList.update ip (ct\<lparr>ct_clients := ct_clients ct + 1,
                            ct_connections := ct_connections ct + 1\<rparr>) cs)"

definition counters_decrement ::
    "string \<Rightarrow> counter_field \<Rightarrow> (string \<times> counter) list \<Rightarrow> (string \<times> counter) list" where
  "counters_decrement ip fld cs =
     (let ct = counter_at ip cs;
          ct = (case fld of
                  Connections \<Rightarrow> ct\<lparr>ct_connections := max 0 (ct_connections ct - 1)\<rparr>
                | Clients \<Rightarrow> ct\<lparr>ct_clients := max 0 (ct_clients ct - 1)\<rparr>)
      in if ct_connections ct \<le> 0 \<and> ct_clients ct \<le> 0 then AList.delete ip cs
         else AList.update ip ct cs)"

definition decrementForIp :: "string \<Rightarrow> counter_field \<Rightarrow> 'x world \<Rightarrow> 'x world" where
  "decrementForIp ip fld w =
     w\<lparr>w_countersFromIp := counters_decrement ip fld (w_countersFromIp w)\<rparr>"

subsection \<open>Operations of the manager\<close>

definition findClientByConnection :: "'x world \<Rightarrow> conn \<Rightarrow> client_ptr option" where
  "findClientByConnection w cn = w_connectionToClient w cn"

definition findClientByToken :: "'x world \<Rightarrow> string \<Rightarrow> client_ptr option" where
  "findClientByToken w tok = w_tokenToClient w tok"

definition findFirstClient :: "'x world \<Rightarrow> (client_ptr \<Rightarrow> bool) \<Rightarrow> client_ptr option" where
  "findFirstClient w f = find f (w_clients w)"

definition manager_connect :: "('j, 'x) env \<Rightarrow> conn \<Rightarrow> 'x world \<Rightarrow> 'x world result" where
  "manager_connect E cn w =
     bindS (returned (draw_token E (\<lambda>t. w_tokenToClient w t \<noteq> None) (w_random w))) (\<lambda>(token, pos).
       (let c = w_nextClient w;
            w = w\<lparr>w_random := pos, w_nextClient := Suc c,
                  w_client := (w_client w)(c := client_new token (w_now w))\<rparr>;
            w = client_setConnection E c (Some cn) w;
            ip = c_lastClientIP (w_client w c)
        in Inr (w\<lparr>w_clients := w_clients w @ [c],
                  w_connectionToClient := (w_connectionToClient w)(cn \<mapsto> c),
                  w_tokenToClient := (w_tokenToClient w)(token \<mapsto> c),
                  w_countersFromIp := counters_increment ip (w_countersFromIp w)\<rparr>)))"

definition eraseConnection :: "conn \<Rightarrow> 'x world \<Rightarrow> 'x world" where
  "eraseConnection cn w = w\<lparr>w_connectionToClient := (w_connectionToClient w)(cn := None)\<rparr>"

definition makeOrphan :: "('j, 'x) env \<Rightarrow> client_ptr \<Rightarrow> 'x world \<Rightarrow> 'x world result" where
  "makeOrphan E c w = (case c_connection (w_client w c) of
       None \<Rightarrow> Inr w
     | Some cn \<Rightarrow>
         if w_connectionToClient w cn = None then Inr w
         else client_onDisconnect E c
                (decrementForIp (c_lastClientIP (w_client w c)) Connections (eraseConnection cn w)))"

lemma makeOrphan_clients: "makeOrphan E c w = Inr w' \<Longrightarrow> w_clients w' = w_clients w"
  by (auto simp: makeOrphan_def decrementForIp_def eraseConnection_def dest!: client_onDisconnect_clients
      split: option.splits if_splits)

definition makeOrphanConnection :: "('j, 'x) env \<Rightarrow> conn \<Rightarrow> 'x world \<Rightarrow> (bool \<times> 'x world) result" where
  "makeOrphanConnection E cn w = (case findClientByConnection w cn of
       None \<Rightarrow> Inr (False, w)
     | Some c \<Rightarrow> bindS (makeOrphan E c w) (\<lambda>w. Inr (True, w)))"

definition removeFromClients :: "client_ptr \<Rightarrow> 'x world \<Rightarrow> bool \<times> 'x world" where
  "removeFromClients c w =
     (if c \<in> set (w_clients w)
      then (True, w\<lparr>w_clients := remove1 c (w_clients w),
              w_tokenToClient := (w_tokenToClient w)(c_token (w_client w c) := None)\<rparr>)
      else (False, w))"

definition removeClient :: "('j, 'x) env \<Rightarrow> client_ptr \<Rightarrow> 'x world \<Rightarrow> 'x world result" where
  "removeClient E c w =
     (let ip = c_lastClientIP (w_client w c);
          w1 = (case c_connection (w_client w c) of
                  None \<Rightarrow> w
                | Some cn \<Rightarrow>
                    if w_connectionToClient w cn = None then w
                    else decrementForIp ip Connections (eraseConnection cn w));
          (removed, w2) = removeFromClients c w1;
          w3 = (if removed then decrementForIp ip Clients w2 else w2)
      in client_onRemove E c w3)"

definition removeConnection :: "('j, 'x) env \<Rightarrow> conn \<Rightarrow> 'x world \<Rightarrow> (bool \<times> 'x world) result" where
  "removeConnection E cn w = (case findClientByConnection w cn of
       None \<Rightarrow> Inr (False, w)
     | Some c \<Rightarrow> bindS (removeClient E c w) (\<lambda>w. Inr (True, w)))"

definition manager_reviveClient ::
    "('j, 'x) env \<Rightarrow> client_ptr \<Rightarrow> client_ptr \<Rightarrow> 'x world \<Rightarrow> (bool \<times> 'x world) result" where
  "manager_reviveClient E current target w =
     (let currentConnection = c_connection (w_client w current);
          targetConnection = c_connection (w_client w target);
          targetIp = c_lastClientIP (w_client w target)
      in case currentConnection of
           None \<Rightarrow> Inr (False, w)
         | Some ccn \<Rightarrow>
             (let w1 = (case targetConnection of
                          None \<Rightarrow> w
                        | Some tcn \<Rightarrow>
                            if w_connectionToClient w tcn = None then w
                            else decrementForIp targetIp Connections (eraseConnection tcn w));
                  w2 = decrementForIp targetIp Clients w1;
                  w3 = snd (removeFromClients current w2)
              in bindS (client_onRemove E current w3) (\<lambda>w4.
                   (let w5 = w4\<lparr>w_connectionToClient := (w_connectionToClient w4)(ccn \<mapsto> target)\<rparr>;
                        w6 = client_setConnection E target (Some ccn) w5
                    in bindS (client_onRevive E target w6) (\<lambda>w7. Inr (True, w7))))))"

subsection \<open>The counters refine a function from addresses to numbers\<close>

definition counts_exact :: "(string \<times> counter) list \<Rightarrow> (string \<Rightarrow> nat \<times> nat) \<Rightarrow> bool" where
  "counts_exact cs f \<longleftrightarrow> distinct (map fst cs) \<and>
     (\<forall>ip. map_of cs ip = (if f ip = (0, 0) then None
        else Some \<lparr>ct_connections = int (fst (f ip)), ct_clients = int (snd (f ip))\<rparr>))"

lemma counts_exact_at:
  "counts_exact cs f \<Longrightarrow>
     counter_at ip cs = \<lparr>ct_connections = int (fst (f ip)), ct_clients = int (snd (f ip))\<rparr>"
  by (auto simp: counts_exact_def counter_at_def zero_counter_def split: if_splits)

lemma counts_exact_increment:
  assumes "counts_exact cs f"
  shows "counts_exact (counters_increment ip cs) (f(ip := (Suc (fst (f ip)), Suc (snd (f ip)))))"
  using assms
  by (auto simp: counts_exact_def counters_increment_def counts_exact_at [OF assms] Let_def
      update_conv' distinct_update add.commute)

lemma counts_exact_decrement_connections:
  assumes "counts_exact cs f" and "0 < fst (f ip)"
  shows "counts_exact (counters_decrement ip Connections cs) (f(ip := (fst (f ip) - 1, snd (f ip))))"
  using assms
  by (auto simp: counts_exact_def counters_decrement_def counts_exact_at [OF assms(1)] Let_def
      update_conv' distinct_update delete_conv' distinct_delete of_nat_diff)

lemma counts_exact_decrement_clients:
  assumes "counts_exact cs f" and "0 < snd (f ip)"
  shows "counts_exact (counters_decrement ip Clients cs) (f(ip := (fst (f ip), snd (f ip) - 1)))"
  using assms
  by (auto simp: counts_exact_def counters_decrement_def counts_exact_at [OF assms(1)] Let_def
      update_conv' distinct_update delete_conv' distinct_delete of_nat_diff)

subsection \<open>The invariant of the manager\<close>

definition at_ip :: "'x world \<Rightarrow> string \<Rightarrow> client_ptr \<Rightarrow> bool" where
  "at_ip w ip c \<longleftrightarrow> c_lastClientIP (w_client w c) = ip"

definition conn_at_ip :: "'x world \<Rightarrow> string \<Rightarrow> client_ptr \<Rightarrow> bool" where
  "conn_at_ip w ip c \<longleftrightarrow> c_lastClientIP (w_client w c) = ip \<and> c_connection (w_client w c) \<noteq> None"

definition clients_at :: "'x world \<Rightarrow> string \<Rightarrow> nat" where
  "clients_at w ip = length (filter (at_ip w ip) (w_clients w))"

definition connections_at :: "'x world \<Rightarrow> string \<Rightarrow> nat" where
  "connections_at w ip = length (filter (conn_at_ip w ip) (w_clients w))"

definition counts :: "'x world \<Rightarrow> string \<Rightarrow> nat \<times> nat" where
  "counts w ip = (connections_at w ip, clients_at w ip)"

definition tables_ok :: "('j, 'x) env \<Rightarrow> 'x world \<Rightarrow> bool" where
  "tables_ok E w \<longleftrightarrow>
     distinct (w_clients w) \<and> (\<forall>c \<in> set (w_clients w). c < w_nextClient w) \<and>
     (\<forall>cn c. w_connectionToClient w cn = Some c \<longleftrightarrow>
        c \<in> set (w_clients w) \<and> c_connection (w_client w c) = Some cn) \<and>
     (\<forall>tok c. w_tokenToClient w tok = Some c \<longleftrightarrow>
        c \<in> set (w_clients w) \<and> c_token (w_client w c) = tok) \<and>
     (\<forall>c \<in> set (w_clients w). \<forall>cn. c_connection (w_client w c) = Some cn \<longrightarrow>
        c_lastClientIP (w_client w c) = getRealClientIp E cn) \<and>
     (\<forall>c. c \<notin> set (w_clients w) \<longrightarrow> c_connection (w_client w c) = None)"

definition manager_ok :: "('j, 'x) env \<Rightarrow> 'x world \<Rightarrow> bool" where
  "manager_ok E w \<longleftrightarrow> tables_ok E w \<and> counts_exact (w_countersFromIp w) (counts w)"

definition server_ok :: "('j, 'x) env \<Rightarrow> 'x world \<Rightarrow> bool" where
  "server_ok E w \<longleftrightarrow> chat_ok w \<and> manager_ok E w"

lemma counts_cong:
  assumes "mgr_view w' = mgr_view w"
  shows "counts w' = counts w"
proof (rule ext)
  fix ip
  have "at_ip w' ip = at_ip w ip" "conn_at_ip w' ip = conn_at_ip w ip"
    by (simp_all add: fun_eq_iff at_ip_def conn_at_ip_def mgr_view_eqD [OF assms])
  then show "counts w' ip = counts w ip"
    by (simp add: counts_def connections_at_def clients_at_def mgr_view_eqD [OF assms])
qed

lemma tables_ok_cong:
  assumes "mgr_view w' = mgr_view w"
  shows "tables_ok E w' = tables_ok E w"
  by (simp only: tables_ok_def mgr_view_eqD [OF assms])

lemma manager_ok_cong:
  assumes "mgr_view w' = mgr_view w"
  shows "manager_ok E w' = manager_ok E w"
  by (simp only: manager_ok_def tables_ok_cong [OF assms] counts_cong [OF assms]
      mgr_view_eqD [OF assms])

lemma server_ok_keeps: "server_ok E w \<Longrightarrow> keeps w w' \<Longrightarrow> server_ok E w'"
  unfolding server_ok_def keeps_def by (metis manager_ok_cong)

lemma tables_okD:
  assumes "tables_ok E w"
  shows "distinct (w_clients w)" and "c \<in> set (w_clients w) \<Longrightarrow> c < w_nextClient w"
    and "w_connectionToClient w cn = Some c \<longleftrightarrow>
        c \<in> set (w_clients w) \<and> c_connection (w_client w c) = Some cn"
    and "w_tokenToClient w tok = Some c \<longleftrightarrow>
        c \<in> set (w_clients w) \<and> c_token (w_client w c) = tok"
    and "c \<in> set (w_clients w) \<Longrightarrow> c_connection (w_client w c) = Some cn \<Longrightarrow>
        c_lastClientIP (w_client w c) = getRealClientIp E cn"
    and "c \<notin> set (w_clients w) \<Longrightarrow> c_connection (w_client w c) = None"
  using assms unfolding tables_ok_def by blast+

lemma length_filter_remove1:
  "a \<in> set xs \<Longrightarrow>
     length (filter P xs) = (if P a then 1 else 0) + length (filter P (remove1 a xs))"
  by (induction xs) auto

lemma filter_length_cong:
  "(\<And>x. x \<in> set xs \<Longrightarrow> P x = Q x) \<Longrightarrow> length (filter P xs) = length (filter Q xs)"
  by (metis filter_cong)

lemma length_filter_conj: "length (filter (\<lambda>x. P x \<and> Q x) xs) \<le> length (filter P xs)"
  by (induction xs) auto

lemma connections_le_clients: "connections_at w ip \<le> clients_at w ip"
  unfolding connections_at_def clients_at_def at_ip_def [abs_def] conn_at_ip_def [abs_def]
  by (rule length_filter_conj)

end
