(* ===== verification/Lifecycle.thy ===== *)
theory Lifecycle
  imports Manager
begin

text \<open>
  Every operation of the clients manager preserves the invariant \<open>server_ok\<close>: connecting,
  orphaning, removing and reviving a client. The counters stay exact throughout.
\<close>

subsection \<open>Counting in a list of clients\<close>

lemma tally_remove:
  assumes "distinct xs" and "c \<in> set xs" and "\<And>x. x \<in> set xs \<Longrightarrow> x \<noteq> c \<Longrightarrow> P' x = P x"
  shows "length (filter P' (remove1 c xs)) + (if P c then 1 else 0) = length (filter P xs)"
proof -
  have "length (filter P' (remove1 c xs)) = length (filter P (remove1 c xs))"
    using assms(1,3) by (intro filter_length_cong) auto
  with length_filter_remove1 [OF assms(2), of P] show ?thesis by simp
qed

lemma tally_update:
  assumes "distinct xs" and "c \<in> set xs" and "\<And>x. x \<in> set xs \<Longrightarrow> x \<noteq> c \<Longrightarrow> P' x = P x"
  shows "length (filter P' xs) + (if P c then 1 else 0)
       = length (filter P xs) + (if P' c then 1 else 0)"
  using tally_remove [OF assms(1,2), of P P] tally_remove [OF assms(1,2), of P P'] assms(3)
    length_filter_remove1 [OF assms(2), of P'] length_filter_remove1 [OF assms(2), of P]
  by (simp add: tally_remove [OF assms])

lemma counts_pos:
  assumes "c \<in> set (w_clients w)"
  shows "0 < clients_at w (c_lastClientIP (w_client w c))"
    and "c_connection (w_client w c) \<noteq> None \<Longrightarrow> 0 < connections_at w (c_lastClientIP (w_client w c))"
  using assms
  by (auto simp: clients_at_def connections_at_def at_ip_def conn_at_ip_def filter_empty_conv)

subsection \<open>Letting a connection go\<close>

text \<open>The step that orphaning, removing and reviving share.\<close>

definition detach :: "client_ptr \<Rightarrow> 'x world \<Rightarrow> 'x world" where
  "detach c w = (case c_connection (w_client w c) of
       None \<Rightarrow> w
     | Some cn \<Rightarrow>
         if w_connectionToClient w cn = None then w
         else decrementForIp (c_lastClientIP (w_client w c)) Connections (eraseConnection cn w))"

lemma detach_sel:
  "w_client (detach c w) = w_client w"
  "w_member (detach c w) = w_member w"
  "w_room (detach c w) = w_room w"
  "w_nextClient (detach c w) = w_nextClient w"
  "w_nextMember (detach c w) = w_nextMember w"
  "w_nextRoom (detach c w) = w_nextRoom w"
  "w_rooms (detach c w) = w_rooms w"
  "w_clients (detach c w) = w_clients w"
  "w_tokenToClient (detach c w) = w_tokenToClient w"
  by (simp_all add: detach_def decrementForIp_def eraseConnection_def split: option.split)

lemma detach_connections:
  assumes "tables_ok E w" and "c \<in> set (w_clients w)"
  shows "w_connectionToClient (detach c w) cn = Some d \<longleftrightarrow>
     d \<noteq> c \<and> d \<in> set (w_clients w) \<and> c_connection (w_client w d) = Some cn"
proof (cases "c_connection (w_client w c)")
  case None
  then show ?thesis using tables_okD(3) [OF assms(1)] by (auto simp: detach_def)
next
  case (Some k)
  then have k: "w_connectionToClient w k = Some c" using tables_okD(3) [OF assms(1)] assms(2) by blast
  have "w_connectionToClient w cn = Some d \<longleftrightarrow> d \<in> set (w_clients w) \<and> c_connection (w_client w d) = Some cn"
    by (rule tables_okD(3) [OF assms(1)])
  with Some k show ?thesis by (auto simp: detach_def decrementForIp_def eraseConnection_def)
qed

lemma detach_counts:
  assumes "manager_ok E w" and "c \<in> set (w_clients w)"
  shows "counts_exact (w_countersFromIp (detach c w))
     (\<lambda>ip. (connections_at w ip - (if conn_at_ip w ip c then 1 else 0), clients_at w ip))"
proof (cases "c_connection (w_client w c)")
  case None
  have "(\<lambda>ip. (connections_at w ip - (if conn_at_ip w ip c then 1 else 0), clients_at w ip)) = counts w"
    by (simp add: fun_eq_iff counts_def conn_at_ip_def None)
  with None assms(1) show ?thesis by (simp add: detach_def manager_ok_def)
next
  case (Some k)
  let ?ip = "c_lastClientIP (w_client w c)"
  have ok: "tables_ok E w" and ex: "counts_exact (w_countersFromIp w) (counts w)"
    using assms(1) by (simp_all add: manager_ok_def)
  from Some have k: "w_connectionToClient w k = Some c" using tables_okD(3) [OF ok] assms(2) by blast
  have pos: "0 < fst (counts w ?ip)" using counts_pos(2) [OF assms(2)] Some by (simp add: counts_def)
  have "(\<lambda>ip. (connections_at w ip - (if conn_at_ip w ip c then 1 else 0), clients_at w ip)) =
      (counts w)(?ip := (fst (counts w ?ip) - 1, snd (counts w ?ip)))"
    by (auto simp: fun_eq_iff counts_def conn_at_ip_def Some)
  with counts_exact_decrement_connections [OF ex pos] Some k show ?thesis
    by (simp add: detach_def decrementForIp_def eraseConnection_def)
qed

subsection \<open>Orphaning a client\<close>

lemma manager_ok_detached:
  assumes ok: "manager_ok E w" and c: "c \<in> set (w_clients w)"
  shows "manager_ok E (client_setConnection E c None (detach c w))"
proof -
  let ?w = "client_setConnection E c None (detach c w)"
  have tab: "tables_ok E w" using ok by (simp add: manager_ok_def)
  have "tables_ok E ?w"
    using tables_okD [OF tab] unfolding tables_ok_def
    by (auto simp: client_setConnection_sel detach_sel detach_connections [OF tab c])
  moreover have "counts ?w =
      (\<lambda>ip. (connections_at w ip - (if conn_at_ip w ip c then 1 else 0), clients_at w ip))"
  proof (rule ext)
    fix ip
    have "length (filter (conn_at_ip ?w ip) (w_clients w)) + (if conn_at_ip w ip c then 1 else 0)
        = length (filter (conn_at_ip w ip) (w_clients w)) + (if conn_at_ip ?w ip c then 1 else 0)"
      by (rule tally_update [OF tables_okD(1) [OF tab] c])
        (simp add: conn_at_ip_def client_setConnection_sel detach_sel)
    moreover have "\<not> conn_at_ip ?w ip c" by (simp add: conn_at_ip_def client_setConnection_sel)
    moreover have "at_ip ?w ip = at_ip w ip"
      by (simp add: fun_eq_iff at_ip_def client_setConnection_sel detach_sel)
    ultimately show "counts ?w ip =
        (connections_at w ip - (if conn_at_ip w ip c then 1 else 0), clients_at w ip)"
      by (simp add: counts_def connections_at_def clients_at_def client_setConnection_sel detach_sel)
  qed
  ultimately show ?thesis
    using detach_counts [OF ok c] by (simp add: manager_ok_def client_setConnection_sel)
qed

lemma chat_ok_detach: "chat_ok (detach c w) = chat_ok w"
  by (simp add: chat_ok_def linked_ok_def members_ok_def ids_ok_def nicks_ok_def registry_ok_def
      names_ok_def rooms_within_def residents_ok_def detach_sel)

lemma view_setConnection:
  assumes "view w' = view w"
  shows "view (client_setConnection E c cn w') = view (client_setConnection E c cn w)"
  using assms view_eqD [OF assms]
  by (auto simp: view_def fun_eq_iff client_view_def client_setConnection_sel)

lemma makeOrphan_attached:
  assumes "server_ok E w" and "c \<in> set (w_clients w)" and "c_connection (w_client w c) = Some cn"
  shows "\<exists>w'. makeOrphan E c w = Inr w' \<and> server_ok E w'
    \<and> view w' = view (client_setConnection E c None (detach c w))"
proof -
  let ?w = "client_setConnection E c None (detach c w)"
  have mok: "manager_ok E w" and cok: "chat_ok w" using assms(1) by (simp_all add: server_ok_def)
  then have cn: "w_connectionToClient w cn = Some c"
    using assms(2,3) tables_okD(3) [of E w cn c] by (simp add: manager_ok_def)
  have "chat_ok (detach c w)" using cok by (simp add: chat_ok_detach)
  from client_onDisconnect_total [OF this] obtain w' where
    w': "client_onDisconnect E c (detach c w) = Inr w'" "view w' = view ?w" by blast
  have "makeOrphan E c w = client_onDisconnect E c (detach c w)"
    by (simp add: makeOrphan_def detach_def assms(3) cn)
  moreover have "server_ok E w'"
    using manager_ok_detached [OF mok assms(2)] cok unfolding server_ok_def
      chat_ok_cong [OF w'(2)] manager_ok_cong [OF mgr_view_cong [OF w'(2)]]
    by (simp add: chat_ok_setConnection chat_ok_detach)
  ultimately show ?thesis using w' by auto
qed

lemma makeOrphan_total:
  assumes "server_ok E w" and "c \<in> set (w_clients w)"
  shows "\<exists>w'. makeOrphan E c w = Inr w' \<and> server_ok E w'
    \<and> c_connection (w_client w' c) = None \<and> w_clients w' = w_clients w"
proof (cases "c_connection (w_client w c)")
  case None
  with assms show ?thesis by (simp add: makeOrphan_def)
next
  case (Some cn)
  from makeOrphan_attached [OF assms Some] obtain w' where
    w': "makeOrphan E c w = Inr w'" "server_ok E w'"
      "view w' = view (client_setConnection E c None (detach c w))" by blast
  then show ?thesis
    by (auto simp: view_eqD [OF w'(3)] client_setConnection_sel detach_sel)
qed

subsection \<open>Removing a client\<close>

definition discard :: "client_ptr \<Rightarrow> 'x world \<Rightarrow> 'x world" where
  "discard c w = decrementForIp (c_lastClientIP (w_client w c)) Clients (snd (removeFromClients c w))"

lemma discard_sel:
  assumes "c \<in> set (w_clients w)"
  shows "w_client (discard c w) = w_client w" "w_member (discard c w) = w_member w"
    "w_room (discard c w) = w_room w" "w_nextClient (discard c w) = w_nextClient w"
    "w_nextMember (discard c w) = w_nextMember w" "w_nextRoom (discard c w) = w_nextRoom w"
    "w_rooms (discard c w) = w_rooms w"
    "w_clients (discard c w) = remove1 c (w_clients w)"
    "w_connectionToClient (discard c w) = w_connectionToClient w"
    "w_tokenToClient (discard c w) = (w_tokenToClient w)(c_token (w_client w c) := None)"
    "w_countersFromIp (discard c w) =
       counters_decrement (c_lastClientIP (w_client w c)) Clients (w_countersFromIp w)"
  using assms by (simp_all add: discard_def decrementForIp_def removeFromClients_def)

lemma removeClient_alt:
  assumes "c \<in> set (w_clients w)"
  shows "removeClient E c w = client_onRemove E c (discard c (detach c w))"
proof -
  have d: "(case c_connection (w_client w c) of None \<Rightarrow> w
      | Some cn \<Rightarrow> if w_connectionToClient w cn = None then w
          else decrementForIp (c_lastClientIP (w_client w c)) Connections (eraseConnection cn w))
      = detach c w"
    by (simp add: detach_def)
  show ?thesis
    unfolding removeClient_def Let_def d using assms
    by (simp add: removeFromClients_def discard_def detach_sel)
qed

lemma tokens_after_remove:
  assumes "tables_ok E w" and "c \<in> set (w_clients w)"
  shows "((w_tokenToClient w)(c_token (w_client w c) := None)) tok = Some d \<longleftrightarrow>
     d \<noteq> c \<and> d \<in> set (w_clients w) \<and> c_token (w_client w d) = tok"
proof -
  have c: "w_tokenToClient w (c_token (w_client w c)) = Some c"
    using tables_okD(4) [OF assms(1)] assms(2) by blast
  have "w_tokenToClient w tok = Some d \<longleftrightarrow> d \<in> set (w_clients w) \<and> c_token (w_client w d) = tok"
    by (rule tables_okD(4) [OF assms(1)])
  with c show ?thesis by auto
qed

lemma tables_ok_removed:
  assumes tab: "tables_ok E w" and c: "c \<in> set (w_clients w)"
  shows "tables_ok E (client_setConnection E c None (discard c (detach c w)))"
proof -
  have c1: "c \<in> set (w_clients (detach c w))" using c by (simp add: detach_sel)
  show ?thesis
    using tables_okD [OF tab] unfolding tables_ok_def
    by (auto simp: client_setConnection_sel detach_sel discard_sel [OF c1]
        detach_connections [OF tab c] tokens_after_remove [OF tab c] simp del: fun_upd_apply
        dest: notin_set_remove1)
qed

lemma counts_removed:
  assumes ok: "manager_ok E w" and c: "c \<in> set (w_clients w)"
  shows "counts (client_setConnection E c None (discard c (detach c w))) =
     (\<lambda>ip. (connections_at w ip - (if conn_at_ip w ip c then 1 else 0),
           clients_at w ip - (if at_ip w ip c then 1 else 0)))"
    (is "counts ?w = _")
proof (rule ext)
  have tab: "tables_ok E w" using ok by (simp add: manager_ok_def)
  have c1: "c \<in> set (w_clients (detach c w))" using c by (simp add: detach_sel)
  fix ip
  have "length (filter (conn_at_ip ?w ip) (remove1 c (w_clients w)))
      + (if conn_at_ip w ip c then 1 else 0) = connections_at w ip"
    unfolding connections_at_def
    by (rule tally_remove [OF tables_okD(1) [OF tab] c])
      (simp add: conn_at_ip_def client_setConnection_sel detach_sel discard_sel [OF c1])
  moreover have "length (filter (at_ip ?w ip) (remove1 c (w_clients w)))
      + (if at_ip w ip c then 1 else 0) = clients_at w ip"
    unfolding clients_at_def
    by (rule tally_remove [OF tables_okD(1) [OF tab] c])
      (simp add: at_ip_def client_setConnection_sel detach_sel discard_sel [OF c1])
  ultimately show "counts ?w ip = (connections_at w ip - (if conn_at_ip w ip c then 1 else 0),
        clients_at w ip - (if at_ip w ip c then 1 else 0))"
    by (auto simp: counts_def connections_at_def [of ?w] clients_at_def [of ?w]
        client_setConnection_sel detach_sel discard_sel [OF c1] at_ip_def [of w] conn_at_ip_def [of w]
        split: if_splits)
qed

lemma manager_ok_removed:
  assumes ok: "manager_ok E w" and c: "c \<in> set (w_clients w)"
  shows "manager_ok E (client_setConnection E c None (discard c (detach c w)))"
    (is "manager_ok E ?w")
proof -
  let ?ip = "c_lastClientIP (w_client w c)"
  let ?f = "\<lambda>ip. (connections_at w ip - (if conn_at_ip w ip c then 1 else 0), clients_at w ip)"
  have tab: "tables_ok E w" using ok by (simp add: manager_ok_def)
  have c1: "c \<in> set (w_clients (detach c w))" using c by (simp add: detach_sel)
  have "0 < snd (?f ?ip)" using counts_pos(1) [OF c] by simp
  from counts_exact_decrement_clients [OF detach_counts [OF ok c] this]
  have ex: "counts_exact (w_countersFromIp ?w)
      (?f(?ip := (fst (?f ?ip), snd (?f ?ip) - 1)))"
    by (simp add: client_setConnection_sel discard_sel [OF c1] detach_sel)
  have "counts ?w = ?f(?ip := (fst (?f ?ip), snd (?f ?ip) - 1))"
    unfolding counts_removed [OF ok c] by (auto simp: at_ip_def)
  with ex tables_ok_removed [OF tab c] show ?thesis by (simp add: manager_ok_def)
qed

lemma rooms_ok_detach: "rooms_ok (detach c w) = rooms_ok w"
  by (simp add: rooms_ok_def linked_ok_def members_ok_def ids_ok_def nicks_ok_def registry_ok_def
      names_ok_def rooms_within_def detach_sel)

lemma rooms_ok_discard:
  "c \<in> set (w_clients w) \<Longrightarrow> rooms_ok (discard c w) = rooms_ok w"
  by (simp add: rooms_ok_def linked_ok_def members_ok_def ids_ok_def nicks_ok_def registry_ok_def
      names_ok_def rooms_within_def discard_sel)

lemma residents_ok_removed:
  assumes "residents_ok w" and "set (w_clients w') = set (w_clients w) - {c}"
    and "\<And>d. c_rooms (w_client w' d) = (if d = c then [] else c_rooms (w_client w d))"
  shows "residents_ok w'"
  using assms unfolding residents_ok_def by (metis Diff_iff singletonD)

text \<open>Removing a client: it is gone from the manager and from every room.\<close>

lemma removeClient_total:
  assumes ok: "server_ok E w" and c: "c \<in> set (w_clients w)"
  shows "\<exists>w'. removeClient E c w = Inr w' \<and> server_ok E w'
    \<and> set (w_clients w') = set (w_clients w) - {c} \<and> c_rooms (w_client w' c) = []
    \<and> mgr_view w' = mgr_view (client_setConnection E c None (discard c (detach c w)))"
proof -
  let ?w = "discard c (detach c w)"
  have mok: "manager_ok E w" and cok: "chat_ok w" using ok by (simp_all add: server_ok_def)
  have tab: "tables_ok E w" using mok by (simp add: manager_ok_def)
  have c1: "c \<in> set (w_clients (detach c w))" using c by (simp add: detach_sel)
  have "rooms_ok ?w" using cok by (simp add: rooms_ok_discard [OF c1] rooms_ok_detach chat_ok_iff)
  from client_onRemove_total [OF this] obtain w' where w': "client_onRemove E c ?w = Inr w'"
    and rok: "rooms_ok w'" and mgr: "mgr_view w' = mgr_view (client_setConnection E c None ?w)"
    and rooms: "\<And>d. c_rooms (w_client w' d) = (if d = c then [] else c_rooms (w_client ?w d))"
    by blast
  have cl: "set (w_clients w') = set (w_clients w) - {c}"
    using tables_okD(1) [OF tab]
    by (simp add: mgr_view_eqD [OF mgr] client_setConnection_sel discard_sel [OF c1] detach_sel)
  have "residents_ok w'"
    by (rule residents_ok_removed [OF chat_okD(8) [OF cok] cl])
      (simp add: rooms discard_sel [OF c1] detach_sel)
  moreover have "manager_ok E w'"
    unfolding manager_ok_cong [OF mgr] by (rule manager_ok_removed [OF mok c])
  ultimately have "server_ok E w'" using rok by (simp add: server_ok_def chat_ok_iff)
  with w' cl mgr rooms show ?thesis by (simp add: removeClient_alt [OF c])
qed

subsection \<open>Connecting a client\<close>

lemma draw_token_Some:
  assumes "draw_token E used pos = Some res"
  shows "\<not> used (fst res) \<and> length (fst res) = tokenLength
    \<and> (\<exists>k. fst res = keygen_generate E tokenLength k)"
proof (rule draw_token.raw_induct [OF _ assms])
  fix draw E used pos res
  assume IH: "\<And>E used pos res. draw E used pos = Some res \<Longrightarrow>
      \<not> used (fst res) \<and> length (fst res) = tokenLength
      \<and> (\<exists>k. fst res = keygen_generate E tokenLength k)"
    and step: "(let token = keygen_generate E tokenLength pos; pos = pos + tokenLength
      in if used token then draw E used pos else Some (token, pos)) = Some res"
  show "\<not> used (fst res) \<and> length (fst res) = tokenLength
      \<and> (\<exists>k. fst res = keygen_generate E tokenLength k)"
  proof (cases "used (keygen_generate E tokenLength pos)")
    case True
    with step show ?thesis by (intro IH) (simp add: Let_def)
  next
    case False
    with step show ?thesis by (auto simp: Let_def keygen_generate_def)
  qed
qed

lemma draw_token_reaches:
  assumes "\<not> used (keygen_generate E tokenLength (pos + k * tokenLength))"
  shows "\<exists>res. draw_token E used pos = Some res"
  using assms
proof (induction k arbitrary: pos)
  case 0
  then show ?case by (subst draw_token.simps) (simp add: Let_def)
next
  case (Suc k)
  have "\<exists>res. draw_token E used (pos + tokenLength) = Some res"
    using Suc.prems by (intro Suc.IH) (simp add: add.assoc)
  then show ?case by (subst draw_token.simps) (simp add: Let_def)
qed

lemma fresh_client_no_rooms:
  assumes "server_ok E w"
  shows "w_nextClient w \<notin> set (w_clients w)" and "c_rooms (w_client w (w_nextClient w)) = []"
proof -
  have tab: "tables_ok E w" and res: "residents_ok w"
    using assms by (simp_all add: server_ok_def manager_ok_def chat_okD)
  show "w_nextClient w \<notin> set (w_clients w)" using tables_okD(2) [OF tab] by blast
  with res show "c_rooms (w_client w (w_nextClient w)) = []" by (auto simp: residents_ok_def)
qed

text \<open>The world after a client with the given token has connected.\<close>

definition connected :: "('j, 'x) env \<Rightarrow> conn \<Rightarrow> string \<Rightarrow> nat \<Rightarrow> 'x world \<Rightarrow> 'x world" where
  "connected E cn token pos w =
     (let c = w_nextClient w; ip = getRealClientIp E cn
      in w\<lparr>w_random := pos, w_nextClient := Suc c,
           w_client := (w_client w)(c := (client_new token (w_now w))\<lparr>c_connection := Some cn,
             c_lastClientIP := ip\<rparr>),
           w_clients := w_clients w @ [c],
           w_connectionToClient := (w_connectionToClient w)(cn \<mapsto> c),
           w_tokenToClient := (w_tokenToClient w)(token \<mapsto> c),
           w_countersFromIp := counters_increment ip (w_countersFromIp w)\<rparr>)"

lemma manager_connect_eq:
  "manager_connect E cn w =
     bindS (returned (draw_token E (\<lambda>t. w_tokenToClient w t \<noteq> None) (w_random w)))
       (\<lambda>(token, pos). Inr (connected E cn token pos w))"
  unfolding manager_connect_def connected_def Let_def client_setConnection_def upd_client_def
  by (intro arg_cong2 [where f = bindS]) (simp_all add: fun_eq_iff split: prod.split)

lemma connected_sel:
  "w_clients (connected E cn tok p w) = w_clients w @ [w_nextClient w]"
  "w_nextClient (connected E cn tok p w) = Suc (w_nextClient w)"
  "w_connectionToClient (connected E cn tok p w) = (w_connectionToClient w)(cn \<mapsto> w_nextClient w)"
  "w_tokenToClient (connected E cn tok p w) = (w_tokenToClient w)(tok \<mapsto> w_nextClient w)"
  "w_countersFromIp (connected E cn tok p w) =
     counters_increment (getRealClientIp E cn) (w_countersFromIp w)"
  "w_client (connected E cn tok p w) = (w_client w)(w_nextClient w :=
     (client_new tok (w_now w))\<lparr>c_connection := Some cn, c_lastClientIP := getRealClientIp E cn\<rparr>)"
  "w_member (connected E cn tok p w) = w_member w" "w_room (connected E cn tok p w) = w_room w"
  "w_rooms (connected E cn tok p w) = w_rooms w" "w_out (connected E cn tok p w) = w_out w"
  "w_nextMember (connected E cn tok p w) = w_nextMember w"
  "w_nextRoom (connected E cn tok p w) = w_nextRoom w"
  "w_now (connected E cn tok p w) = w_now w" "w_ext (connected E cn tok p w) = w_ext w"
  by (simp_all add: connected_def Let_def)

lemma counts_connected:
  assumes "w_nextClient w \<notin> set (w_clients w)"
  shows "counts (connected E cn tok p w) =
     (counts w)(getRealClientIp E cn := (Suc (fst (counts w (getRealClientIp E cn))),
                                         Suc (snd (counts w (getRealClientIp E cn)))))"
proof (rule ext)
  fix ip
  let ?w = "connected E cn tok p w"
  have "length (filter (at_ip ?w ip) (w_clients w)) = clients_at w ip"
    unfolding clients_at_def using assms
    by (intro filter_length_cong) (auto simp: at_ip_def connected_sel)
  moreover have "length (filter (conn_at_ip ?w ip) (w_clients w)) = connections_at w ip"
    unfolding connections_at_def using assms
    by (intro filter_length_cong) (auto simp: conn_at_ip_def connected_sel)
  moreover have "at_ip ?w ip (w_nextClient w) = (getRealClientIp E cn = ip)"
    "conn_at_ip ?w ip (w_nextClient w) = (getRealClientIp E cn = ip)"
    by (simp_all add: at_ip_def conn_at_ip_def connected_sel)
  ultimately show "counts ?w ip = ((counts w)(getRealClientIp E cn :=
      (Suc (fst (counts w (getRealClientIp E cn))), Suc (snd (counts w (getRealClientIp E cn)))))) ip"
    by (auto simp: counts_def connections_at_def [of ?w] clients_at_def [of ?w] connected_sel(1))
qed

lemma chat_ok_connected:
  assumes "server_ok E w"
  shows "chat_ok (connected E cn tok p w)"
proof -
  let ?w = "connected E cn tok p w"
  have cok: "chat_ok w" using assms by (simp add: server_ok_def)
  note none = fresh_client_no_rooms [OF assms]
  have rooms: "c_rooms (w_client ?w c) = c_rooms (w_client w c)" for c
    using none by (simp add: connected_sel client_new_def)
  have "rooms_ok ?w = rooms_ok w"
    by (simp only: rooms_ok_def linked_ok_def members_ok_def ids_ok_def nicks_ok_def registry_ok_def
        names_ok_def rooms_within_def rooms connected_sel(7-))
  moreover have "residents_ok ?w"
    using chat_okD(8) [OF cok] by (auto simp: residents_ok_def rooms connected_sel(1))
  ultimately show ?thesis using cok by (simp add: chat_ok_iff)
qed

lemma server_ok_connected:
  assumes ok: "server_ok E w" and cn: "w_connectionToClient w cn = None"
    and tok: "w_tokenToClient w tok = None"
  shows "server_ok E (connected E cn tok p w)"
proof -
  let ?w = "connected E cn tok p w"
  have tab: "tables_ok E w" and ex: "counts_exact (w_countersFromIp w) (counts w)"
    using ok by (simp_all add: server_ok_def manager_ok_def)
  note new = fresh_client_no_rooms(1) [OF ok]
  have nocn: "d \<in> set (w_clients w) \<Longrightarrow> c_connection (w_client w d) \<noteq> Some cn" for d
    using tables_okD(3) [OF tab, of cn d] cn by auto
  have notok: "d \<in> set (w_clients w) \<Longrightarrow> c_token (w_client w d) \<noteq> tok" for d
    using tables_okD(4) [OF tab, of tok d] tok by auto
  have "tables_ok E ?w"
    unfolding tables_ok_def
  proof (intro conjI allI ballI)
    show "distinct (w_clients ?w)" using tables_okD(1) [OF tab] new by (simp add: connected_sel)
    show "c < w_nextClient ?w" if "c \<in> set (w_clients ?w)" for c
      using that tables_okD(2) [OF tab] by (auto simp: connected_sel less_SucI)
    show "(w_connectionToClient ?w k = Some c) =
        (c \<in> set (w_clients ?w) \<and> c_connection (w_client ?w c) = Some k)" for k c
      using new nocn tables_okD(3) [OF tab, of k c] by (auto simp: connected_sel)
    show "(w_tokenToClient ?w t = Some c) =
        (c \<in> set (w_clients ?w) \<and> c_token (w_client ?w c) = t)" for t c
      using new notok tables_okD(4) [OF tab, of t c] by (auto simp: connected_sel client_new_def)
    show "c_connection (w_client ?w c) = Some k \<longrightarrow> c_lastClientIP (w_client ?w c) = getRealClientIp E k"
      if "c \<in> set (w_clients ?w)" for c k
      using that tables_okD(5) [OF tab, of c k] by (auto simp: connected_sel)
    show "c \<notin> set (w_clients ?w) \<longrightarrow> c_connection (w_client ?w c) = None" for c
      using tables_okD(6) [OF tab, of c] by (simp add: connected_sel)
  qed
  moreover have "counts_exact (w_countersFromIp ?w) (counts ?w)"
    unfolding counts_connected [OF new] connected_sel(5) by (rule counts_exact_increment [OF ex])
  ultimately show ?thesis
    using chat_ok_connected [OF ok] by (simp add: server_ok_def manager_ok_def)
qed

lemma manager_connect_ok:
  assumes "server_ok E w" and "w_connectionToClient w cn = None"
    and "manager_connect E cn w = Inr w'"
  obtains tok p where "w' = connected E cn tok p w" "w_tokenToClient w tok = None"
    "length tok = tokenLength" "\<exists>k. tok = keygen_generate E tokenLength k" "server_ok E w'"
proof -
  from assms(3) obtain tok p where
      d: "draw_token E (\<lambda>t. w_tokenToClient w t \<noteq> None) (w_random w) = Some (tok, p)"
    and w': "w' = connected E cn tok p w"
    by (auto simp: manager_connect_eq bindS_Inr_iff returned_def split: option.splits)
  from draw_token_Some [OF d] have "w_tokenToClient w tok = None" "length tok = tokenLength"
    "\<exists>k. tok = keygen_generate E tokenLength k" by simp_all
  with server_ok_connected [OF assms(1,2)] w' that show ?thesis by blast
qed

lemma manager_connect_total:
  assumes "w_tokenToClient w (keygen_generate E tokenLength (w_random w + k * tokenLength)) = None"
  shows "\<exists>w'. manager_connect E cn w = Inr w'"
  using draw_token_reaches [of "\<lambda>t. w_tokenToClient w t \<noteq> None" E "w_random w" k] assms
  by (auto simp: manager_connect_eq)

subsection \<open>Reviving a client\<close>

text \<open>
  The manager's tables after the connection \<open>ccn\<close> of the client \<open>cur\<close> has passed to
  \<open>targ\<close>: before the rooms of both are dealt with (\<open>handover1\<close>), and at the end.
\<close>

definition handover1 :: "client_ptr \<Rightarrow> client_ptr \<Rightarrow> 'x world \<Rightarrow> 'x world" where
  "handover1 cur targ w = snd (removeFromClients cur
     (decrementForIp (c_lastClientIP (w_client w targ)) Clients (detach targ w)))"

definition handover :: "('j, 'x) env \<Rightarrow> conn \<Rightarrow> client_ptr \<Rightarrow> client_ptr \<Rightarrow> 'x world \<Rightarrow> 'x world" where
  "handover E ccn cur targ w = client_setConnection E targ (Some ccn)
     ((client_setConnection E cur None (handover1 cur targ w))\<lparr>w_connectionToClient :=
        (w_connectionToClient (detach targ w))(ccn \<mapsto> targ)\<rparr>)"

lemma handover1_sel:
  assumes "cur \<in> set (w_clients w)"
  shows "w_client (handover1 cur targ w) = w_client w"
    "w_member (handover1 cur targ w) = w_member w" "w_room (handover1 cur targ w) = w_room w"
    "w_nextClient (handover1 cur targ w) = w_nextClient w"
    "w_nextMember (handover1 cur targ w) = w_nextMember w"
    "w_nextRoom (handover1 cur targ w) = w_nextRoom w"
    "w_rooms (handover1 cur targ w) = w_rooms w"
    "w_clients (handover1 cur targ w) = remove1 cur (w_clients w)"
    "w_connectionToClient (handover1 cur targ w) = w_connectionToClient (detach targ w)"
    "w_tokenToClient (handover1 cur targ w) = (w_tokenToClient w)(c_token (w_client w cur) := None)"
    "w_countersFromIp (handover1 cur targ w) =
       counters_decrement (c_lastClientIP (w_client w targ)) Clients (w_countersFromIp (detach targ w))"
  using assms by (simp_all add: handover1_def decrementForIp_def removeFromClients_def detach_sel)

lemma handover_sel:
  assumes "cur \<in> set (w_clients w)"
  shows "w_nextClient (handover E ccn cur targ w) = w_nextClient w"
    "w_clients (handover E ccn cur targ w) = remove1 cur (w_clients w)"
    "w_connectionToClient (handover E ccn cur targ w) =
       (w_connectionToClient (detach targ w))(ccn \<mapsto> targ)"
    "w_tokenToClient (handover E ccn cur targ w) = (w_tokenToClient w)(c_token (w_client w cur) := None)"
    "w_countersFromIp (handover E ccn cur targ w) =
       counters_decrement (c_lastClientIP (w_client w targ)) Clients (w_countersFromIp (detach targ w))"
    "c_connection (w_client (handover E ccn cur targ w) d) =
       (if d = targ then Some ccn else if d = cur then None else c_connection (w_client w d))"
    "c_lastClientIP (w_client (handover E ccn cur targ w) d) =
       (if d = targ then getRealClientIp E ccn else c_lastClientIP (w_client w d))"
    "c_token (w_client (handover E ccn cur targ w) d) = c_token (w_client w d)"
  by (simp_all add: handover_def client_setConnection_sel handover1_sel [OF assms])

lemma tables_ok_handover:
  assumes tab: "tables_ok E w" and cur: "cur \<in> set (w_clients w)" and targ: "targ \<in> set (w_clients w)"
    and ne: "cur \<noteq> targ" and ccn: "c_connection (w_client w cur) = Some ccn"
  shows "tables_ok E (handover E ccn cur targ w)"
proof -
  have d: "c_connection (w_client w d) \<noteq> Some ccn" if "d \<in> set (w_clients w)" "d \<noteq> cur" for d
    using tables_okD(3) [OF tab, of ccn d] tables_okD(3) [OF tab, of ccn cur] that cur ccn by auto
  have set: "set (remove1 cur (w_clients w)) = set (w_clients w) - {cur}"
    using tables_okD(1) [OF tab] by simp
  show ?thesis
    unfolding tables_ok_def handover_sel [OF cur] set
  proof (intro conjI allI ballI)
    show "distinct (remove1 cur (w_clients w))" using tables_okD(1) [OF tab] by simp
    show "c < w_nextClient w" if "c \<in> set (w_clients w) - {cur}" for c
      using that tables_okD(2) [OF tab] by blast
    show "(((w_connectionToClient (detach targ w))(ccn \<mapsto> targ)) cn = Some c) =
      (c \<in> set (w_clients w) - {cur} \<and>
       (if c = targ then Some ccn else if c = cur then None else c_connection (w_client w c)) = Some cn)"
      for cn c
      using detach_connections [OF tab targ, of cn c] targ ne d [of c] ccn by auto
    show "(((w_tokenToClient w)(c_token (w_client w cur) := None)) tok = Some c) =
      (c \<in> set (w_clients w) - {cur} \<and> c_token (w_client w c) = tok)" for tok c
      using tokens_after_remove [OF tab cur, of tok c] by blast
    show "(if c = targ then Some ccn else if c = cur then None else c_connection (w_client w c)) = Some cn
        \<longrightarrow> (if c = targ then getRealClientIp E ccn else c_lastClientIP (w_client w c)) = getRealClientIp E cn"
      if "c \<in> set (w_clients w) - {cur}" for c cn
      using that tables_okD(5) [OF tab, of c cn] by auto
    show "c \<notin> set (w_clients w) - {cur} \<longrightarrow>
        (if c = targ then Some ccn else if c = cur then None else c_connection (w_client w c)) = None" for c
      using tables_okD(6) [OF tab, of c] targ ne by auto
  qed
qed

lemma tally_handover:
  assumes "distinct xs" and "a \<in> set xs" and "b \<in> set xs" and "a \<noteq> b"
    and "\<And>x. x \<noteq> a \<Longrightarrow> x \<noteq> b \<Longrightarrow> P' x = P x" and "P' b = P a"
  shows "length (filter P' (remove1 a xs)) + (if P b then 1 else 0) = length (filter P xs)"
proof -
  have "length (filter P' (remove1 a xs)) + (if P b then 1 else 0)
      = length (filter P (remove1 a xs)) + (if P' b then 1 else 0)"
    using assms by (intro tally_update) auto
  with tally_remove [OF assms(1,2), of P P] assms(6) show ?thesis by simp
qed

text \<open>The numbers of the two addresses involved, after the connection has changed hands.\<close>

lemma counts_handover:
  assumes tab: "tables_ok E w" and cur: "cur \<in> set (w_clients w)" and targ: "targ \<in> set (w_clients w)"
    and ne: "cur \<noteq> targ" and ccn: "c_connection (w_client w cur) = Some ccn"
  shows "counts (handover E ccn cur targ w) =
     (\<lambda>ip. (connections_at w ip - (if conn_at_ip w ip targ then 1 else 0),
           clients_at w ip - (if at_ip w ip targ then 1 else 0)))"
    (is "counts ?w = _")
proof (rule ext)
  have curip: "c_lastClientIP (w_client w cur) = getRealClientIp E ccn"
    by (rule tables_okD(5) [OF tab cur ccn])
  fix ip
  have "length (filter (conn_at_ip ?w ip) (remove1 cur (w_clients w)))
      + (if conn_at_ip w ip targ then 1 else 0) = connections_at w ip"
    unfolding connections_at_def
    by (rule tally_handover [OF tables_okD(1) [OF tab] cur targ ne])
      (simp_all add: conn_at_ip_def handover_sel [OF cur] ccn curip)
  moreover have "length (filter (at_ip ?w ip) (remove1 cur (w_clients w)))
      + (if at_ip w ip targ then 1 else 0) = clients_at w ip"
    unfolding clients_at_def
    by (rule tally_handover [OF tables_okD(1) [OF tab] cur targ ne])
      (simp_all add: at_ip_def handover_sel [OF cur] curip)
  ultimately show "counts ?w ip = (connections_at w ip - (if conn_at_ip w ip targ then 1 else 0),
        clients_at w ip - (if at_ip w ip targ then 1 else 0))"
    by (auto simp: counts_def connections_at_def [of ?w] clients_at_def [of ?w]
        handover_sel(2) [OF cur] at_ip_def [of w] conn_at_ip_def [of w] split: if_splits)
qed

lemma manager_ok_handover:
  assumes ok: "manager_ok E w" and cur: "cur \<in> set (w_clients w)" and targ: "targ \<in> set (w_clients w)"
    and ne: "cur \<noteq> targ" and ccn: "c_connection (w_client w cur) = Some ccn"
  shows "manager_ok E (handover E ccn cur targ w)" (is "manager_ok E ?w")
proof -
  let ?ip = "c_lastClientIP (w_client w targ)"
  let ?f = "\<lambda>ip. (connections_at w ip - (if conn_at_ip w ip targ then 1 else 0), clients_at w ip)"
  have tab: "tables_ok E w" using ok by (simp add: manager_ok_def)
  have "0 < snd (?f ?ip)" using counts_pos(1) [OF targ] by simp
  from counts_exact_decrement_clients [OF detach_counts [OF ok targ] this]
  have ex: "counts_exact (w_countersFromIp ?w) (?f(?ip := (fst (?f ?ip), snd (?f ?ip) - 1)))"
    by (simp add: handover_sel [OF cur])
  have "counts ?w = ?f(?ip := (fst (?f ?ip), snd (?f ?ip) - 1))"
    unfolding counts_handover [OF tab cur targ ne ccn] by (auto simp: at_ip_def)
  with ex tables_ok_handover [OF tab cur targ ne ccn] show ?thesis by (simp add: manager_ok_def)
qed

lemma manager_reviveClient_total:
  assumes ok: "server_ok E w" and cur: "cur \<in> set (w_clients w)" and targ: "targ \<in> set (w_clients w)"
    and ne: "cur \<noteq> targ" and ccn: "c_connection (w_client w cur) = Some ccn"
  shows "\<exists>w'. manager_reviveClient E cur targ w = Inr (True, w') \<and> server_ok E w'
    \<and> mgr_view w' = mgr_view (handover E ccn cur targ w)
    \<and> (\<forall>d. c_rooms (w_client w' d) = (if d = cur then [] else c_rooms (w_client w d)))"
proof -
  let ?w3 = "handover1 cur targ w"
  have mok: "manager_ok E w" and cok: "chat_ok w" using ok by (simp_all add: server_ok_def)
  have tab: "tables_ok E w" using mok by (simp add: manager_ok_def)
  have "rooms_ok ?w3 = rooms_ok w"
    by (simp add: rooms_ok_def linked_ok_def members_ok_def ids_ok_def nicks_ok_def registry_ok_def
        names_ok_def rooms_within_def handover1_sel [OF cur])
  then have "rooms_ok ?w3" using cok by (simp add: chat_ok_iff)
  from client_onRemove_total [OF this, of E cur] obtain w4 where w4: "client_onRemove E cur ?w3 = Inr w4"
    and rok: "rooms_ok w4" and mgr4: "mgr_view w4 = mgr_view (client_setConnection E cur None ?w3)"
    and rooms4: "\<And>d. c_rooms (w_client w4 d) = (if d = cur then [] else c_rooms (w_client w d))"
    by (auto simp: handover1_sel [OF cur])
  let ?w6 = "client_setConnection E targ (Some ccn)
     (w4\<lparr>w_connectionToClient := (w_connectionToClient w4)(ccn \<mapsto> targ)\<rparr>)"
  have mgr6: "mgr_view ?w6 = mgr_view (handover E ccn cur targ w)"
    by (simp add: mgr_view_def fun_eq_iff client_setConnection_sel mgr_view_eqD [OF mgr4]
        handover_sel [OF cur] handover1_sel [OF cur])
  have rooms6: "c_rooms (w_client ?w6 d) = (if d = cur then [] else c_rooms (w_client w d))" for d
    by (simp add: client_setConnection_sel rooms4)
  have "rooms_ok ?w6"
    using rok by (simp add: rooms_ok_setConnection)
      (simp add: rooms_ok_def linked_ok_def members_ok_def ids_ok_def nicks_ok_def registry_ok_def
        names_ok_def rooms_within_def)
  moreover have "residents_ok ?w6"
    by (rule residents_ok_removed [OF chat_okD(8) [OF cok] _ rooms6])
      (simp add: mgr_view_eqD [OF mgr6] handover_sel [OF cur] tables_okD(1) [OF tab])
  ultimately have cok6: "chat_ok ?w6" by (simp add: chat_ok_iff)
  from client_onRevive_total [OF chat_okD(1) [OF cok6]] obtain w7 where
    w7: "client_onRevive E targ ?w6 = Inr w7" "view w7 = view ?w6" by blast
  have mgr7: "mgr_view w7 = mgr_view (handover E ccn cur targ w)"
    by (simp add: mgr_view_cong [OF w7(2)] mgr6)
  have "manager_ok E w7"
    unfolding manager_ok_cong [OF mgr7] by (rule manager_ok_handover [OF mok cur targ ne ccn])
  with cok6 have "server_ok E w7" by (simp add: server_ok_def chat_ok_cong [OF w7(2)])
  moreover have "manager_reviveClient E cur targ w = Inr (True, w7)"
  proof -
    have d: "(case c_connection (w_client w targ) of None \<Rightarrow> w
      | Some cn \<Rightarrow> if w_connectionToClient w cn = None then w
          else decrementForIp (c_lastClientIP (w_client w targ)) Connections (eraseConnection cn w))
      = detach targ w"
      by (simp add: detach_def)
    show ?thesis
      unfolding manager_reviveClient_def Let_def d
      by (simp add: ccn handover1_def [symmetric] w4 w7)
  qed
  ultimately show ?thesis using mgr7 by (auto simp: view_eqD [OF w7(2)] rooms6)
qed

end
