(* ===== verification/Commands.thy ===== *)
theory Commands
  imports Lifecycle
begin

text \<open>
  \<open>commands/\<close>: the chat commands. A command is run for a member of a room with the
  \<open>regex_parser\<close> that has already consumed the command's name and the spaces after it.
  No command dereferences anything but the member it is given, its room and its client,
  so every command is a total function of the world.
\<close>

subsection \<open>The patterns of the commands\<close>

definition r_int :: rx where
  "r_int = Seq Bol (rx_plus (Cls is_digit))"

definition r_ip :: rx where
  "r_ip = Seq Bol (Seq (Rep (Grp 1 (Seq (Rep (Cls is_digit) 1 (Some 3)) (rx_char CHR ''.''))) 3 (Some 3))
     (Rep (Cls is_digit) 1 (Some 3)))"

definition r_color :: rx where
  "r_color = Seq Bol (Seq (Rep (rx_char CHR ''#'') 0 (Some 1))
     (Grp 1 (Alt (Rep (Cls is_xdigit) 6 (Some 6)) (Rep (Cls is_xdigit) 3 (Some 3)))))"

definition r_to_space :: rx where
  "r_to_space = Seq Bol (rx_plus (Cls (\<lambda>c. \<not> is_space c)))"

definition r_spaces :: rx where
  "r_spaces = Seq Bol (rx_plus (Cls is_space))"

definition r_endSpaces :: rx where
  "r_endSpaces = Seq (rx_plus (Cls is_space)) Eol"

definition r_longSpaces :: rx where
  "r_longSpaces = Rep (Cls is_space) 2 None"

definition rx_blank :: rx where
  "rx_blank = rx_star (Cls is_space)"

fun rx_alts :: "rx list \<Rightarrow> rx" where
  "rx_alts [] = Cls (\<lambda>_. False)"
| "rx_alts [r] = r"
| "rx_alts (r # rs) = Alt r (rx_alts rs)"

text \<open>The letters in the order of the alphabet; each is two bytes of UTF-8.\<close>

definition russian_low :: "string list" where
  "russian_low = map (\<lambda>k. utf8 [208, k]) [176..<182] @ [utf8 [209, 145]] @
     map (\<lambda>k. utf8 [208, k]) [182..<192] @ map (\<lambda>k. utf8 [209, k]) [128..<144]"

definition russian_up :: "string list" where
  "russian_up = map (\<lambda>k. utf8 [208, k]) [144..<150] @ [utf8 [208, 129]] @
     map (\<lambda>k. utf8 [208, k]) [150..<176]"

definition any_russian :: rx where
  "any_russian = Grp 2 (Alt (Grp 3 (rx_alts (map rx_string russian_low)))
     (Grp 4 (rx_alts (map rx_string russian_up))))"

definition login_char :: "char \<Rightarrow> bool" where
  "login_char c = (is_alpha c \<or> is_digit c \<or> c \<in> {CHR ''-'', CHR ''_'', CHR ''.'', CHR '' ''})"

definition r_login :: rx where
  "r_login = Seq Bol (Seq (Rep (Grp 1 (Alt (Cls login_char) any_russian)) 1 (Some 24)) Eol)"

definition read_uint :: "u32 \<Rightarrow> regex_parser \<Rightarrow> u32" where
  "read_uint val p = (case parser_read 0 p of None \<Rightarrow> val | Some s \<Rightarrow> istream_uint s)"

definition read_string :: "string \<Rightarrow> regex_parser \<Rightarrow> string" where
  "read_string val p = (case parser_read 0 p of None \<Rightarrow> val | Some s \<Rightarrow> s)"

subsection \<open>The command objects\<close>

datatype command =
    CommandHelp | CommandNick | CommandGender | CommandColor
  | CommandStyledMessage style | CommandPrivateMessage | CommandPrivateMessageById
  | CommandMyRoomList
  | CommandModerList | CommandBanList | CommandBanNick | CommandBanUid | CommandBanIp
  | CommandUnbanNick | CommandUnbanUid | CommandUnbanIp | CommandKick | CommandUserList
  | CommandAddModer | CommandDelModer
  | CommandRoomList | CommandIpCounter

primrec styled_name :: "style \<Rightarrow> string" where
  "styled_name Sty_me = ''me''"
| "styled_name Sty_event = ''do''"
| "styled_name Sty_offtop = ''n''"
| "styled_name Sty_message = ''?''"

primrec styled_description :: "style \<Rightarrow> string" where
  "styled_description Sty_me = dsc_me"
| "styled_description Sty_event = dsc_do"
| "styled_description Sty_offtop = dsc_offtop"
| "styled_description Sty_message = []"

primrec getName :: "command \<Rightarrow> string" where
  "getName CommandHelp = ''help''"
| "getName CommandNick = ''nick''"
| "getName CommandGender = ''gender''"
| "getName CommandColor = ''color''"
| "getName (CommandStyledMessage st) = styled_name st"
| "getName CommandPrivateMessage = ''msg''"
| "getName CommandPrivateMessageById = ''umsg''"
| "getName CommandMyRoomList = ''myrooms''"
| "getName CommandModerList = ''moderlist''"
| "getName CommandBanList = ''banlist''"
| "getName CommandBanNick = ''bannick''"
| "getName CommandBanUid = ''banuid''"
| "getName CommandBanIp = ''banip''"
| "getName CommandUnbanNick = ''unbannick''"
| "getName CommandUnbanUid = ''unbanuid''"
| "getName CommandUnbanIp = ''unbanip''"
| "getName CommandKick = ''kick''"
| "getName CommandUserList = ''userlist''"
| "getName CommandAddModer = ''addmoder''"
| "getName CommandDelModer = ''delmoder''"
| "getName CommandRoomList = ''roomlist''"
| "getName CommandIpCounter = ''ipcounter''"

primrec getArgumentsTemplate :: "command \<Rightarrow> string" where
  "getArgumentsTemplate CommandHelp = []"
| "getArgumentsTemplate CommandNick = arg_new_nick"
| "getArgumentsTemplate CommandGender = ''[f|m]''"
| "getArgumentsTemplate CommandColor = arg_color"
| "getArgumentsTemplate (CommandStyledMessage st) = arg_message"
| "getArgumentsTemplate CommandPrivateMessage = arg_nick_message"
| "getArgumentsTemplate CommandPrivateMessageById = arg_id_message"
| "getArgumentsTemplate CommandMyRoomList = []"
| "getArgumentsTemplate CommandModerList = []"
| "getArgumentsTemplate CommandBanList = []"
| "getArgumentsTemplate CommandBanNick = arg_nick_angle"
| "getArgumentsTemplate CommandBanUid = ''<id>''"
| "getArgumentsTemplate CommandBanIp = ''<ip>''"
| "getArgumentsTemplate CommandUnbanNick = arg_nick_angle"
| "getArgumentsTemplate CommandUnbanUid = ''<uid>''"
| "getArgumentsTemplate CommandUnbanIp = ''<ip>''"
| "getArgumentsTemplate CommandKick = arg_nick_angle"
| "getArgumentsTemplate CommandUserList = []"
| "getArgumentsTemplate CommandAddModer = ''<uid>''"
| "getArgumentsTemplate CommandDelModer = ''<uid>''"
| "getArgumentsTemplate CommandRoomList = []"
| "getArgumentsTemplate CommandIpCounter = []"

primrec getDescription :: "command \<Rightarrow> string" where
  "getDescription CommandHelp = dsc_help"
| "getDescription CommandNick = dsc_nick"
| "getDescription CommandGender = dsc_gender"
| "getDescription CommandColor = dsc_color"
| "getDescription (CommandStyledMessage st) = styled_description st"
| "getDescription CommandPrivateMessage = dsc_msg"
| "getDescription CommandPrivateMessageById = dsc_umsg"
| "getDescription CommandMyRoomList = dsc_myrooms"
| "getDescription CommandModerList = dsc_moderlist"
| "getDescription CommandBanList = dsc_banlist"
| "getDescription CommandBanNick = dsc_bannick"
| "getDescription CommandBanUid = dsc_banuid"
| "getDescription CommandBanIp = dsc_banip"
| "getDescription CommandUnbanNick = dsc_unbannick"
| "getDescription CommandUnbanUid = dsc_unbanuid"
| "getDescription CommandUnbanIp = dsc_unbanip"
| "getDescription CommandKick = dsc_kick"
| "getDescription CommandUserList = dsc_userlist"
| "getDescription CommandAddModer = dsc_addmoder"
| "getDescription CommandDelModer = dsc_delmoder"
| "getDescription CommandRoomList = dsc_roomlist"
| "getDescription CommandIpCounter = dsc_ipcounter"

subsection \<open>The processors\<close>

definition cmd_all :: "command list" where
  "cmd_all = [CommandHelp, CommandNick, CommandGender, CommandColor]"

definition cmd_user :: "command list" where
  "cmd_user = [CommandStyledMessage Sty_me, CommandStyledMessage Sty_offtop,
     CommandStyledMessage Sty_event, CommandPrivateMessage, CommandPrivateMessageById]"

definition cmd_auth_user :: "command list" where
  "cmd_auth_user = [CommandMyRoomList]"

definition cmd_moder :: "command list" where
  "cmd_moder = [CommandModerList, CommandBanList, CommandBanNick, CommandBanUid, CommandBanIp,
     CommandUnbanNick, CommandUnbanUid, CommandUnbanIp, CommandKick, CommandUserList]"

definition cmd_owner :: "command list" where
  "cmd_owner = [CommandAddModer, CommandDelModer]"

definition cmd_admin :: "command list" where
  "cmd_admin = [CommandRoomList, CommandIpCounter]"

text \<open>
  The constructor stores the commands in a map by name, a later one over an earlier one;
  \<open>getCommands\<close> keeps the order of the list.
\<close>

definition processor_find :: "command list \<Rightarrow> string \<Rightarrow> command option" where
  "processor_find cs nm = find (\<lambda>c. getName c = nm) (rev cs)"

subsection \<open>Lists and help\<close>

text \<open>\<open>member->sendPacket(PacketSystem(room->getName(), msg))\<close>.\<close>

definition reply :: "('j, 'x) env \<Rightarrow> member_ptr \<Rightarrow> string \<Rightarrow> 'x world \<Rightarrow> 'x world" where
  "reply E m msg w =
     member_sendPacket E m (sys_packet (r_name (w_room w (m_room (w_member w m)))) msg) w"

definition createHelpForCommands :: "command list \<Rightarrow> string" where
  "createHelpForCommands cs = concat (map (\<lambda>c. ''/'' @ getName c @ '' '' @ getArgumentsTemplate c
     @ newline @ tab @ getDescription c @ newline) cs)"

text \<open>The texts that the command keeps once it has made them; they depend on nothing else.\<close>

record help_texts =
  help_all :: string
  help_user :: string
  help_auth_user :: string
  help_moder :: string
  help_owner :: string
  help_admin :: string

definition generateHelp :: help_texts where
  "generateHelp =
     \<lparr>help_all = createHelpForCommands cmd_all, help_user = createHelpForCommands cmd_user,
      help_auth_user = createHelpForCommands cmd_auth_user, help_moder = createHelpForCommands cmd_moder,
      help_owner = createHelpForCommands cmd_owner, help_admin = createHelpForCommands cmd_admin\<rparr>"

definition cmd_help_process :: "('j, 'x) env \<Rightarrow> member_ptr \<Rightarrow> 'x world \<Rightarrow> 'x world" where
  "cmd_help_process E m w =
     (let h = generateHelp;
          msg = txt_help_head @ help_all h @ help_user h;
          msg = (if 0 < c_uid (w_client w (m_client (w_member w m)))
                 then msg @ help_auth_user h else msg);
          msg = (if member_isOwner w m
                 then msg @ txt_help_owner @ help_owner h else msg);
          msg = (if member_isModer w m
                 then msg @ txt_help_moder @ help_moder h else msg);
          msg = (if member_isAdmin w m
                 then msg @ txt_help_admin @ help_admin h else msg)
      in reply E m msg w)"

definition cmd_banlist_process :: "('j, 'x) env \<Rightarrow> member_ptr \<Rightarrow> 'x world \<Rightarrow> 'x world" where
  "cmd_banlist_process E m w =
     (let r = w_room w (m_room (w_member w m));
          colon = '')'' @ '':'' @ newline
      in reply E m
          (txt_banned_nicks @ show_nat (length (r_bannedNicks r)) @ colon
           @ concat (map (\<lambda>s. s @ newline) (r_bannedNicks r))
           @ txt_banned_uids @ show_nat (length (r_bannedUids r)) @ colon
           @ concat (map (\<lambda>u. show_u32 u @ newline) (r_bannedUids r))
           @ txt_banned_ips @ show_nat (length (r_bannedIps r)) @ colon
           @ concat (map (\<lambda>s. s @ newline) (r_bannedIps r))) w)"

definition cmd_moderlist_process :: "('j, 'x) env \<Rightarrow> member_ptr \<Rightarrow> 'x world \<Rightarrow> 'x world" where
  "cmd_moderlist_process E m w =
     (let r = w_room w (m_room (w_member w m))
      in reply E m (txt_moders @ concat (map (\<lambda>u. newline @ show_u32 u) (r_moderators r))) w)"

definition cmd_myrooms_process :: "('j, 'x) env \<Rightarrow> member_ptr \<Rightarrow> 'x world \<Rightarrow> 'x world" where
  "cmd_myrooms_process E m w =
     (let uid = c_uid (w_client w (m_client (w_member w m)))
      in reply E m (txt_my_rooms @ concat (map (\<lambda>r. r_name (w_room w r) @ newline)
           (filter (\<lambda>r. uid = r_ownerId (w_room w r)) (w_rooms w)))) w)"

definition cmd_roomlist_process :: "('j, 'x) env \<Rightarrow> member_ptr \<Rightarrow> 'x world \<Rightarrow> 'x world" where
  "cmd_roomlist_process E m w =
     reply E m (txt_rooms @ concat (map (\<lambda>r. show_u32 (r_ownerId (w_room w r)) @ '': ''
       @ r_name (w_room w r) @ newline) (w_rooms w))) w"

definition cmd_userlist_process :: "('j, 'x) env \<Rightarrow> member_ptr \<Rightarrow> 'x world \<Rightarrow> 'x world" where
  "cmd_userlist_process E m w =
     reply E m (txt_users @ concat (map (\<lambda>k.
        (let mb = w_member w k; mc = w_client w (m_client mb)
         in ''#'' @ show_u32 (m_id mb) @ '' '' @ m_nick mb @ '' (uid '' @ show_u32 (c_uid mc) @ '', ''
            @ c_lastClientIP mc @ '')'' @ newline))
        (r_members (w_room w (m_room (w_member w m)))))) w"

definition cmd_ipcounter_process :: "('j, 'x) env \<Rightarrow> member_ptr \<Rightarrow> 'x world \<Rightarrow> 'x world" where
  "cmd_ipcounter_process E m w =
     reply E m (txt_connections @ concat (map (\<lambda>c. fst c @ '' - (cli: ''
       @ show_int (ct_clients (snd c)) @ '', conn: '' @ show_int (ct_connections (snd c)) @ '')''
       @ newline) (w_countersFromIp w))) w"

subsection \<open>Nick, gender, colour\<close>

definition clean_nick :: "string \<Rightarrow> string" where
  "clean_nick nick =
     (let nick = regex_replace nick r_endSpaces [];
          nick = regex_replace nick r_spaces []
      in regex_replace nick r_longSpaces '' '')"

definition cmd_nick_process :: "('j, 'x) env \<Rightarrow> member_ptr \<Rightarrow> regex_parser \<Rightarrow> 'x world \<Rightarrow> 'x world" where
  "cmd_nick_process E m p w =
     (let nick = clean_nick (parser_suffix p)
      in if nick = [] \<or> regex_match nick r_login
         then if nick \<noteq> [] \<and> findMemberByNick w (m_room (w_member w m)) nick \<noteq> None
              then reply E m txt_nick_taken w
              else member_setNick E m nick w
         else reply E m txt_nick_rules w)"

text \<open>Tell the room if the member has entered the chat, otherwise only the member.\<close>

definition announce :: "('j, 'x) env \<Rightarrow> member_ptr \<Rightarrow> status \<Rightarrow> 'x world \<Rightarrow> 'x world" where
  "announce E m stat w =
     (if member_hasNick w m
      then sendPacketToAll E (m_room (w_member w m)) (Packet_Status (status_packet w m stat [])) w
      else member_sendPacket E m (Packet_Status (status_packet w m stat [])) w)"

definition cmd_gender_process :: "('j, 'x) env \<Rightarrow> member_ptr \<Rightarrow> regex_parser \<Rightarrow> 'x world \<Rightarrow> 'x world" where
  "cmd_gender_process E m p w =
     (let (found, p) = parser_next r_to_space p;
          g = (if found then read_string [] p else []);
          g = (if g \<noteq> [] \<and> \<not> (hd g = CHR ''f'' \<or> hd g = CHR ''m'') then [] else g);
          w = (if g = [] then member_setGirl m (\<not> m_girl (w_member w m)) w
               else member_setGirl m (hd g = CHR ''f'') w)
      in announce E m St_gender_change w)"

definition cmd_color_process :: "('j, 'x) env \<Rightarrow> member_ptr \<Rightarrow> regex_parser \<Rightarrow> 'x world \<Rightarrow> 'x world" where
  "cmd_color_process E m p w =
     (let (found, p) = parser_next r_color p;
          clr = (if found then (let c = read_string [] p
                                in if c \<noteq> [] \<and> hd c = CHR ''#'' then c else CHR ''#'' # c) else [])
      in if clr = [] then reply E m txt_bad_color w
         else announce E m St_color_change (member_setColor m clr w))"

subsection \<open>Messages\<close>

definition cmd_styled_process ::
    "('j, 'x) env \<Rightarrow> style \<Rightarrow> member_ptr \<Rightarrow> regex_parser \<Rightarrow> 'x world \<Rightarrow> 'x world" where
  "cmd_styled_process E sty m p w =
     (let r = m_room (w_member w m); smsg = parser_suffix p
      in if regex_match smsg rx_blank then reply E m txt_no_text w
         else (let pmsg = message_packet w m smsg;
                   (i, rm) = room_newMessageId (w_room w r);
                   w = upd_room r (\<lambda>_. rm) w;
                   pmsg = pmsg\<lparr>pm_id := show_u32 i, pm_style := sty\<rparr>
               in sendPacketToAll E r (Packet_Message pmsg) w))"

definition send_private :: "('j, 'x) env \<Rightarrow> member_ptr \<Rightarrow> member_ptr \<Rightarrow> string \<Rightarrow> 'x world \<Rightarrow> 'x world" where
  "send_private E m m2 smsg w =
     (let pmsg = Packet_Message (private_packet w m m2 smsg)
      in member_sendPacket E m2 pmsg (member_sendPacket E m pmsg w))"

definition cmd_msg_process :: "('j, 'x) env \<Rightarrow> member_ptr \<Rightarrow> regex_parser \<Rightarrow> 'x world \<Rightarrow> 'x world" where
  "cmd_msg_process E m p w =
     (let (found, p) = parser_next r_to_space p;
          part = (if found then read_string [] p else []);
          (found, p) = parser_next r_spaces p;
          smsg = (if found then parser_suffix p else [])
      in if regex_match smsg rx_blank then reply E m txt_no_text w
         else (case findMemberByNick w (m_room (w_member w m)) part of
                 None \<Rightarrow> reply E m txt_msg_no_user w
               | Some m2 \<Rightarrow> send_private E m m2 smsg w))"

definition cmd_umsg_process :: "('j, 'x) env \<Rightarrow> member_ptr \<Rightarrow> regex_parser \<Rightarrow> 'x world \<Rightarrow> 'x world" where
  "cmd_umsg_process E m p w =
     (let (found, p) = parser_next r_int p;
          mid = (if found then read_uint 0 p else 0);
          (_, p) = parser_next r_to_space p;
          (found, p) = parser_next r_spaces p;
          smsg = (if found then parser_suffix p else [])
      in if regex_match smsg rx_blank then reply E m txt_no_text w
         else (case findMemberById w (m_room (w_member w m)) mid of
                 None \<Rightarrow> reply E m txt_msg_no_user w
               | Some m2 \<Rightarrow> if m_nick (w_member w m2) = [] then reply E m txt_msg_no_user w
                            else send_private E m m2 smsg w))"

subsection \<open>Bans, kicks, moderators\<close>

definition ban_limit :: nat where
  "ban_limit = 100"

definition moder_limit :: nat where
  "moder_limit = 10"

text \<open>
  Run an operation on one of the sets of the room, and reply with the first text if it
  changed the set and with the second if it did not.
\<close>

definition on_room_set :: "('j, 'x) env \<Rightarrow> member_ptr \<Rightarrow> (room \<Rightarrow> bool \<times> room) \<Rightarrow> string \<Rightarrow> string
    \<Rightarrow> 'x world \<Rightarrow> 'x world" where
  "on_room_set E m f yes no w =
     (let r = m_room (w_member w m); changed = fst (f (w_room w r))
      in reply E m (if changed then yes else no) (upd_room r (\<lambda>rm. snd (f rm)) w))"

definition cmd_bannick_process :: "('j, 'x) env \<Rightarrow> member_ptr \<Rightarrow> regex_parser \<Rightarrow> 'x world \<Rightarrow> 'x world" where
  "cmd_bannick_process E m p w =
     (let r = m_room (w_member w m); nick = parser_suffix p
      in if \<not> member_isAdmin w m \<and> length (r_bannedNicks (w_room w r)) > ban_limit
         then reply E m txt_nick_limit w
         else if length nick > 24 \<or> nick = [] then reply E m txt_bad_nick w
         else if fst (room_banNick nick (w_room w r))
         then (let w = upd_room r (\<lambda>rm. snd (room_banNick nick rm)) w;
                   w = (case findMemberByNick w r nick of
                          None \<Rightarrow> w | Some k \<Rightarrow> room_kickMember E r k w)
               in reply E m txt_nick_now_banned w)
         else reply E m txt_nick_was_banned w)"

definition cmd_banuid_process :: "('j, 'x) env \<Rightarrow> member_ptr \<Rightarrow> regex_parser \<Rightarrow> 'x world \<Rightarrow> 'x world" where
  "cmd_banuid_process E m p w =
     (let r = m_room (w_member w m)
      in if \<not> member_isAdmin w m \<and> length (r_bannedUids (w_room w r)) > ban_limit
         then reply E m txt_uid_limit w
         else (let (found, p) = parser_next r_int p
               in if found
                  then on_room_set E m (room_banUid (read_uint 0 p)) txt_uid_now_banned
                         txt_uid_was_banned w
                  else reply E m txt_give_uid w))"

definition cmd_banip_process :: "('j, 'x) env \<Rightarrow> member_ptr \<Rightarrow> regex_parser \<Rightarrow> 'x world \<Rightarrow> 'x world" where
  "cmd_banip_process E m p w =
     (let r = m_room (w_member w m)
      in if \<not> member_isAdmin w m \<and> length (r_bannedIps (w_room w r)) > ban_limit
         then reply E m txt_ip_limit w
         else (let (found, p) = parser_next r_ip p
               in if found
                  then on_room_set E m (room_banIp (read_string [] p)) txt_ip_now_banned
                         txt_ip_was_banned w
                  else reply E m txt_give_ip w))"

definition cmd_unbannick_process :: "('j, 'x) env \<Rightarrow> member_ptr \<Rightarrow> regex_parser \<Rightarrow> 'x world \<Rightarrow> 'x world" where
  "cmd_unbannick_process E m p w =
     (let nick = parser_suffix p
      in if length nick > 24 \<or> nick = [] then reply E m txt_bad_nick w
         else on_room_set E m (room_unbanNick nick) txt_unbanned txt_nick_not_banned w)"

definition cmd_unbanuid_process :: "('j, 'x) env \<Rightarrow> member_ptr \<Rightarrow> regex_parser \<Rightarrow> 'x world \<Rightarrow> 'x world" where
  "cmd_unbanuid_process E m p w =
     (let (found, p) = parser_next r_int p
      in if found
         then on_room_set E m (room_unbanUid (read_uint 0 p)) txt_uid_unbanned txt_uid_not_banned w
         else reply E m txt_give_uid w)"

definition cmd_unbanip_process :: "('j, 'x) env \<Rightarrow> member_ptr \<Rightarrow> regex_parser \<Rightarrow> 'x world \<Rightarrow> 'x world" where
  "cmd_unbanip_process E m p w =
     (let (found, p) = parser_next r_ip p
      in if found
         then on_room_set E m (room_unbanIp (read_string [] p)) txt_ip_unbanned txt_ip_not_banned w
         else reply E m txt_give_uid w)"

definition cmd_kick_process :: "('j, 'x) env \<Rightarrow> member_ptr \<Rightarrow> regex_parser \<Rightarrow> 'x world \<Rightarrow> 'x world" where
  "cmd_kick_process E m p w =
     (let r = m_room (w_member w m)
      in case findMemberByNick w r (parser_suffix p) of
           Some k \<Rightarrow> room_kickMember E r k w
         | None \<Rightarrow> reply E m txt_no_user_kick w)"

definition cmd_addmoder_process :: "('j, 'x) env \<Rightarrow> member_ptr \<Rightarrow> regex_parser \<Rightarrow> 'x world \<Rightarrow> 'x world" where
  "cmd_addmoder_process E m p w =
     (let r = m_room (w_member w m)
      in if \<not> client_isAdmin (w_client w (m_client (w_member w m)))
            \<and> length (r_moderators (w_room w r)) > moder_limit
         then reply E m txt_moder_limit w
         else (let (found, p) = parser_next r_int p
               in if found
                  then (let uid = read_uint 0 p
                        in if uid = 0 then reply E m txt_moder_guest w
                           else on_room_set E m (room_addModerator uid) txt_moder_added
                                  txt_moder_already w)
                  else reply E m txt_give_uid w))"

definition cmd_delmoder_process :: "('j, 'x) env \<Rightarrow> member_ptr \<Rightarrow> regex_parser \<Rightarrow> 'x world \<Rightarrow> 'x world" where
  "cmd_delmoder_process E m p w =
     (let (found, p) = parser_next r_int p
      in if found
         then on_room_set E m (room_removeModerator (read_uint 0 p)) txt_moder_removed txt_not_moder w
         else reply E m txt_give_uid w)"

subsection \<open>Dispatch\<close>

primrec command_process ::
    "('j, 'x) env \<Rightarrow> command \<Rightarrow> member_ptr \<Rightarrow> regex_parser \<Rightarrow> 'x world \<Rightarrow> 'x world" where
  "command_process E CommandHelp m p w = cmd_help_process E m w"
| "command_process E CommandNick m p w = cmd_nick_process E m p w"
| "command_process E CommandGender m p w = cmd_gender_process E m p w"
| "command_process E CommandColor m p w = cmd_color_process E m p w"
| "command_process E (CommandStyledMessage sty) m p w = cmd_styled_process E sty m p w"
| "command_process E CommandPrivateMessage m p w = cmd_msg_process E m p w"
| "command_process E CommandPrivateMessageById m p w = cmd_umsg_process E m p w"
| "command_process E CommandMyRoomList m p w = cmd_myrooms_process E m w"
| "command_process E CommandModerList m p w = cmd_moderlist_process E m w"
| "command_process E CommandBanList m p w = cmd_banlist_process E m w"
| "command_process E CommandBanNick m p w = cmd_bannick_process E m p w"
| "command_process E CommandBanUid m p w = cmd_banuid_process E m p w"
| "command_process E CommandBanIp m p w = cmd_banip_process E m p w"
| "command_process E CommandUnbanNick m p w = cmd_unbannick_process E m p w"
| "command_process E CommandUnbanUid m p w = cmd_unbanuid_process E m p w"
| "command_process E CommandUnbanIp m p w = cmd_unbanip_process E m p w"
| "command_process E CommandKick m p w = cmd_kick_process E m p w"
| "command_process E CommandUserList m p w = cmd_userlist_process E m w"
| "command_process E CommandAddModer m p w = cmd_addmoder_process E m p w"
| "command_process E CommandDelModer m p w = cmd_delmoder_process E m p w"
| "command_process E CommandRoomList m p w = cmd_roomlist_process E m w"
| "command_process E CommandIpCounter m p w = cmd_ipcounter_process E m w"

text \<open>
  \<open>CommandProcessor::process\<close>: the result of the command, or nothing when the
  processor has no command of that name. A lookup that fails changes nothing.
\<close>

definition processor_process :: "('j, 'x) env \<Rightarrow> command list \<Rightarrow> string \<Rightarrow> member_ptr \<Rightarrow> regex_parser
    \<Rightarrow> 'x world \<Rightarrow> 'x world option" where
  "processor_process E cs cmd m p w =
     map_option (\<lambda>c. command_process E c m p w) (processor_find cs cmd)"

text \<open>The processors a member may use, in the order they are asked.\<close>

definition granted :: "'x world \<Rightarrow> member_ptr \<Rightarrow> command list list" where
  "granted w m =
     (if member_isAdmin w m then [cmd_admin] else []) @
     (if member_isOwner w m then [cmd_owner] else []) @
     (if member_isModer w m then [cmd_moder] else []) @
     (if member_hasNick w m then [cmd_user] else []) @
     (if 0 < c_uid (w_client w (m_client (w_member w m))) then [cmd_auth_user] else []) @
     [cmd_all]"

primrec first_processor :: "('j, 'x) env \<Rightarrow> command list list \<Rightarrow> string \<Rightarrow> member_ptr \<Rightarrow> regex_parser
    \<Rightarrow> 'x world \<Rightarrow> 'x world option" where
  "first_processor E [] cmd m p w = None"
| "first_processor E (cs # css) cmd m p w = (case processor_process E cs cmd m p w of
       Some w' \<Rightarrow> Some w' | None \<Rightarrow> first_processor E css cmd m p w)"

definition r_cmd :: rx where
  "r_cmd = Seq Bol (Seq (rx_char CHR ''/'') (Grp 1 (rx_plus (Cls (\<lambda>c. \<not> is_space c)))))"

text \<open>
  \<open>processCommand\<close>: \<open>None\<close> when the text is not a command. \<open>msg[0]\<close> of the
  empty string is the terminating zero.
\<close>

definition processCommand ::
    "('j, 'x) env \<Rightarrow> member_ptr \<Rightarrow> room_ptr \<Rightarrow> string \<Rightarrow> 'x world \<Rightarrow> 'x world option" where
  "processCommand E m r msg w =
     (if msg = [] \<or> hd msg \<noteq> CHR ''/'' then None
      else (let bad = member_sendPacket E m (sys_packet (r_name (w_room w r)) txt_no_command) w;
                (found, p) = parser_next r_cmd (parser_new msg)
            in if \<not> found then Some bad
               else (let (cmd, p) = parser_extract p; p = snd (parser_next r_spaces p)
                     in case first_processor E (granted w m) (case cmd of None \<Rightarrow> [] | Some c \<Rightarrow> c) m p w of
                          Some w' \<Rightarrow> Some w'
                        | None \<Rightarrow> Some bad)))"

end
