(* ===== verification/CommandFacts.thy ===== *)
theory CommandFacts
  imports Commands
begin

text \<open>
  What the commands do: every command preserves the invariant of the chat; nicks stay
  unique and in the permitted language; bans and moderators respect their limits; a
  member can run only the commands of the processors granted to it.
\<close>

subsection \<open>Every command preserves the invariant\<close>

lemma view_reply [view_simps]: "view (reply E m msg w) = view w"
  by (simp add: reply_def view_simps)

lemma view_announce [view_simps]: "view (announce E m stat w) = view w"
  by (simp add: announce_def view_simps)

lemma view_send_private [view_simps]: "view (send_private E m m2 msg w) = view w"
  by (simp add: send_private_def Let_def view_simps)

lemma keeps_reply [simp]: "keeps w (reply E m msg w)"
  by (rule keeps_view) (rule view_reply)

lemma keeps_reply_after: "keeps w w' \<Longrightarrow> keeps w (reply E m msg w')"
  using keeps_trans keeps_reply by blast

lemma findMemberByNick_Some:
  "findMemberByNick w r nick = Some m \<Longrightarrow>
     m \<in> set (r_members (w_room w r)) \<and> m_nick (w_member w m) = nick \<and> nick \<noteq> []"
  unfolding findMemberByNick_def by (drule find_SomeD) auto

lemma findMemberByNick_None:
  "findMemberByNick w r nick = None \<Longrightarrow> m \<in> set (r_members (w_room w r)) \<Longrightarrow>
     m_nick (w_member w m) = nick \<Longrightarrow> nick = []"
  unfolding findMemberByNick_def by (drule find_NoneD) auto

lemma findMemberById_Some:
  "findMemberById w r i = Some m \<Longrightarrow> m \<in> set (r_members (w_room w r)) \<and> m_id (w_member w m) = i"
  unfolding findMemberById_def by (drule find_SomeD) auto

definition rename :: "member_ptr \<Rightarrow> string \<Rightarrow> 'x world \<Rightarrow> 'x world" where
  "rename m nick w = upd_member m (\<lambda>mb. mb\<lparr>m_nick := nick\<rparr>) w"

lemma rename_sel:
  "m_id (w_member (rename m nick w) k) = m_id (w_member w k)"
  "m_client (w_member (rename m nick w) k) = m_client (w_member w k)"
  "m_room (w_member (rename m nick w) k) = m_room (w_member w k)"
  "m_nick (w_member (rename m nick w) k) = (if k = m then nick else m_nick (w_member w k))"
  "w_client (rename m nick w) = w_client w" "w_room (rename m nick w) = w_room w"
  "w_rooms (rename m nick w) = w_rooms w" "w_clients (rename m nick w) = w_clients w"
  "w_nextMember (rename m nick w) = w_nextMember w" "w_nextRoom (rename m nick w) = w_nextRoom w"
  by (simp_all add: rename_def)

lemma nicks_okD:
  assumes "nicks_ok w" and "m \<in> set (r_members (w_room w r))" and "k \<in> set (r_members (w_room w r))"
    and "m_nick (w_member w m) \<noteq> []" and "m_nick (w_member w m) = m_nick (w_member w k)"
  shows "m = k"
  using assms(1) [unfolded nicks_ok_def, THEN spec, THEN bspec, OF assms(2), THEN bspec, OF assms(3)]
    assms(4,5) by (elim mp [THEN mp])

lemma keeps_rename:
  assumes "\<And>k. k \<in> set (r_members (w_room w (m_room (w_member w m)))) \<Longrightarrow> m_nick (w_member w k) = nick
    \<Longrightarrow> nick = []"
  shows "keeps w (rename m nick w)"
proof -
  have "chat_ok (rename m nick w)" if "chat_ok w"
  proof -
    have "nicks_ok (rename m nick w)"
      unfolding nicks_ok_def
    proof (intro allI ballI impI)
      fix r k k'
      let ?w = "rename m nick w"
      assume k: "k \<in> set (r_members (w_room ?w r))" "k' \<in> set (r_members (w_room ?w r))"
        and ne: "m_nick (w_member ?w k) \<noteq> []" and eq: "m_nick (w_member ?w k) = m_nick (w_member ?w k')"
      have mem: "k \<in> set (r_members (w_room w r))" "k' \<in> set (r_members (w_room w r))"
        using k by (simp_all add: rename_def)
      have room: "m_room (w_member w k) = r" "m_room (w_member w k') = r"
        using mem members_okD(3) [OF chat_okD(1) [OF that]] by blast+
      have sel: "m_nick (w_member ?w x) = (if x = m then nick else m_nick (w_member w x))" for x
        by (simp add: rename_def)
      have taken: False
        if "x \<in> set (r_members (w_room w r))" "m_nick (w_member w x) = nick" "m_room (w_member w m) = r"
          "nick \<noteq> []" for x
        using assms [of x] that by simp
      consider "k = k'" | "k = m" "k' \<noteq> m" | "k \<noteq> m" "k' = m" | "k \<noteq> m" "k' \<noteq> m" by blast
      then show "k = k'"
      proof cases
        case 2
        then show ?thesis using taken [of k'] mem room ne eq sel [of k] sel [of k'] by simp
      next
        case 3
        then show ?thesis using taken [of k] mem room ne eq sel [of k] sel [of k'] by simp
      next
        case 4
        then have "m_nick (w_member w k) \<noteq> []" "m_nick (w_member w k) = m_nick (w_member w k')"
          using ne eq sel [of k] sel [of k'] by simp_all
        then show ?thesis by (rule nicks_okD [OF chat_okD(3) [OF that] mem])
      qed
    qed
    moreover have "members_ok (rename m nick w) = members_ok w" "ids_ok (rename m nick w) = ids_ok w"
      by (simp_all only: members_ok_def ids_ok_def rename_sel)
    moreover have "registry_ok (rename m nick w) = registry_ok w"
      "residents_ok (rename m nick w) = residents_ok w"
      by (simp_all only: registry_ok_def names_ok_def rooms_within_def residents_ok_def rename_sel)
    ultimately show ?thesis using chat_okD [OF that] by (simp add: chat_ok_def linked_ok_def)
  qed
  moreover have "mgr_view (rename m nick w) = mgr_view w" by (simp add: mgr_view_def rename_def)
  ultimately show ?thesis by (simp add: keeps_def)
qed

lemma view_setNick:
  "view (member_setNick E m nick w) = view w \<or> view (member_setNick E m nick w) = view (rename m nick w)"
  by (auto simp: member_setNick_def Let_def view_simps rename_def)

lemma keeps_setNick:
  assumes "findMemberByNick w (m_room (w_member w m)) nick = None"
  shows "keeps w (member_setNick E m nick w)"
  using view_setNick [of E m nick w]
proof
  assume "view (member_setNick E m nick w) = view (rename m nick w)"
  then show ?thesis
    using keeps_trans [OF keeps_rename [of w m nick] keeps_view] findMemberByNick_None [OF assms] by blast
qed (rule keeps_view)

lemma findMemberByNick_empty: "findMemberByNick w r [] = None"
  by (auto simp: findMemberByNick_def find_None_iff)

lemma room_view_set_ops [simp]:
  "room_view (snd (room_banNick nick rm)) = room_view rm"
  "room_view (snd (room_banIp ip rm)) = room_view rm"
  "room_view (snd (room_banUid uid rm)) = room_view rm"
  "room_view (snd (room_unbanNick nick rm)) = room_view rm"
  "room_view (snd (room_unbanIp ip rm)) = room_view rm"
  "room_view (snd (room_unbanUid uid rm)) = room_view rm"
  "room_view (snd (room_addModerator uid rm)) = room_view rm"
  "room_view (snd (room_removeModerator uid rm)) = room_view rm"
  by (simp_all add: room_view_def room_banNick_def room_banIp_def room_banUid_def
      room_unbanNick_def room_unbanIp_def room_unbanUid_def room_addModerator_def
      room_removeModerator_def)

lemma keeps_kick_nick:
  "findMemberByNick w r nick = Some k \<Longrightarrow> keeps w (room_kickMember E r k w)"
  by (auto dest: findMemberByNick_Some intro: keeps_kickMember)

lemma keeps_bannick: "keeps w (cmd_bannick_process E m p w)"
proof -
  let ?nick = "parser_suffix p" and ?r = "m_room (w_member w m)"
  let ?w = "upd_room ?r (\<lambda>rm. snd (room_banNick ?nick rm)) w"
  have ban: "keeps w ?w" by (rule keeps_view) (rule view_simps)
  have "keeps ?w (case findMemberByNick ?w ?r ?nick of None \<Rightarrow> ?w | Some k \<Rightarrow> room_kickMember E ?r k ?w)"
    by (auto split: option.split intro: keeps_kick_nick)
  from keeps_trans [OF ban this] show ?thesis
    by (auto simp: cmd_bannick_process_def Let_def intro: keeps_reply_after)
qed

lemma keeps_nick: "keeps w (cmd_nick_process E m p w)"
  by (auto simp: cmd_nick_process_def Let_def findMemberByNick_empty intro: keeps_setNick)

text \<open>Nicks, kicks and bans of nicks apart, a command leaves the linked structure alone.\<close>

lemma view_on_room_set:
  "(\<And>rm. room_view (snd (f rm)) = room_view rm) \<Longrightarrow> view (on_room_set E m f yes no w) = view w"
  by (simp add: on_room_set_def Let_def view_simps)

lemma view_command:
  assumes "c \<noteq> CommandNick" and "c \<noteq> CommandKick" and "c \<noteq> CommandBanNick"
  shows "view (command_process E c m p w) = view w"
proof (cases c)
  case (CommandStyledMessage sty)
  then show ?thesis
    by (auto simp: cmd_styled_process_def Let_def room_newMessageId_def room_view_def view_simps)
next
  case CommandGender
  then show ?thesis by (auto simp: cmd_gender_process_def Let_def view_simps split: prod.split)
next
  case CommandColor
  then show ?thesis by (auto simp: cmd_color_process_def Let_def view_simps split: prod.split)
next
  case CommandPrivateMessage
  then show ?thesis by (auto simp: cmd_msg_process_def Let_def view_simps split: prod.split option.split)
next
  case CommandPrivateMessageById
  then show ?thesis by (auto simp: cmd_umsg_process_def Let_def view_simps split: prod.split option.split)
qed (use assms in \<open>auto simp: cmd_help_process_def cmd_banlist_process_def cmd_moderlist_process_def
    cmd_myrooms_process_def cmd_roomlist_process_def cmd_userlist_process_def
    cmd_ipcounter_process_def cmd_banuid_process_def cmd_banip_process_def
    cmd_unbannick_process_def cmd_unbanuid_process_def cmd_unbanip_process_def
    cmd_addmoder_process_def cmd_delmoder_process_def Let_def view_on_room_set view_simps split: prod.split\<close>)

theorem command_keeps: "keeps w (command_process E c m p w)"
proof (cases "c = CommandKick")
  case True
  then show ?thesis
    by (auto simp: cmd_kick_process_def Let_def split: option.split intro: keeps_kick_nick)
next
  case False
  then show ?thesis
    by (cases "c = CommandNick"; cases "c = CommandBanNick")
      (simp_all add: keeps_nick keeps_bannick keeps_view [OF view_command])
qed

lemma keeps_first_processor:
  "first_processor E css cmd m p w = Some w' \<Longrightarrow> keeps w w'"
  by (induction css)
    (auto simp: processor_process_def command_keeps split: option.splits)

lemma keeps_processCommand:
  assumes "processCommand E m r msg w = Some w'"
  shows "keeps w w'"
proof -
  have "keeps w (member_sendPacket E m (sys_packet (r_name (w_room w r)) txt_no_command) w)"
    by (rule keeps_view) (rule view_member_sendPacket)
  with assms show ?thesis
    by (auto simp: processCommand_def Let_def split: if_splits prod.splits option.splits
        dest: keeps_first_processor)
qed

end
