(* ===== verification/Packets.thy ===== *)
theory Packets
  imports CommandFacts
begin

text \<open>
  \<open>packets.cpp\<close>: the \<open>process\<close> methods of the packets that clients send, but for
  the login packet. \<open>c\<close> is the client the packet came from.
\<close>

subsection \<open>Messages\<close>

text \<open>
  The flood control: the counter restarts when more than a second has passed since the
  window opened, and a message is refused when more than three were counted.
\<close>

definition flood_window :: "client_ptr \<Rightarrow> 'x world \<Rightarrow> 'x world" where
  "flood_window c w =
     (if w_now w - c_lastMessageTime (w_client w c) > 1
      then upd_client c (\<lambda>cl. cl\<lparr>c_messageCounter := 0, c_lastMessageTime := w_now w\<rparr>) w
      else w)"

definition say_in_room ::
    "('j, 'x) env \<Rightarrow> client_ptr \<Rightarrow> room_ptr \<Rightarrow> string \<Rightarrow> string \<Rightarrow> 'x world \<Rightarrow> 'x world result" where
  "say_in_room E c r targ msg w =
     bindS (deref (findMemberByClient w r c)) (\<lambda>m.
       case processCommand E m r msg w of
         Some w' \<Rightarrow> Inr w'
       | None \<Rightarrow>
           Inr (if m_nick (w_member w m) = []
                then client_sendPacket E c (sys_packet targ txt_need_nick) w
                else (let pack = message_packet w m msg;
                          (i, rm) = room_newMessageId (w_room w r);
                          w = upd_room r (\<lambda>_. rm) w
                      in sendPacketToAll E r (Packet_Message (pack\<lparr>pm_id := show_u32 i\<rparr>)) w)))"

definition message_process ::
    "('j, 'x) env \<Rightarrow> client_ptr \<Rightarrow> packet_message \<Rightarrow> 'x world \<Rightarrow> 'x world result" where
  "message_process E c p w =
     (let targ = pm_target p; msg = pm_message p in
      if targ = [] \<or> msg = [] then Inr w
      else
        (let w = flood_window c w in
         if c_messageCounter (w_client w c) > 3
         then Inr (client_sendPacket E c (sys_packet targ txt_flood) w)
         else if regex_match msg rx_blank
         then Inr (client_sendPacket E c (sys_packet targ txt_no_text) w)
         else
           (let w = upd_client c (\<lambda>cl. cl\<lparr>c_messageCounter := c_messageCounter cl + 1\<rparr>) w
            in case client_getRoomByName w c targ of
                 None \<Rightarrow> Inr (client_sendPacket E c
                           (sys_packet [] (txt_cannot_write @ targ @ quote)) w)
               | Some r \<Rightarrow> say_in_room E c r targ msg w)))"

subsection \<open>Lists and statuses\<close>

definition online_list_process ::
    "('j, 'x) env \<Rightarrow> client_ptr \<Rightarrow> packet_online_list \<Rightarrow> 'x world \<Rightarrow> 'x world" where
  "online_list_process E c p w = (case client_getRoomByName w c (po_target p) of
       None \<Rightarrow> client_sendPacket E c (err_packet PT_online_list (po_sequenceId p) (po_target p)
                 EC_not_found (txt_not_connected @ po_target p @ quote)) w
     | Some r \<Rightarrow> client_sendPacket E c (online_list_packet w r None) w)"

definition away_in_room ::
    "('j, 'x) env \<Rightarrow> client_ptr \<Rightarrow> status \<Rightarrow> status \<Rightarrow> room_ptr \<Rightarrow> 'x world \<Rightarrow> 'x world" where
  "away_in_room E c stat nstat r w = (case findMemberByClient w r c of
       None \<Rightarrow> w
     | Some m \<Rightarrow>
         if m_nick (w_member w m) \<noteq> []
         then (let w = member_setStatus m nstat w
               in sendPacketToAll E r (Packet_Status (status_packet w m stat [])) w)
         else w)"

definition status_process ::
    "('j, 'x) env \<Rightarrow> client_ptr \<Rightarrow> packet_status \<Rightarrow> 'x world \<Rightarrow> 'x world" where
  "status_process E c p w =
     (let stat = pt_status p in
      if stat = St_away \<or> stat = St_back
      then fold (away_in_room E c stat (if stat = St_back then St_online else St_away))
             (c_rooms (w_client w c)) w
      else if stat = St_typing \<or> stat = St_stop_typing
      then (case client_getRoomByName w c (pt_target p) of
              None \<Rightarrow> w
            | Some r \<Rightarrow> (case findMemberByClient w r c of
                None \<Rightarrow> w
              | Some m \<Rightarrow>
                  if m_nick (w_member w m) \<noteq> []
                  then sendPacketToAll E r (Packet_Status (status_packet w m stat [])) w
                  else w))
      else w)"

subsection \<open>Joining a room\<close>

text \<open>
  What follows a successful join. The nick kept for the member: the stored one, or the
  client's name; it is given up when it is banned or taken.
\<close>

definition auto_login ::
    "('j, 'x) env \<Rightarrow> room_ptr \<Rightarrow> client_ptr \<Rightarrow> member_ptr \<Rightarrow> 'x world \<Rightarrow> string \<times> 'x world" where
  "auto_login E r c m w =
     (let (nick, w) = (case getStoredMemberInfo w r m of
            Some info \<Rightarrow>
              (mi_nick info, member_setColor m (mi_color info) (member_setGirl m (mi_girl info) w))
          | None \<Rightarrow>
              (let cl = w_client w c
               in (c_name cl, member_setColor m (c_color cl) (member_setGirl m (c_isGirl cl) w))));
          (nick, w) = (if \<not> member_isModer w m \<and> room_isBannedNick nick (w_room w r)
            then ([], member_sendPacket E m
                    (sys_packet [] (txt_old_nick_pre @ nick @ txt_old_nick_banned)) w)
            else (nick, w))
      in if findMemberByNick w r nick \<noteq> None
         then ([], member_sendPacket E m
                 (sys_packet [] (txt_old_nick_pre @ nick @ txt_old_nick_taken)) w)
         else (nick, w))"

definition after_join ::
    "('j, 'x) env \<Rightarrow> client_ptr \<Rightarrow> room_ptr \<Rightarrow> packet_join \<Rightarrow> member_ptr \<Rightarrow> 'x world \<Rightarrow> 'x world" where
  "after_join E c r p m w =
     (let w = client_sendPacket E c (join_packet w m (pj_sequenceId p)) w;
          w = client_sendPacket E c (online_list_packet w r (pj_sequenceId p)) w;
          w = (if pj_load_history p then send_history c r w else w);
          (nick, w) = (if pj_auto_login p then auto_login E r c m w else ([], w));
          w = member_sendPacket E m (sys_packet (r_name (w_room w r)) txt_type_help) w
      in if nick = [] then member_sendPacket E m (sys_packet (r_name (w_room w r)) txt_need_nick) w
         else member_setNick E m nick w)"

definition ban_reply :: "('j, 'x) env \<Rightarrow> client_ptr \<Rightarrow> room_ptr \<Rightarrow> packet_join \<Rightarrow> ban_exception
    \<Rightarrow> 'x world \<Rightarrow> 'x world" where
  "ban_reply E c r p e w =
     client_sendPacket E c (err_packet PT_join (pj_sequenceId p) (r_name (w_room w r)) EC_user_banned
       (case e of
          BannedByIPException \<Rightarrow> txt_you_banned
        | BannedByIDException \<Rightarrow> if c_uid (w_client w c) = 0 then txt_guest_no_join
                                 else txt_you_banned)) w"

definition join_process ::
    "('j, 'x) env \<Rightarrow> client_ptr \<Rightarrow> packet_join \<Rightarrow> 'x world \<Rightarrow> 'x world result" where
  "join_process E c p w =
     (if client_getRoomByName w c (pj_target p) \<noteq> None
      then Inr (client_sendPacket E c (err_packet PT_join (pj_sequenceId p) (pj_target p)
                  EC_already_connected (txt_already_connected @ pj_target p @ quote)) w)
      else (case server_getRoomByName w (pj_target p) of
              None \<Rightarrow> Inr (client_sendPacket E c (err_packet PT_join (pj_sequenceId p) (pj_target p)
                  EC_not_found (txt_room_pre @ pj_target p @ txt_room_post)) w)
            | Some r \<Rightarrow> bindS (client_joinRoom c r w) (\<lambda>(res, w). Inr (case res of
                  Inl e \<Rightarrow> ban_reply E c r p e w
                | Inr None \<Rightarrow> w
                | Inr (Some m) \<Rightarrow> after_join E c r p m w))))"

subsection \<open>Leaving, creating and removing rooms\<close>

definition leave_process ::
    "('j, 'x) env \<Rightarrow> client_ptr \<Rightarrow> packet_leave \<Rightarrow> 'x world \<Rightarrow> 'x world result" where
  "leave_process E c p w = (case client_getRoomByName w c (pl_target p) of
       None \<Rightarrow> Inr (client_sendPacket E c (err_packet PT_leave (pl_sequenceId p) (pl_target p)
                 EC_not_found (txt_not_connected @ pl_target p @ quote)) w)
     | Some r \<Rightarrow> bindS (client_leaveRoom E c r w) (\<lambda>w.
                   Inr (client_sendPacket E c (Packet_Leave p) w)))"

definition room_name_char :: "char \<Rightarrow> bool" where
  "room_name_char ch = (is_alpha ch \<or> is_digit ch \<or>
     ch \<in> {CHR ''-'', CHR ''_'', CHR '' '', CHR ''['', CHR '']'', CHR ''('', CHR '')''})"

definition rx_room_name :: rx where
  "rx_room_name = Seq (rx_char CHR ''#'') (Rep (Cls room_name_char) 3 (Some 24))"

definition create_room_process ::
    "('j, 'x) env \<Rightarrow> client_ptr \<Rightarrow> packet_create_room \<Rightarrow> 'x world \<Rightarrow> 'x world" where
  "create_room_process E c p w =
     (let refuse = (\<lambda>cod txt. client_sendPacket E c
                     (err_packet PT_create_room (pc_sequenceId p) (pc_target p) cod txt) w)
      in if client_isGuest (w_client w c) then refuse EC_access_denied txt_guest_no_create
         else if \<not> regex_match (pc_target p) rx_room_name then refuse EC_invalid_target txt_bad_room_name
         else (case server_createRoom (pc_target p) w of
                 (None, _) \<Rightarrow> refuse EC_already_exists txt_room_exists
               | (Some r, w) \<Rightarrow>
                   client_sendPacket E c (Packet_CreateRoom p)
                     (upd_room r (room_setOwner (c_uid (w_client w c))) w)))"

definition remove_room_process ::
    "('j, 'x) env \<Rightarrow> client_ptr \<Rightarrow> packet_remove_room \<Rightarrow> 'x world \<Rightarrow> 'x world result" where
  "remove_room_process E c p w =
     (let refuse = (\<lambda>cod txt. Inr (client_sendPacket E c
                     (err_packet PT_remove_room (pr_sequenceId p) (pr_target p) cod txt) w))
      in if client_isGuest (w_client w c) then refuse EC_access_denied txt_guest_no_remove
         else (case server_getRoomByName w (pr_target p) of
                 None \<Rightarrow> refuse EC_not_found txt_no_such_room
               | Some r \<Rightarrow>
                   if client_isAdmin (w_client w c) \<or> c_uid (w_client w c) = r_ownerId (w_room w r)
                   then bindS (server_removeRoom E (pr_target p) w) (\<lambda>(_, w).
                          Inr (client_sendPacket E c (Packet_RemoveRoom p) w))
                   else refuse EC_access_denied txt_cannot_remove))"

end
