(* ===== verification/Services.thy ===== *)
theory Services
  imports Packets
begin

text \<open>
  The clients of external services: \<open>redis.hpp\<close>, \<open>gate.hpp\<close> and \<open>db.hpp\<close>. Redis
  and the SQL servers are operations of the environment on an opaque state \<open>'x\<close>; a
  computation over them returns a value or throws, and changes the state either way.
\<close>

subsection \<open>Computations that may throw\<close>

type_synonym ('a, 'x) ext = "'x \<Rightarrow> (exn + 'a) \<times> 'x"

definition retX :: "'a \<Rightarrow> ('a, 'x) ext" where
  "retX a x = (Inr a, x)"

definition throwX :: "exn \<Rightarrow> ('a, 'x) ext" where
  "throwX e x = (Inl e, x)"

definition bindX :: "('a, 'x) ext \<Rightarrow> ('a \<Rightarrow> ('b, 'x) ext) \<Rightarrow> ('b, 'x) ext" where
  "bindX f g x = (case f x of (Inl e, x) \<Rightarrow> (Inl e, x) | (Inr a, x) \<Rightarrow> g a x)"

text \<open>\<open>try f catch e \<Rightarrow> h e\<close>.\<close>

definition catchX :: "('a, 'x) ext \<Rightarrow> (exn \<Rightarrow> ('a, 'x) ext) \<Rightarrow> ('a, 'x) ext" where
  "catchX f h x = (case f x of (Inl e, x) \<Rightarrow> h e x | (Inr a, x) \<Rightarrow> (Inr a, x))"

lemma bindX_simps [simp]:
  "f x = (Inr a, y) \<Longrightarrow> bindX f g x = g a y"
  "f x = (Inl e, y) \<Longrightarrow> bindX f g x = (Inl e, y)"
  "bindX (retX a) g = g a"
  by (simp_all add: bindX_def retX_def fun_eq_iff)

subsection \<open>Redis\<close>

definition redis_isConnectionValid :: "('j, 'x) env \<Rightarrow> (bool, 'x) ext" where
  "redis_isConnectionValid E x =
     (if \<not> e_redis_connected E x then (Inr False, x)
      else catchX (bindX (e_redis_command E ''PING'' []) (\<lambda>r. retX (r = Reply_ok ''PONG'')))
             (\<lambda>_. retX False) x)"

definition redis_new :: "('j, 'x) env \<Rightarrow> (unit, 'x) ext" where
  "redis_new E = bindX (redis_isConnectionValid E) (\<lambda>valid.
     if valid then retX () else e_redis_connect E)"

text \<open>
  \<open>istringstream(reply) >> val\<close> reads a \<open>string\<close> up to the first white space.
\<close>

definition istream_word :: "string \<Rightarrow> string" where
  "istream_word s = takeWhile (\<lambda>c. \<not> is_space c) (dropWhile is_space s)"

definition redis_get :: "('j, 'x) env \<Rightarrow> (string \<Rightarrow> 'a) \<Rightarrow> string \<Rightarrow> ('a option, 'x) ext" where
  "redis_get E conv key = bindX (e_redis_command E ''GET'' [key]) (\<lambda>r. retX (case r of
       Reply_null \<Rightarrow> None | Reply_ok s \<Rightarrow> Some (conv s) | Reply_error \<Rightarrow> None))"

definition redis_getJson :: "('j, 'x) env \<Rightarrow> string \<Rightarrow> ('j option, 'x) ext" where
  "redis_getJson E key = bindX (redis_get E istream_word key) (\<lambda>r. retX (case r of
       None \<Rightarrow> None | Some s \<Rightarrow> j_parse (e_json E) s))"

text \<open>The source gives \<open>SETEX\<close> no key.\<close>

definition redis_set :: "('j, 'x) env \<Rightarrow> string \<Rightarrow> int \<Rightarrow> int \<Rightarrow> (bool, 'x) ext" where
  "redis_set E key val expiration =
     bindX (if expiration > 0
            then e_redis_command E ''SETEX'' [show_int expiration, show_int val]
            else e_redis_command E ''SET'' [key, show_int val])
       (\<lambda>r. retX (r \<noteq> Reply_error))"

text \<open>The overload for strings and the one for JSON documents; nothing else calls them.\<close>

definition redis_setString :: "('j, 'x) env \<Rightarrow> string \<Rightarrow> string \<Rightarrow> int \<Rightarrow> (bool, 'x) ext" where
  "redis_setString E key val expiration =
     bindX (if expiration > 0
            then e_redis_command E ''SETEX'' [show_int expiration, val]
            else e_redis_command E ''SET'' [key, val])
       (\<lambda>r. retX (r \<noteq> Reply_error))"

definition redis_setJson :: "('j, 'x) env \<Rightarrow> string \<Rightarrow> 'j \<Rightarrow> int \<Rightarrow> (bool, 'x) ext" where
  "redis_setJson E key val expiration = redis_setString E key (j_write (e_json E) val) expiration"

subsection \<open>The gate\<close>

definition gate_tries :: "('j, 'x) env \<Rightarrow> string \<Rightarrow> string \<Rightarrow> int \<Rightarrow> int \<Rightarrow> (bool, 'x) ext" where
  "gate_tries E nm key tries timeout =
     (let mdkey = ''gate-'' @ nm @ ''-'' @ key
      in bindX (redis_get E istream_int mdkey) (\<lambda>r.
           let cnt = (case r of None \<Rightarrow> 0 | Some n \<Rightarrow> n) + 1
           in if cnt > tries then retX False
              else bindX (redis_set E mdkey cnt timeout) (\<lambda>_. retX True)))"

definition gate_resetTries :: "('j, 'x) env \<Rightarrow> string \<Rightarrow> string \<Rightarrow> (unit, 'x) ext" where
  "gate_resetTries E nm key =
     (let mdkey = ''gate-'' @ nm @ ''-'' @ key
      in bindX (redis_get E istream_int mdkey) (\<lambda>r. case r of
           Some n \<Rightarrow> if n > 0 then bindX (redis_set E mdkey 0 1) (\<lambda>_. retX ()) else retX ()
         | None \<Rightarrow> retX ()))"

definition gate_auth :: "('j, 'x) env \<Rightarrow> string \<Rightarrow> bool \<Rightarrow> (bool, 'x) ext" where
  "gate_auth E ip reset =
     (if reset then bindX (gate_resetTries E ''auth'' ip) (\<lambda>_. retX True)
      else gate_tries E ''auth'' ip 4 (5 * 60))"

subsection \<open>The databases\<close>

record db_user_info =
  du_uid :: int
  du_gid :: int
  du_login :: string

definition col :: "string list \<Rightarrow> nat \<Rightarrow> string" where
  "col row n = (if n < length row then row ! n else [])"

text \<open>
  \<open>retryWithReconnect\<close>: \<open>tries\<close> attempts were made before; only the exceptions of the
  SQL client are retried, and a reconnection that throws ends the loop.
\<close>

function retryWithReconnect ::
    "(unit, 'x) ext \<Rightarrow> int \<Rightarrow> int \<Rightarrow> ('a, 'x) ext \<Rightarrow> ('a, 'x) ext" where
  "retryWithReconnect reconnect count tries f x =
     (case f x of
        (Inr a, x1) \<Rightarrow> (Inr a, x1)
      | (Inl e, x1) \<Rightarrow>
          if e \<noteq> Sql_exception \<or> tries + 1 \<ge> count then (Inl e, x1)
          else (case reconnect x1 of
                  (Inl e2, x2) \<Rightarrow> (Inl e2, x2)
                | (Inr _, x2) \<Rightarrow> retryWithReconnect reconnect count (tries + 1) f x2))"
  by pat_completeness auto
termination
  by (relation "measure (\<lambda>(r, count, tries, f, x). nat (count - tries))") auto

declare retryWithReconnect.simps [simp del]

definition mysql_properties :: "('j, 'x) env \<Rightarrow> (string \<times> connect_property) list" where
  "mysql_properties E =
     (let dbconf = (\<lambda>k. String_property (e_config E [''databaseMysql'', k]))
      in [(''hostName'', dbconf ''host''), (''userName'', dbconf ''user''), (''password'', dbconf ''password''),
          (''schema'', dbconf ''db''), (''OPT_CHARSET_NAME'', dbconf ''charset''),
          (''OPT_RECONNECT'', Bool_property True)])"

definition mysql_reconnect :: "('j, 'x) env \<Rightarrow> (unit, 'x) ext" where
  "mysql_reconnect E x =
     (if \<not> e_sql_conn E Mysql x then e_mysql_connect E (mysql_properties E) x else e_mysql_reconnect E x)"

definition mysql_new :: "('j, 'x) env \<Rightarrow> (unit, 'x) ext" where
  "mysql_new E x =
     (if \<not> e_sql_conn E Mysql x \<or> \<not> e_sql_open E Mysql x then mysql_reconnect E x else (Inr (), x))"

text \<open>
  A \<open>SafeStatement\<close> holds its text and its parameters, or nothing once it was moved away;
  then its operations return a default.
\<close>

type_synonym safe_statement = "(string \<times> string list) option"

text \<open>The constructor; the one that moves, which leaves the source empty; and the assignment, which swaps.\<close>

definition safe_statement_new :: "string \<Rightarrow> safe_statement" where
  "safe_statement_new sql = Some (sql, [])"

definition safe_statement_move :: "safe_statement \<Rightarrow> safe_statement \<times> safe_statement" where
  "safe_statement_move ss = (ss, None)"

definition safe_statement_assign :: "safe_statement \<Rightarrow> safe_statement \<Rightarrow> safe_statement \<times> safe_statement" where
  "safe_statement_assign this ss = (ss, this)"

definition db_exception :: "('a, 'x) ext \<Rightarrow> ('a, 'x) ext" where
  "db_exception f = catchX f (\<lambda>e. throwX (if e = Sql_exception then Db_exception else e))"

definition mysql_statement :: "('j, 'x) env \<Rightarrow> (safe_statement, 'x) ext" where
  "mysql_statement E = bindX (db_exception (e_sql_statement E)) (\<lambda>_. retX (safe_statement_new []))"

definition mysql_prepare :: "('j, 'x) env \<Rightarrow> string \<Rightarrow> (safe_statement, 'x) ext" where
  "mysql_prepare E sql = bindX (db_exception (e_sql_prepare E sql)) (\<lambda>_. retX (safe_statement_new sql))"

definition statement_retry ::
    "('j, 'x) env \<Rightarrow> safe_statement \<Rightarrow> 'a \<Rightarrow> (string \<Rightarrow> string list \<Rightarrow> ('a, 'x) ext) \<Rightarrow> ('a, 'x) ext" where
  "statement_retry E pst def f = (case pst of
       None \<Rightarrow> retX def
     | Some (sql, ps) \<Rightarrow> retryWithReconnect (mysql_reconnect E) 3 0 (f sql ps))"

lemma moved_statement:
  "safe_statement_move ss = (ss', old) \<Longrightarrow> statement_retry E old def f = retX def \<and> statement_retry E ss' def f = statement_retry E ss def f"
  by (simp add: safe_statement_move_def statement_retry_def)

definition statement_execute :: "('j, 'x) env \<Rightarrow> safe_statement \<Rightarrow> (bool, 'x) ext" where
  "statement_execute E pst = statement_retry E pst False (e_sql_execute E)"

definition statement_executeQuery :: "('j, 'x) env \<Rightarrow> safe_statement \<Rightarrow> (string list list, 'x) ext" where
  "statement_executeQuery E pst = statement_retry E pst [] (e_sql_query E Mysql)"

definition statement_executeUpdate :: "('j, 'x) env \<Rightarrow> safe_statement \<Rightarrow> (int, 'x) ext" where
  "statement_executeUpdate E pst = statement_retry E pst 0 (e_sql_update E)"

text \<open>\<open>ps->setString(i, s)\<close>: the parameters are set in order.\<close>

definition set_params :: "string list \<Rightarrow> safe_statement \<Rightarrow> safe_statement" where
  "set_params ps pst = map_option (\<lambda>(sql, _). (sql, ps)) pst"

text \<open>
  \<open>execute\<close> and \<open>query\<close> go through \<open>operator ->\<close>, past the retries of \<open>SafeStatement\<close>.
  Nothing calls them.
\<close>

definition mysql_execute :: "('j, 'x) env \<Rightarrow> string \<Rightarrow> (bool, 'x) ext" where
  "mysql_execute E sql = bindX (mysql_statement E) (\<lambda>_. e_sql_execute E sql [])"

definition mysql_simpleQuery :: "('j, 'x) env \<Rightarrow> string \<Rightarrow> (string list list, 'x) ext" where
  "mysql_simpleQuery E sql = bindX (mysql_statement E) (\<lambda>_. e_sql_query E Mysql sql [])"

definition mysql_query :: "('j, 'x) env \<Rightarrow> string \<Rightarrow> string list \<Rightarrow> (string list list, 'x) ext" where
  "mysql_query E sql ps = bindX (mysql_prepare E sql) (\<lambda>st. statement_executeQuery E (set_params ps st))"

definition mysql_getUserIdByApiKey :: "('j, 'x) env \<Rightarrow> string \<Rightarrow> (int option, 'x) ext" where
  "mysql_getUserIdByApiKey E k =
     bindX (mysql_query E ''SELECT user_id FROM api_keys WHERE `key` = ?'' [k]) (\<lambda>rs. retX (case rs of
       row # _ \<Rightarrow> Some (e_sql_int E (col row 0)) | [] \<Rightarrow> None))"

definition mysql_getUserByUid :: "('j, 'x) env \<Rightarrow> int \<Rightarrow> (db_user_info option, 'x) ext" where
  "mysql_getUserByUid E uid =
     bindX (mysql_query E ''SELECT login, gid FROM users WHERE id = ?'' [show_int uid]) (\<lambda>rs.
       retX (case rs of
         row # _ \<Rightarrow> Some \<lparr>du_uid = uid, du_gid = e_sql_int E (col row 1), du_login = col row 0\<rparr>
       | [] \<Rightarrow> None))"

definition mysql_getUserByLoginAndPassword ::
    "('j, 'x) env \<Rightarrow> string \<Rightarrow> string \<Rightarrow> (db_user_info option, 'x) ext" where
  "mysql_getUserByLoginAndPassword E login pw =
     bindX (mysql_query E ''SELECT id, login, gid FROM users WHERE login = ? AND pass = MD5(?)''
              [login, pw]) (\<lambda>rs.
       retX (case rs of
         row # _ \<Rightarrow> Some \<lparr>du_uid = e_sql_int E (col row 0), du_gid = e_sql_int E (col row 2),
                        du_login = col row 1\<rparr>
       | [] \<Rightarrow> None))"

definition postgres_connection_string :: "('j, 'x) env \<Rightarrow> string" where
  "postgres_connection_string E =
     (let dbconf = (\<lambda>k. e_config E [''databasePostgres'', k])
      in ''user='' @ dbconf ''user'' @ '' password='' @ dbconf ''password'' @
         '' host='' @ dbconf ''host'' @ '' port='' @ dbconf ''port'' @ '' dbname='' @ dbconf ''db'' @
         '' options='' @ [CHR 0x27] @ ''-c search_path='' @ dbconf ''db'' @ [CHR 0x27] @ '' client_encoding=UTF8'')"

definition postgres_reconnect :: "('j, 'x) env \<Rightarrow> (unit, 'x) ext" where
  "postgres_reconnect E = e_postgres_connect E (postgres_connection_string E)"

definition postgres_new :: "('j, 'x) env \<Rightarrow> (unit, 'x) ext" where
  "postgres_new E x =
     (if \<not> e_sql_conn E Postgres x \<or> \<not> e_sql_open E Postgres x then postgres_reconnect E x else (Inr (), x))"

definition postgres_simpleQuery ::
    "('j, 'x) env \<Rightarrow> string \<Rightarrow> string list \<Rightarrow> (string list list, 'x) ext" where
  "postgres_simpleQuery E sql ps = db_exception (e_sql_query E Postgres sql ps)"

text \<open>No row, exactly one row, or too many.\<close>

definition one_row :: "(string list \<Rightarrow> 'a) \<Rightarrow> string list list \<Rightarrow> ('a option, 'x) ext" where
  "one_row f rs = (if length rs = 1 then retX (Some (f (hd rs)))
     else if length rs > 1 then throwX Db_exception else retX None)"

definition postgres_getUserIdByApiKey :: "('j, 'x) env \<Rightarrow> string \<Rightarrow> (int option, 'x) ext" where
  "postgres_getUserIdByApiKey E k =
     bindX (postgres_simpleQuery E ''select user_id from api_keys where key = $1'' [k])
       (one_row (\<lambda>row. e_sql_int E (col row 0)))"

definition postgres_getUserByUid :: "('j, 'x) env \<Rightarrow> int \<Rightarrow> (db_user_info option, 'x) ext" where
  "postgres_getUserByUid E uid =
     bindX (postgres_simpleQuery E ''select login, gid from users where id = $1'' [show_int uid])
       (one_row (\<lambda>row. \<lparr>du_uid = uid, du_gid = e_sql_int E (col row 1), du_login = col row 0\<rparr>))"

definition postgres_getUserByLoginAndPassword ::
    "('j, 'x) env \<Rightarrow> string \<Rightarrow> string \<Rightarrow> (db_user_info option, 'x) ext" where
  "postgres_getUserByLoginAndPassword E login pw =
     bindX (postgres_simpleQuery E
              ''select id, login, gid from users where login = $1 and pass = md5($2)'' [login, pw])
       (one_row (\<lambda>row. \<lparr>du_uid = e_sql_int E (col row 0), du_gid = e_sql_int E (col row 2),
                        du_login = col row 1\<rparr>))"

subsection \<open>The choice of the database\<close>

definition usePg :: "('j, 'x) env \<Rightarrow> bool" where
  "usePg E = (e_config E [''useDatabase''] = ''postgres'')"

definition db_reconnect :: "('j, 'x) env \<Rightarrow> (unit, 'x) ext" where
  "db_reconnect E = (if usePg E
     then bindX (postgres_new E) (\<lambda>_. postgres_reconnect E)
     else bindX (mysql_new E) (\<lambda>_. mysql_reconnect E))"

definition db_getUserIdByApiKey :: "('j, 'x) env \<Rightarrow> string \<Rightarrow> (int option, 'x) ext" where
  "db_getUserIdByApiKey E k = (if usePg E
     then bindX (postgres_new E) (\<lambda>_. postgres_getUserIdByApiKey E k)
     else bindX (mysql_new E) (\<lambda>_. mysql_getUserIdByApiKey E k))"

definition db_getUserByUid :: "('j, 'x) env \<Rightarrow> int \<Rightarrow> (db_user_info option, 'x) ext" where
  "db_getUserByUid E uid = (if usePg E
     then bindX (postgres_new E) (\<lambda>_. postgres_getUserByUid E uid)
     else bindX (mysql_new E) (\<lambda>_. mysql_getUserByUid E uid))"

definition db_getUserByLoginAndPassword ::
    "('j, 'x) env \<Rightarrow> string \<Rightarrow> string \<Rightarrow> (db_user_info option, 'x) ext" where
  "db_getUserByLoginAndPassword E login pw = (if usePg E
     then bindX (postgres_new E) (\<lambda>_. postgres_getUserByLoginAndPassword E login pw)
     else bindX (mysql_new E) (\<lambda>_. mysql_getUserByLoginAndPassword E login pw))"

end
