(* ===== verification/Auth.thy ===== *)
theory Auth
  imports Services
begin

text \<open>
  \<open>PacketAuth::process\<close> and \<open>Server::reviveClient\<close>: the login. Credentials are tried
  in the order token, one-time key, API key, login and password, session cookie; a token
  of another client hands the connection over to that client.
\<close>

definition lift_ext :: "('a, 'x) ext \<Rightarrow> 'x world \<Rightarrow> (exn + 'a) \<times> 'x world" where
  "lift_ext f w = (let (r, x) = f (w_ext w) in (r, w\<lparr>w_ext := x\<rparr>))"

definition server_reviveClient ::
    "('j, 'x) env \<Rightarrow> client_ptr \<Rightarrow> client_ptr \<Rightarrow> 'x world \<Rightarrow> (bool \<times> 'x world) result" where
  "server_reviveClient E current target w =
     (let currentConnection = c_connection (w_client w current);
          targetConnection = c_connection (w_client w target)
      in bindS (manager_reviveClient E current target w) (\<lambda>(res, w).
           Inr (res, case targetConnection of
                  None \<Rightarrow> w
                | Some cn \<Rightarrow> if currentConnection \<noteq> Some cn then closeConnection cn w else w)))"

definition colors :: "string list" where
  "colors = [''gray'', ''#f44'', ''dodgerblue'', ''aquamarine'', ''deeppink'']"

text \<open>
  \<open>initUser\<close>; \<open>colors[gid < colors.size() ? gid : 2]\<close> compares signed and indexes the
  vector with whatever passes.
\<close>

definition initUser :: "client_ptr \<Rightarrow> int \<Rightarrow> int \<Rightarrow> string \<Rightarrow> 'x world \<Rightarrow> 'x world result" where
  "initUser c uid gid nm w =
     (let i = (if gid < int (length colors) then gid else 2)
      in if i < 0 \<or> int (length colors) \<le> i then Inl BadIndex
         else Inr (upd_client c (\<lambda>cl. cl\<lparr>c_uid := word_of_int uid, c_name := nm,
                c_isGirl := (gid = 4), c_color := colors ! nat i\<rparr>) w))"

definition auth_reply :: "('j, 'x) env \<Rightarrow> client_ptr \<Rightarrow> client_ptr \<Rightarrow> packet_auth \<Rightarrow> 'x world \<Rightarrow> 'x world" where
  "auth_reply E c src p w =
     (let cl = w_client w src
      in client_sendPacket E c (Packet_Auth (p\<lparr>pa_user_id := c_uid cl, pa_name := c_name cl,
           pa_token := c_token cl\<rparr>)) w)"

definition auth_refuse ::
    "('j, 'x) env \<Rightarrow> client_ptr \<Rightarrow> packet_auth \<Rightarrow> error_code \<Rightarrow> string \<Rightarrow> 'x world \<Rightarrow> 'x world" where
  "auth_refuse E c p cod txt w =
     client_sendPacket E c (err_packet PT_auth (pa_sequenceId p) [] cod txt) w"

subsection \<open>The account behind the credentials\<close>

definition session_uid :: "('j, 'x) env \<Rightarrow> string \<Rightarrow> (int, 'x) ext" where
  "session_uid E sid = bindX (redis_getJson E (''session:'' @ sid)) (\<lambda>s. case s of
       None \<Rightarrow> retX 0
     | Some session \<Rightarrow>
         if j_isMember (e_json E) session ''user_id''
         then (case bindS (get_string (e_json E) session ''user_id'') (e_stoi E) of
                 Inl e \<Rightarrow> throwX e | Inr n \<Rightarrow> retX n)
         else retX 0)"

text \<open>\<open>None\<close>: the request was refused and answered.\<close>

definition auth_uid :: "('j, 'x) env \<Rightarrow> client_ptr \<Rightarrow> packet_auth \<Rightarrow> string option \<Rightarrow> 'x world
    \<Rightarrow> (exn + int option) \<times> 'x world" where
  "auth_uid E c p cookie w =
     (if pa_token p \<noteq> [] then (Inr (Some 0), w)
      else if pa_ukey p \<noteq> []
      then lift_ext (bindX (redis_get E istream_int (''chat-key-'' @ pa_ukey p)) (\<lambda>r.
             retX (Some (case r of None \<Rightarrow> 0 | Some n \<Rightarrow> n)))) w
      else if pa_api_key p \<noteq> []
      then (case lift_ext (gate_auth E (c_lastClientIP (w_client w c)) False) w of
              (Inl e, w) \<Rightarrow> (Inl e, w)
            | (Inr False, w) \<Rightarrow> (Inr None, auth_refuse E c p EC_access_denied txt_auth_too_often w)
            | (Inr True, w) \<Rightarrow>
                lift_ext (bindX (db_getUserIdByApiKey E (pa_api_key p)) (\<lambda>u. case u of
                    None \<Rightarrow> retX (Some 0)
                  | Some uid \<Rightarrow> bindX (gate_auth E (c_lastClientIP (w_client w c)) True)
                                  (\<lambda>_. retX (Some uid)))) w)
      else if pa_name p \<noteq> [] \<and> pa_password p \<noteq> [] then (Inr (Some 0), w)
      else (case cookie of
              None \<Rightarrow> (Inr (Some 0), w)
            | Some ck \<Rightarrow> (case e_cookie E ck ''sinid'' of
                None \<Rightarrow> (Inr (Some 0), w)
              | Some sid \<Rightarrow> lift_ext (bindX (session_uid E sid) (\<lambda>uid. retX (Some uid))) w)))"

text \<open>
  The \<open>Cookie\<close> header of the client's connection, which only the last branch above
  reads; the connection is dereferenced there.
\<close>

definition auth_cookie :: "('j, 'x) env \<Rightarrow> client_ptr \<Rightarrow> packet_auth \<Rightarrow> 'x world \<Rightarrow> string option result" where
  "auth_cookie E c p w =
     (if pa_token p = [] \<and> pa_ukey p = [] \<and> pa_api_key p = [] \<and> (pa_name p = [] \<or> pa_password p = [])
      then bindS (deref (c_connection (w_client w c))) (\<lambda>cn. Inr (e_header E cn ''Cookie''))
      else Inr None)"

text \<open>\<open>True\<close>: answered, nothing is left to do.\<close>

definition auth_login :: "('j, 'x) env \<Rightarrow> client_ptr \<Rightarrow> packet_auth \<Rightarrow> int \<Rightarrow> 'x world
    \<Rightarrow> ((exn + bool) \<times> 'x world) result" where
  "auth_login E c p uid w =
     (let ip = c_lastClientIP (w_client w c) in
      if uid \<noteq> 0
      then (case lift_ext (db_getUserByUid E uid) w of
              (Inl e, w) \<Rightarrow> Inr (Inl e, w)
            | (Inr None, w) \<Rightarrow> Inr (Inr False, w)
            | (Inr (Some u), w) \<Rightarrow> bindS (initUser c uid (du_gid u) (du_login u) w)
                                     (\<lambda>w. Inr (Inr False, w)))
      else if pa_name p \<noteq> [] \<and> pa_password p \<noteq> []
      then (case lift_ext (gate_auth E ip False) w of
              (Inl e, w) \<Rightarrow> Inr (Inl e, w)
            | (Inr False, w) \<Rightarrow>
                Inr (Inr True, auth_refuse E c p EC_access_denied txt_auth_too_often w)
            | (Inr True, w) \<Rightarrow>
                (case lift_ext (db_getUserByLoginAndPassword E (pa_name p) (pa_password p)) w of
                   (Inl e, w) \<Rightarrow> Inr (Inl e, w)
                 | (Inr None, w) \<Rightarrow>
                     Inr (Inr True, auth_refuse E c p EC_incorrect_loginpass txt_bad_loginpass w)
                 | (Inr (Some u), w) \<Rightarrow>
                     bindS (initUser c (du_uid u) (du_gid u) (du_login u) w) (\<lambda>w.
                       Inr (case lift_ext (gate_auth E ip True) w of
                              (Inl e, w) \<Rightarrow> (Inl e, w) | (Inr _, w) \<Rightarrow> (Inr False, w)))))
      else Inr (Inr False, w))"

subsection \<open>The handler\<close>

definition auth_finish :: "('j, 'x) env \<Rightarrow> client_ptr \<Rightarrow> packet_auth \<Rightarrow> 'x world \<Rightarrow> 'x world" where
  "auth_finish E c p w = auth_reply E c c p w"

text \<open>
  A \<open>DbException\<close> is answered after reconnecting; if that throws, and for every other
  exception, the handler goes on to the final reply.
\<close>

definition auth_failed ::
    "('j, 'x) env \<Rightarrow> client_ptr \<Rightarrow> packet_auth \<Rightarrow> exn \<Rightarrow> 'x world \<Rightarrow> 'x world" where
  "auth_failed E c p e w =
     (if e = Db_exception
      then (case lift_ext (db_reconnect E) w of
              (Inl _, w) \<Rightarrow> auth_finish E c p w
            | (Inr _, w) \<Rightarrow> auth_refuse E c p EC_database_error txt_auth_db_error w)
      else auth_finish E c p w)"

definition revive_target :: "'x world \<Rightarrow> client_ptr \<Rightarrow> packet_auth \<Rightarrow> client_ptr option" where
  "revive_target w c p =
     (if pa_token p = [] then None
      else case findClientByToken w (pa_token p) of
             None \<Rightarrow> None | Some t \<Rightarrow> if t = c then None else Some t)"

definition auth_process ::
    "('j, 'x) env \<Rightarrow> client_ptr \<Rightarrow> packet_auth \<Rightarrow> 'x world \<Rightarrow> 'x world result" where
  "auth_process E c p w =
     (case lift_ext (bindX (redis_new E) (\<lambda>_. redis_new E)) w of
        (Inl e, w) \<Rightarrow> Inr (auth_finish E c p w)
      | (Inr _, w) \<Rightarrow>
          (case revive_target w c p of
             Some t \<Rightarrow> bindS (server_reviveClient E c t (auth_reply E c t p w)) (\<lambda>(_, w). Inr w)
           | None \<Rightarrow> bindS (auth_cookie E c p w) (\<lambda>cookie.
               case auth_uid E c p cookie w of
                 (Inl e, w) \<Rightarrow> Inr (auth_failed E c p e w)
               | (Inr None, w) \<Rightarrow> Inr w
               | (Inr (Some uid), w) \<Rightarrow> bindS (auth_login E c p uid w) (\<lambda>(r, w).
                   Inr (case r of
                          Inl e \<Rightarrow> auth_failed E c p e w
                        | Inr True \<Rightarrow> w
                        | Inr False \<Rightarrow> auth_finish E c p w)))))"

end
