(* ===== verification/Events.thy ===== *)
theory Events
  imports Auth
begin

text \<open>
  \<open>Client::onPacket\<close> and the handlers that the constructor of \<open>Server\<close> installs:
  messages, connections that open, close and fail, the timer; saving and loading the
  rooms; and the step relation of the whole server.
\<close>

subsection \<open>Messages\<close>

text \<open>Nothing is done for packets that only the server sends.\<close>

definition error_process :: "packet_error \<Rightarrow> 'x world \<Rightarrow> 'x world" where
  "error_process p w = w"

definition system_process :: "packet_system \<Rightarrow> 'x world \<Rightarrow> 'x world" where
  "system_process p w = w"

definition ping_process :: "u32 option \<Rightarrow> 'x world \<Rightarrow> 'x world" where
  "ping_process q w = w"

lemmas idle_process_defs [simp] = error_process_def system_process_def ping_process_def

primrec packet_process ::
    "('j, 'x) env \<Rightarrow> client_ptr \<Rightarrow> packet \<Rightarrow> 'x world \<Rightarrow> 'x world result" where
  "packet_process E c (Packet_Error p) w = Inr (error_process p w)"
| "packet_process E c (Packet_System p) w = Inr (system_process p w)"
| "packet_process E c (Packet_Message p) w = message_process E c p w"
| "packet_process E c (Packet_OnlineList p) w = Inr (online_list_process E c p w)"
| "packet_process E c (Packet_Auth p) w = auth_process E c p w"
| "packet_process E c (Packet_Status p) w = Inr (status_process E c p w)"
| "packet_process E c (Packet_Join p) w = join_process E c p w"
| "packet_process E c (Packet_Leave p) w = leave_process E c p w"
| "packet_process E c (Packet_CreateRoom p) w = Inr (create_room_process E c p w)"
| "packet_process E c (Packet_RemoveRoom p) w = remove_room_process E c p w"
| "packet_process E c (Packet_Ping q) w = Inr (ping_process q w)"

text \<open>
  An exception leaves \<open>onPacket\<close> only while the packet is read, before anything has
  changed; \<open>on_message\<close> catches it.
\<close>

definition client_onPacket ::
    "('j, 'x) env \<Rightarrow> client_ptr \<Rightarrow> string \<Rightarrow> 'x world \<Rightarrow> (exn + 'x world) result" where
  "client_onPacket E c msg w = (case packet_read E msg of
       Inl e \<Rightarrow> Inr (Inl e)
     | Inr None \<Rightarrow> Inr (Inr w)
     | Inr (Some p) \<Rightarrow>
         bindS (packet_process E c p (upd_client c (\<lambda>cl. cl\<lparr>c_lastPacketTime := w_now w\<rparr>) w))
           (\<lambda>w. Inr (Inr w)))"

definition on_message :: "('j, 'x) env \<Rightarrow> conn \<Rightarrow> string \<Rightarrow> 'x world \<Rightarrow> 'x world result" where
  "on_message E cn msg w = (case findClientByConnection w cn of
       None \<Rightarrow> Inr w
     | Some c \<Rightarrow> bindS (client_onPacket E c msg w) (\<lambda>r. Inr (case r of Inl _ \<Rightarrow> w | Inr w \<Rightarrow> w)))"

subsection \<open>Connections\<close>

definition maxConnectionsFromIp :: int where
  "maxConnectionsFromIp = 5"

definition maxClientsFromIp :: int where
  "maxClientsFromIp = 5"

definition oldest_orphan :: "'x world \<Rightarrow> string \<Rightarrow> client_ptr option" where
  "oldest_orphan w ip = findFirstClient w (\<lambda>c. c_connection (w_client w c) = None
     \<and> c_lastClientIP (w_client w c) = ip)"

definition on_open :: "('j, 'x) env \<Rightarrow> conn \<Rightarrow> 'x world \<Rightarrow> 'x world result" where
  "on_open E cn w =
     (let ip = getRealClientIp E cn;
          (counter, w) = getCounterFromIp ip w
      in if ct_connections counter \<ge> maxConnectionsFromIp then Inr (closeConnection cn w)
         else bindS (if ct_clients counter \<ge> maxClientsFromIp
                     then (case oldest_orphan w ip of
                             Some orphanCli \<Rightarrow> removeClient E orphanCli w
                           | None \<Rightarrow> Inr w)
                     else Inr w)
                (manager_connect E cn))"

definition on_close :: "('j, 'x) env \<Rightarrow> conn \<Rightarrow> int \<Rightarrow> 'x world \<Rightarrow> 'x world result" where
  "on_close E cn stat w =
     (if stat = 1000 \<or> stat = 1001
      then bindS (removeConnection E cn w) (\<lambda>(_, w). Inr w)
      else bindS (makeOrphanConnection E cn w) (\<lambda>(_, w). Inr w))"

definition on_error :: "('j, 'x) env \<Rightarrow> conn \<Rightarrow> 'x world \<Rightarrow> 'x world result" where
  "on_error E cn w = bindS (makeOrphanConnection E cn w) (\<lambda>(_, w). Inr w)"

subsection \<open>The timer\<close>

definition orphanTimeout :: int where
  "orphanTimeout = 5 * 60"

definition connectTimeout :: int where
  "connectTimeout = 150"

definition pingTimeout :: int where
  "pingTimeout = 1 * 60"

definition tick_client :: "('j, 'x) env \<Rightarrow> time \<Rightarrow> client_ptr \<Rightarrow> client_ptr list \<times> 'x world
    \<Rightarrow> (client_ptr list \<times> 'x world) result" where
  "tick_client E cur c s = (case s of (toKick, w) \<Rightarrow>
     (let timeWasted = cur - c_lastPacketTime (w_client w c)
      in if timeWasted > orphanTimeout then Inr (toKick @ [c], w)
         else if timeWasted > connectTimeout
         then (case c_connection (w_client w c) of
                 None \<Rightarrow> Inr (toKick, w)
               | Some cn \<Rightarrow> bindS (makeOrphan E c (closeConnection cn w)) (\<lambda>w. Inr (toKick, w)))
         else if timeWasted > pingTimeout
         then Inr (toKick, client_sendPacket E c (Packet_Ping None) w)
         else Inr (toKick, w)))"

definition kick_outdated :: "('j, 'x) env \<Rightarrow> client_ptr \<Rightarrow> 'x world \<Rightarrow> 'x world result" where
  "kick_outdated E c w = removeClient E c (case c_connection (w_client w c) of
       None \<Rightarrow> w | Some cn \<Rightarrow> closeConnection cn w)"

definition on_tick :: "('j, 'x) env \<Rightarrow> 'x world \<Rightarrow> 'x world result" where
  "on_tick E w = bindS (iterR (\<lambda>(toKick, w). w_clients w) (tick_client E (w_now w)) ([], w)) (\<lambda>(toKick, w).
     foldR (kick_outdated E) toKick w)"

text \<open>The loop over the clients only makes orphans, which stay clients.\<close>

lemma on_tick_eq:
  "on_tick E w = bindS (foldR (tick_client E (w_now w)) (w_clients w) ([], w)) (\<lambda>(toKick, w).
     foldR (kick_outdated E) toKick w)"
proof -
  have "(case s' of (toKick, w) \<Rightarrow> w_clients w) = (case s of (toKick, w) \<Rightarrow> w_clients w)"
    if "tick_client E cur c s = Inr s'" for cur c s and s' :: "client_ptr list \<times> 'a world"
    using that
    by (auto simp: tick_client_def bindS_Inr_iff Let_def dest!: makeOrphan_clients split: if_splits option.splits prod.splits)
  then show ?thesis unfolding on_tick_def by (subst iterR_eq) simp_all
qed

subsection \<open>Saving and loading\<close>

text \<open>\<open>val["rooms"]\<close> is null until the first room is appended.\<close>

definition server_serialize :: "('j, 'x) env \<Rightarrow> 'x world \<Rightarrow> 'j" where
  "server_serialize E w =
     j_set (e_json E) (j_null (e_json E)) ''rooms''
       (if w_rooms w = [] then j_null (e_json E)
        else j_of_array (e_json E) (map (\<lambda>r. room_serialize (e_json E) (w_room w r)) (w_rooms w)))"

primrec load_rooms :: "('j, 'x) env \<Rightarrow> 'j list \<Rightarrow> 'x world \<Rightarrow> (exn + unit) \<times> 'x world" where
  "load_rooms E [] w = (Inr (), w)"
| "load_rooms E (v # vs) w = (case room_deserialize (e_json E) v room_new of
       Inl e \<Rightarrow> (Inl e, w)
     | Inr rm \<Rightarrow> load_rooms E vs (w\<lparr>w_room := (w_room w)(w_nextRoom w := rm),
                   w_rooms := uset_insert (w_nextRoom w) (w_rooms w),
                   w_nextRoom := Suc (w_nextRoom w)\<rparr>))"

definition server_deserialize :: "('j, 'x) env \<Rightarrow> 'j \<Rightarrow> 'x world \<Rightarrow> (exn + unit) \<times> 'x world" where
  "server_deserialize E val w =
     (let w = w\<lparr>w_rooms := []\<rparr>
      in case j_get (e_json E) val ''rooms'' of
           Inl e \<Rightarrow> (Inl e, w) | Inr rs \<Rightarrow> load_rooms E (j_elements (e_json E) rs) w)"

subsection \<open>The server as a transition system\<close>

text \<open>
  Everything runs on one thread (\<open>thread_pool_size = 1\<close>), one handler at a time. The
  last two events are the world's: the clock moves on, and the services change.
\<close>

datatype 'x event =
    Opened conn
  | Message conn string
  | Closed conn int
  | Failed conn
  | Timer
  | Clock time
  | Services 'x

primrec handle :: "('j, 'x) env \<Rightarrow> 'x event \<Rightarrow> 'x world \<Rightarrow> 'x world result" where
  "handle E (Opened cn) w = on_open E cn w"
| "handle E (Message cn msg) w = on_message E cn msg w"
| "handle E (Closed cn stat) w = on_close E cn stat w"
| "handle E (Failed cn) w = on_error E cn w"
| "handle E Timer w = on_tick E w"
| "handle E (Clock t) w = Inr (w\<lparr>w_now := t\<rparr>)"
| "handle E (Services x) w = Inr (w\<lparr>w_ext := x\<rparr>)"

text \<open>
  A connection that opens is a new object, so the manager does not know it yet; the clock
  does not go back.
\<close>

primrec admissible :: "'x world \<Rightarrow> 'x event \<Rightarrow> bool" where
  "admissible w (Opened cn) = (w_connectionToClient w cn = None)"
| "admissible w (Message cn msg) = True"
| "admissible w (Closed cn stat) = True"
| "admissible w (Failed cn) = True"
| "admissible w Timer = True"
| "admissible w (Clock t) = (w_now w \<le> t)"
| "admissible w (Services x) = True"

inductive server_step :: "('j, 'x) env \<Rightarrow> 'x world \<Rightarrow> 'x world \<Rightarrow> bool" for E where
  "admissible w ev \<Longrightarrow> handle E ev w = Inr w' \<Longrightarrow> server_step E w w'"

inductive reachable :: "('j, 'x) env \<Rightarrow> 'x world \<Rightarrow> 'x world \<Rightarrow> bool" for E w0 where
  start: "reachable E w0 w0"
| step: "reachable E w0 w \<Longrightarrow> server_step E w w' \<Longrightarrow> reachable E w0 w'"

inductive_cases server_stepE: "server_step E w w'"

inductive_simps server_step_iff: "server_step E w w'"

end
