(* ===== verification/Handlers.thy ===== *)
theory Handlers
  imports Events
begin

text \<open>
  Every packet handler preserves the invariant of the server and has no undefined
  behaviour: no null pointer is dereferenced and no index is out of range.
\<close>

lemma okR_keeps_view: "view w' = view w \<Longrightarrow> okR (keeps w) (Inr w')"
  by (simp add: keeps_view)

lemma okR_keeps_from:
  assumes "view w1 = view w" and "okR (keeps w1) res"
  shows "okR (keeps w) res"
  using assms(2) by (rule okR_mono) (rule keeps_trans [OF keeps_view [OF assms(1)]])

lemma okR_keeps_then:
  assumes "okR (keeps w) res" and "\<And>w'. view (f w') = view w'"
  shows "okR (keeps w) (bindS res (\<lambda>w'. Inr (f w')))"
  using assms(1) by (cases res) (auto intro: keeps_trans [OF _ keeps_view [OF assms(2)]])

subsection \<open>Messages\<close>

lemma view_newMessageId [view_simps]:
  "view (upd_room r (\<lambda>_. snd (room_newMessageId (w_room w r))) w) = view w"
  by (simp add: view_upd_room room_view_def room_newMessageId_def)

lemma view_flood_window [view_simps]: "view (flood_window c w) = view w"
  by (auto simp: flood_window_def client_view_def intro: view_upd_client)

lemma client_getRoomByName_cong:
  assumes "view w' = view w"
  shows "client_getRoomByName w' c nm = client_getRoomByName w c nm"
  by (simp only: client_getRoomByName_def view_eqD [OF assms])

lemma say_in_room_ok:
  assumes "members_ok w" and "r \<in> set (c_rooms (w_client w c))"
  shows "okR (keeps w) (say_in_room E c r targ msg w)"
proof -
  obtain m where m: "findMemberByClient w r c = Some m"
    using findMemberByClient_in [OF assms] by metis
  show ?thesis
  proof (cases "processCommand E m r msg w")
    case (Some w')
    then show ?thesis using m keeps_processCommand [OF Some] by (simp add: say_in_room_def)
  next
    case None
    have "view (client_sendPacket E c (sys_packet targ txt_need_nick) w) = view w"
      and "view (sendPacketToAll E r pk (upd_room r (\<lambda>_. snd (room_newMessageId (w_room w r))) w)) = view w"
      for pk by (simp_all add: view_simps)
    with m None show ?thesis
      by (auto simp: say_in_room_def Let_def split_beta intro!: keeps_view)
  qed
qed

lemma message_process_ok:
  assumes "chat_ok w"
  shows "okR (keeps w) (message_process E c p w)"
proof -
  let ?w1 = "flood_window c w"
  let ?w2 = "upd_client c (\<lambda>cl. cl\<lparr>c_messageCounter := c_messageCounter cl + 1\<rparr>) ?w1"
  have v1: "view ?w1 = view w" by (rule view_simps)
  have v2: "view ?w2 = view w" using v1 by (simp add: view_upd_client client_view_def)
  have say: "okR (keeps w) (say_in_room E c r (pm_target p) (pm_message p) ?w2)"
    if "client_getRoomByName ?w2 c (pm_target p) = Some r" for r
  proof (rule okR_keeps_from [OF v2 say_in_room_ok])
    show "members_ok ?w2" using chat_okD(1) [OF assms] by (simp add: members_ok_cong [OF v2])
    show "r \<in> set (c_rooms (w_client ?w2 c))" using client_getRoomByName_Some [OF that] by simp
  qed
  have "okR (keeps w) (case client_getRoomByName ?w2 c (pm_target p) of
      None \<Rightarrow> Inr (client_sendPacket E c (sys_packet [] (txt_cannot_write @ pm_target p @ quote)) ?w2)
    | Some r \<Rightarrow> say_in_room E c r (pm_target p) (pm_message p) ?w2)"
    using say v2 by (auto split: option.split intro!: keeps_view simp: view_simps)
  then show ?thesis
    using v1 by (auto simp: message_process_def Let_def intro!: keeps_view simp: view_simps)
qed

subsection \<open>Lists and statuses\<close>

lemma view_online_list_process [view_simps]: "view (online_list_process E c p w) = view w"
  by (simp add: online_list_process_def view_simps split: option.split)

lemma view_away_in_room [view_simps]: "view (away_in_room E c stat nstat r w) = view w"
  by (simp add: away_in_room_def Let_def view_simps split: option.split)

lemma view_status_process [view_simps]: "view (status_process E c p w) = view w"
  unfolding status_process_def Let_def
  by (auto simp: view_simps split: option.split intro!: fold_invariant_view)

subsection \<open>Joining\<close>

lemma view_auto_login: "auto_login E r c m w = (nick, w') \<Longrightarrow>
   view w' = view w \<and> findMemberByNick w' r nick = None"
proof -
  assume login: "auto_login E r c m w = (nick, w')"
  have find_cong: "findMemberByNick v' r n = findMemberByNick v r n" if "view v' = view v"
    for v' v :: "'x world" and n
    by (simp only: findMemberByNick_def view_eqD [OF that])
  obtain n1 w1 where 1: "(case getStoredMemberInfo w r m of
            Some info \<Rightarrow>
              (mi_nick info, member_setColor m (mi_color info) (member_setGirl m (mi_girl info) w))
          | None \<Rightarrow>
              (let cl = w_client w c
               in (c_name cl, member_setColor m (c_color cl) (member_setGirl m (c_isGirl cl) w)))) = (n1, w1)"
    by fastforce
  then have v1: "view w1 = view w"
    by (auto simp: Let_def view_simps split: option.splits)
  obtain n2 w2 where 2: "(if \<not> member_isModer w1 m \<and> room_isBannedNick n1 (w_room w1 r)
            then ([], member_sendPacket E m
                    (sys_packet [] (txt_old_nick_pre @ n1 @ txt_old_nick_banned)) w1)
            else (n1, w1)) = (n2, w2)"
    by fastforce
  then have v2: "view w2 = view w1" by (auto simp: view_simps split: if_splits)
  have last: "(if findMemberByNick w2 r n2 \<noteq> None
         then ([], member_sendPacket E m
                 (sys_packet [] (txt_old_nick_pre @ n2 @ txt_old_nick_taken)) w2)
         else (n2, w2)) = (nick, w')"
    using login by (simp add: auto_login_def 1 2)
  then have "view w' = view w2" by (auto simp: view_simps split: if_splits)
  moreover have "findMemberByNick w' r nick = None"
    using last by (auto simp: findMemberByNick_empty split: if_splits)
  ultimately show ?thesis using v1 v2 by simp
qed

lemma keeps_after_join:
  assumes "m_room (w_member w m) = r"
  shows "keeps w (after_join E c r p m w)"
proof -
  let ?w1 = "client_sendPacket E c (join_packet w m (pj_sequenceId p)) w"
  let ?w2 = "client_sendPacket E c (online_list_packet ?w1 r (pj_sequenceId p)) ?w1"
  let ?w3 = "if pj_load_history p then send_history c r ?w2 else ?w2"
  obtain nick w4 where 4: "(if pj_auto_login p then auto_login E r c m ?w3 else ([], ?w3)) = (nick, w4)"
    by fastforce
  have "view ?w3 = view w" by (simp add: view_simps)
  moreover have "view w4 = view ?w3 \<and> findMemberByNick w4 r nick = None"
    using 4 by (auto simp: findMemberByNick_empty split: if_splits dest: view_auto_login)
  ultimately have v4: "view w4 = view w" and free: "findMemberByNick w4 r nick = None" by simp_all
  let ?w5 = "member_sendPacket E m (sys_packet (r_name (w_room w4 r)) txt_type_help) w4"
  have v5: "view ?w5 = view w4" by (rule view_simps)
  have room5: "m_room (w_member ?w5 m) = r"
    by (simp add: view_eqD(7) [OF v5] view_eqD(7) [OF v4] assms)
  have "findMemberByNick ?w5 r nick = findMemberByNick w4 r nick"
    by (simp only: findMemberByNick_def view_eqD [OF v5])
  with free have "findMemberByNick ?w5 (m_room (w_member ?w5 m)) nick = None" unfolding room5 by simp
  from keeps_setNick [OF this] have set: "keeps ?w5 (member_setNick E m nick ?w5)" .
  have tell: "keeps ?w5 (member_sendPacket E m (sys_packet (r_name (w_room ?w5 r)) txt_need_nick) ?w5)"
    by (rule keeps_view) (rule view_simps)
  have "after_join E c r p m w = (if nick = []
      then member_sendPacket E m (sys_packet (r_name (w_room ?w5 r)) txt_need_nick) ?w5
      else member_setNick E m nick ?w5)"
    unfolding after_join_def Let_def 4 by simp
  then have "keeps ?w5 (after_join E c r p m w)" using set tell by simp
  moreover have "keeps w ?w5" by (rule keeps_view) (simp add: v5 v4)
  ultimately show ?thesis using keeps_trans by blast
qed

lemma view_ban_reply [view_simps]: "view (ban_reply E c r p e w) = view w"
  by (simp add: ban_reply_def view_simps)

lemma join_process_ok:
  assumes ok: "chat_ok w" and c: "c \<in> set (w_clients w)"
  shows "okR (keeps w) (join_process E c p w)"
proof (cases "client_getRoomByName w c (pj_target p) \<noteq> None \<or> server_getRoomByName w (pj_target p) = None")
  case True
  then show ?thesis by (auto simp: join_process_def view_simps intro!: keeps_view)
next
  case False
  then obtain r where r: "server_getRoomByName w (pj_target p) = Some r"
    and none: "client_getRoomByName w c (pj_target p) = None" by auto
  have reg: "r \<in> set (w_rooms w)" "r_name (w_room w r) = pj_target p"
    using server_getRoomByName_Some [OF r] by simp_all
  then have notin: "r \<notin> set (c_rooms (w_client w c))"
    using client_getRoomByName_None [OF none] by blast
  have "okR (\<lambda>x. okR (keeps w) ((\<lambda>(res, w). Inr (case res of
                  Inl e \<Rightarrow> ban_reply E c r p e w
                | Inr None \<Rightarrow> w
                | Inr (Some m) \<Rightarrow> after_join E c r p m w)) x)) (client_joinRoom c r w)"
  proof (cases "client_joinRoom c r w")
    case (Inl f)
    then show ?thesis using client_joinRoom_okR [of c r w] by simp
  next
    case (Inr x)
    obtain res w' where x: "x = (res, w')" by fastforce
    with Inr have join: "client_joinRoom c r w = Inr (res, w')" by simp
    have k: "keeps w w'" by (rule keeps_joinRoom [OF ok join notin reg(1) c])
    from chat_okD(1) [OF ok] join show ?thesis
    proof (cases rule: client_joinRoom_cases)
      case (banned e i)
      then show ?thesis using k keeps_trans [OF k keeps_view [OF view_ban_reply]] by (simp add: Inr x)
    next
      case (joined i)
      have "m_room (w_member w' (w_nextMember w)) = r"
        by (simp add: view_eqD(7) [OF joined(3)] link_sel member_new_def)
      then have "keeps w' (after_join E c r p (w_nextMember w) w')" by (rule keeps_after_join)
      then show ?thesis using joined keeps_trans [OF k] by (simp add: Inr x)
    qed
  qed
  then have "okR (keeps w) (bindS (client_joinRoom c r w) (\<lambda>(res, w). Inr (case res of
                  Inl e \<Rightarrow> ban_reply E c r p e w
                | Inr None \<Rightarrow> w
                | Inr (Some m) \<Rightarrow> after_join E c r p m w)))"
    by (rule okR_bindS)
  then show ?thesis by (simp add: join_process_def r none)
qed

subsection \<open>Leaving, creating, removing\<close>

lemma leave_process_ok:
  assumes "chat_ok w"
  shows "okR (keeps w) (leave_process E c p w)"
proof (cases "client_getRoomByName w c (pl_target p)")
  case None
  then show ?thesis by (simp add: leave_process_def keeps_view view_simps)
next
  case (Some r)
  obtain w' where w': "client_leaveRoom E c r w = Inr w'" "keeps w w'"
    using client_leaveRoom_ok [OF chat_okD(1) [OF assms]] by metis
  have "keeps w' (client_sendPacket E c (Packet_Leave p) w')"
    by (rule keeps_view) (rule view_simps)
  with w' show ?thesis by (simp add: leave_process_def Some) (meson keeps_trans)
qed

lemma create_room_process_keeps:
  assumes "chat_ok w"
  shows "keeps w (create_room_process E c p w)"
proof -
  obtain res w' where cr: "server_createRoom (pc_target p) w = (res, w')" by fastforce
  then have k: "keeps w w'" using keeps_createRoom [OF assms, of "pc_target p"] by simp
  have "keeps w (client_sendPacket E c q (upd_room r (room_setOwner u) w'))" for q r u
    by (rule keeps_trans [OF k keeps_view]) (simp add: view_simps)
  then show ?thesis
    by (auto simp: create_room_process_def Let_def cr view_simps split: option.split intro!: keeps_view)
qed

lemma remove_room_process_ok:
  assumes "chat_ok w"
  shows "okR (keeps w) (remove_room_process E c p w)"
proof -
  obtain b w' where w': "server_removeRoom E (pr_target p) w = Inr (b, w')" "keeps w w'"
    using server_removeRoom_total [OF assms] by metis
  have "keeps w (client_sendPacket E c q w')" for q
    by (rule keeps_trans [OF w'(2) keeps_view]) (rule view_simps)
  with w' show ?thesis
    by (auto simp: remove_room_process_def Let_def view_simps split: option.split intro!: keeps_view)
qed

subsection \<open>The login\<close>

lemma view_ext [view_simps]: "view (w\<lparr>w_ext := x\<rparr>) = view w"
  by (simp add: view_def)

lemma lift_ext_view: "lift_ext f w = (r, w') \<Longrightarrow> view w' = view w"
  by (auto simp: lift_ext_def Let_def view_simps split: prod.splits)

lemma view_auth_reply [view_simps]: "view (auth_reply E c src p w) = view w"
  by (simp add: auth_reply_def Let_def view_simps)

lemma view_auth_refuse [view_simps]: "view (auth_refuse E c p cod txt w) = view w"
  by (simp add: auth_refuse_def view_simps)

lemma view_auth_failed [view_simps]: "view (auth_failed E c p e w) = view w"
  by (auto simp: auth_failed_def auth_finish_def view_simps split: prod.split sum.split
      dest: lift_ext_view)

lemma auth_uid_view: "auth_uid E c p cookie w = (r, w') \<Longrightarrow> view w' = view w"
  by (auto simp: auth_uid_def view_simps split: if_splits option.splits prod.splits sum.splits bool.splits
      dest!: lift_ext_view)

lemma initUser_view: "initUser c uid gid nm w = Inr w' \<Longrightarrow> view w' = view w"
  by (auto simp: initUser_def Let_def client_view_def split: if_splits intro!: view_upd_client)

lemma bindX_Inr: "bindX f g x = (Inr b, x') \<Longrightarrow> \<exists>a y. f x = (Inr a, y) \<and> g a y = (Inr b, x')"
  by (auto simp: bindX_def split: prod.splits sum.splits)

lemma one_row_Some: "one_row f rs x = (Inr (Some u), x') \<Longrightarrow> \<exists>row. u = f row"
  by (auto simp: one_row_def retX_def throwX_def split: if_splits)

lemma lift_ext_Inr: "lift_ext f w = (r, w') \<Longrightarrow> \<exists>x. f (w_ext w) = (r, x)"
  by (auto simp: lift_ext_def split: prod.splits)

lemma lift_extD:
  "lift_ext f w = (r, w') \<Longrightarrow> view w' = view w \<and> (\<exists>x. f (w_ext w) = (r, x))"
  using lift_ext_view lift_ext_Inr by blast

text \<open>The index of the colour is the one thing that can go wrong in a login.\<close>

lemma initUser_then:
  assumes "view w1 = view w" and "\<And>v. view (snd (f v)) = view v"
  shows "safeR (\<lambda>(r, w'). view w' = view w) (bindS (initUser c uid gid nm w1) (\<lambda>v. Inr (f v)))"
proof (cases "initUser c uid gid nm w1")
  case (Inl e)
  then show ?thesis by (auto simp: initUser_def Let_def split: if_splits)
next
  case (Inr w2)
  have "view (snd (f w2)) = view w" using initUser_view [OF Inr] assms by simp
  then show ?thesis by (simp add: Inr split_beta)
qed

lemma auth_login_ok:
  shows "safeR (\<lambda>(r, w'). view w' = view w) (auth_login E c p uid w)"
proof -
  have reset: "view (snd (case lift_ext f v of (Inl e, w) \<Rightarrow> (Inl e, w) | (Inr _, w) \<Rightarrow> (Inr False, w)))
      = view v" for f :: "(bool, 'b) ext" and v
    by (auto split: prod.split sum.split dest: lift_ext_view)
  have uid: "safeR (\<lambda>(r, w'). view w' = view w) (case lift_ext (db_getUserByUid E uid) w of
              (Inl e, w) \<Rightarrow> Inr (Inl e, w)
            | (Inr None, w) \<Rightarrow> Inr (Inr False, w)
            | (Inr (Some u), w) \<Rightarrow> bindS (initUser c uid (du_gid u) (du_login u) w)
                                     (\<lambda>w. Inr (Inr False, w)))"
    by (auto split: prod.split sum.split option.split dest!: lift_extD
        intro!: initUser_then)
  have pw: "safeR (\<lambda>(r, w'). view w' = view w)
      (case lift_ext (db_getUserByLoginAndPassword E (pa_name p) (pa_password p)) w1 of
                   (Inl e, w) \<Rightarrow> Inr (Inl e, w)
                 | (Inr None, w) \<Rightarrow>
                     Inr (Inr True, auth_refuse E c p EC_incorrect_loginpass txt_bad_loginpass w)
                 | (Inr (Some u), w) \<Rightarrow>
                     bindS (initUser c (du_uid u) (du_gid u) (du_login u) w) (\<lambda>v.
                       Inr (case lift_ext (gate_auth E ip True) v of
                              (Inl e, w) \<Rightarrow> (Inl e, w) | (Inr _, w) \<Rightarrow> (Inr False, w))))"
    if "view w1 = view w" for w1 ip
    using that
    by (auto split: prod.split sum.split option.split dest!: lift_extD
        intro!: initUser_then reset simp: view_simps)
  show ?thesis
  proof (cases "uid \<noteq> 0 \<or> pa_name p = [] \<or> pa_password p = []")
    case True
    with uid show ?thesis by (auto simp: auth_login_def Let_def)
  next
    case False
    let ?ip = "c_lastClientIP (w_client w c)"
    obtain r w1 where g: "lift_ext (gate_auth E ?ip False) w = (r, w1)" by fastforce
    note v1 = lift_ext_view [OF g]
    consider (exn) e where "r = Inl e" | (no) "r = Inr False" | (yes) "r = Inr True"
      by (cases r) auto
    then show ?thesis
      using False v1 pw [OF v1, of ?ip]
      by cases (simp_all add: auth_login_def g view_simps)
  qed
qed

lemma server_ok_view:
  assumes "view w' = view w" and "server_ok E w"
  shows "server_ok E w'"
  using server_ok_keeps [OF assms(2) keeps_view [OF assms(1)]] .

lemma server_okD:
  assumes "server_ok E w"
  shows "chat_ok w" and "tables_ok E w" and "counts_exact (w_countersFromIp w) (counts w)"
  using assms by (simp_all add: server_ok_def manager_ok_def)

lemma server_reviveClient_ok:
  assumes "server_ok E w" and "cur \<in> set (w_clients w)" and "targ \<in> set (w_clients w)"
    and "cur \<noteq> targ" and "c_connection (w_client w cur) = Some ccn"
  shows "\<exists>w'. server_reviveClient E cur targ w = Inr (True, w') \<and> server_ok E w'"
proof -
  obtain w1 where w1: "manager_reviveClient E cur targ w = Inr (True, w1)" "server_ok E w1"
    using manager_reviveClient_total [OF assms] by blast
  have "server_ok E (closeConnection cn w1)" for cn
    by (rule server_ok_view [OF _ w1(2)]) (rule view_simps)
  with w1 show ?thesis
    by (auto simp: server_reviveClient_def Let_def split: option.split)
qed

lemma revive_target_Some:
  assumes "revive_target w c p = Some t"
  shows "w_tokenToClient w (pa_token p) = Some t" and "t \<noteq> c"
  using assms by (auto simp: revive_target_def findClientByToken_def split: if_splits option.splits)

text \<open>
  A login either leaves the linked structure alone or revives the client the token names.
\<close>

definition auth_result :: "('j, 'x) env \<Rightarrow> client_ptr \<Rightarrow> 'x world \<Rightarrow> 'x world \<Rightarrow> bool" where
  "auth_result E c w w' \<longleftrightarrow> view w' = view w \<or>
     (\<exists>t w2. view w2 = view w \<and> t \<in> set (w_clients w) \<and> t \<noteq> c
        \<and> server_reviveClient E c t w2 = Inr (True, w'))"

text \<open>In detail: the client that is taken up, if any, and the world in which it is revived.\<close>

definition takes_up :: "('j, 'x) env \<Rightarrow> client_ptr \<Rightarrow> packet_auth \<Rightarrow> 'x world \<Rightarrow> client_ptr option" where
  "takes_up E c p w = (case fst (bindX (redis_new E) (\<lambda>_. redis_new E) (w_ext w)) of
     Inl e \<Rightarrow> None | Inr u \<Rightarrow> revive_target w c p)"

definition auth_effect :: "('j, 'x) env \<Rightarrow> client_ptr \<Rightarrow> packet_auth \<Rightarrow> 'x world \<Rightarrow> 'x world \<Rightarrow> bool" where
  "auth_effect E c p w w' \<longleftrightarrow> (case takes_up E c p w of
     None \<Rightarrow> view w' = view w
   | Some t \<Rightarrow> t \<in> set (w_clients w) \<and> (\<exists>w2. view w2 = view w \<and> w_client w2 = w_client w \<and> w_now w2 = w_now w
        \<and> server_reviveClient E c t w2 = Inr (True, w')))"

lemma takes_up_Some:
  assumes "takes_up E c p w = Some t"
  shows "revive_target w c p = Some t" and "w_tokenToClient w (pa_token p) = Some t" and "t \<noteq> c"
  using assms revive_target_Some [of w c p t] by (auto simp: takes_up_def split: sum.splits)

lemma auth_process_effect:
  fixes w :: "'x world"
  assumes ok: "server_ok E w"
    and c: "c \<in> set (w_clients w)" and cn: "c_connection (w_client w c) = Some cn"
  shows "safeR (auth_effect E c p w) (auth_process E c p w)"
proof -
  obtain r w1 where l: "lift_ext (bindX (redis_new E) (\<lambda>_. redis_new E)) w = (r, w1)" by fastforce
  have v1: "view w1 = view w" by (rule lift_ext_view [OF l])
  have ok1: "server_ok E w1" by (rule server_ok_view [OF v1 ok])
  have c1: "c \<in> set (w_clients w1)" and cn1: "c_connection (w_client w1 c) = Some cn"
    using c cn by (simp_all add: view_eqD [OF v1])
  have up: "takes_up E c p w = (case r of Inl e \<Rightarrow> None | Inr u \<Rightarrow> revive_target w1 c p)" and cl1: "w_client w1 = w_client w" "w_now w1 = w_now w"
    using l by (auto simp: takes_up_def lift_ext_def revive_target_def findClientByToken_def split: prod.splits sum.split)
  have same: "auth_effect E c p w v" if "view v = view w1" "takes_up E c p w = None" for v
    using that v1 by (simp add: auth_effect_def)
  have fin: "auth_effect E c p w (auth_finish E c p v)" "auth_effect E c p w (auth_failed E c p e v)"
    if "view v = view w1" "takes_up E c p w = None" for v e
    using that by (auto intro!: same simp: auth_finish_def view_simps)
  show ?thesis
  proof (cases r)
    case (Inl e)
    then show ?thesis using fin up by (simp add: auth_process_def l)
  next
    case (Inr u)
    show ?thesis
    proof (cases "revive_target w1 c p")
      case (Some t)
      let ?w2 = "auth_reply E c t p w1"
      have v2: "view ?w2 = view w1" by (rule view_simps)
      have t1: "t \<in> set (w_clients w1)"
        using revive_target_Some(1) [OF Some] tables_okD(4) [OF server_okD(2) [OF ok1]] by blast
      then have t: "t \<in> set (w_clients ?w2)" "c \<in> set (w_clients ?w2)"
        "c_connection (w_client ?w2 c) = Some cn"
        using c1 cn1 by (simp_all add: view_eqD [OF v2])
      have ne: "c \<noteq> t" using revive_target_Some(2) [OF Some] by blast
      obtain w3 where w3: "server_reviveClient E c t ?w2 = Inr (True, w3)"
        using server_reviveClient_ok [OF server_ok_view [OF v2 ok1] t(2,1) ne t(3)] by blast
      have "t \<in> set (w_clients w)" using t1 by (simp add: view_eqD [OF v1])
      moreover have "w_client ?w2 = w_client w" "w_now ?w2 = w_now w" by (simp_all add: auth_reply_def Let_def cl1)
      moreover have "takes_up E c p w = Some t" using up by (simp add: Inr Some)
      ultimately have "auth_effect E c p w w3" using v1 v2 w3 by (auto simp: auth_effect_def)
      with w3 show ?thesis by (simp add: auth_process_def l Inr Some)
    next
      case None
      have none: "takes_up E c p w = None" using up by (simp add: Inr None)
      have "\<exists>cookie. auth_cookie E c p w1 = Inr cookie" using cn1 by (simp add: auth_cookie_def)
      then obtain cookie where ck: "auth_cookie E c p w1 = Inr cookie" by blast
      obtain r2 w2 where u: "auth_uid E c p cookie w1 = (r2, w2)" by fastforce
      have v2: "view w2 = view w1" by (rule auth_uid_view [OF u])
      consider (exn) e where "r2 = Inl e" | (refused) "r2 = Inr None" | (uid) uid where "r2 = Inr (Some uid)"
        by (metis sum.exhaust option.exhaust)
      then show ?thesis
      proof cases
        case (uid n)
        have "safeR (auth_effect E c p w) (bindS (auth_login E c p n w2) (\<lambda>(r, w).
                   Inr (case r of Inl e \<Rightarrow> auth_failed E c p e w
                        | Inr True \<Rightarrow> w | Inr False \<Rightarrow> auth_finish E c p w)))"
        proof (rule safeR_bindS, rule safeR_mono [OF auth_login_ok])
          fix x :: "(exn + bool) \<times> 'x world"
          assume "case x of (r, w') \<Rightarrow> view w' = view w2"
          then obtain r w' where x: "x = (r, w')" and "view w' = view w2" by (cases x) auto
          then have v: "view w' = view w1" using v2 by simp
          show "safeR (auth_effect E c p w) ((\<lambda>(r, w).
                   Inr (case r of Inl e \<Rightarrow> auth_failed E c p e w
                        | Inr True \<Rightarrow> w | Inr False \<Rightarrow> auth_finish E c p w)) x)"
            using fin [OF v none] same [OF v none]
            by (auto simp: x split: sum.split bool.split)
        qed
        then show ?thesis by (simp add: auth_process_def l Inr None ck u uid)
      qed (use fin [OF v2 none] same [OF v2 none] in \<open>simp_all add: auth_process_def l Inr None ck u\<close>)
    qed
  qed
qed

lemma auth_process_cases:
  assumes "server_ok E w" and "c \<in> set (w_clients w)" and "c_connection (w_client w c) = Some cn"
  shows "safeR (auth_result E c w) (auth_process E c p w)"
  by (rule safeR_mono [OF auth_process_effect [OF assms]])
    (auto simp: auth_effect_def auth_result_def dest: takes_up_Some split: option.splits)

lemma auth_result_ok:
  assumes ok: "server_ok E w" and c: "c \<in> set (w_clients w)" and cn: "c_connection (w_client w c) = Some cn"
    and res: "auth_result E c w w'"
  shows "server_ok E w'"
  using res unfolding auth_result_def
proof
  assume "view w' = view w"
  then show ?thesis using server_ok_view ok by blast
next
  assume "\<exists>t w2. view w2 = view w \<and> t \<in> set (w_clients w) \<and> t \<noteq> c
        \<and> server_reviveClient E c t w2 = Inr (True, w')"
  then obtain t w2 where v: "view w2 = view w" and t: "t \<in> set (w_clients w)" "t \<noteq> c"
    and rev: "server_reviveClient E c t w2 = Inr (True, w')" by blast
  have "c \<in> set (w_clients w2)" "t \<in> set (w_clients w2)" "c_connection (w_client w2 c) = Some cn"
    using c t cn by (simp_all add: view_eqD [OF v])
  from server_reviveClient_ok [OF server_ok_view [OF v ok] this(1,2) t(2) [symmetric] this(3)] rev
  show ?thesis by auto
qed

subsection \<open>All packets\<close>

theorem packet_process_ok:
  assumes ok: "server_ok E w"
    and c: "c \<in> set (w_clients w)" and cn: "c_connection (w_client w c) = Some cn"
  shows "safeR (server_ok E) (packet_process E c p w)"
proof -
  note cok = server_okD(1) [OF ok]
  have lift: "safeR (server_ok E) res" if "okR (keeps w) res" for res
    using that by (rule okR_safeR) (rule server_ok_keeps [OF ok])
  have "server_ok E (online_list_process E c q w)" "server_ok E (status_process E c s w)" for q s
    by (rule server_ok_view [OF _ ok], rule view_simps)+
  moreover have "server_ok E (create_room_process E c q w)" for q
    by (rule server_ok_keeps [OF ok create_room_process_keeps [OF cok]])
  ultimately show ?thesis
    using lift [OF message_process_ok [OF cok]] lift [OF join_process_ok [OF cok c]]
      lift [OF leave_process_ok [OF cok]] lift [OF remove_room_process_ok [OF cok]]
      safeR_mono [OF auth_process_cases [OF assms] auth_result_ok [OF ok c cn]] ok
    by (cases p) simp_all
qed

end
