(* ===== verification/Safety.thy ===== *)
theory Safety
  imports Handlers
begin

text \<open>
  The invariant of the whole server over its events: \<open>server_ok\<close> together with the limits
  on the clients of one address. It gives the absence of undefined behaviour in every
  reachable state.
\<close>

subsection \<open>The limits per address\<close>

definition limits_ok :: "'x world \<Rightarrow> bool" where
  "limits_ok w \<longleftrightarrow> (\<forall>ip. int (clients_at w ip) \<le> maxClientsFromIp)"

definition server_inv :: "('j, 'x) env \<Rightarrow> 'x world \<Rightarrow> bool" where
  "server_inv E w \<longleftrightarrow> server_ok E w \<and> limits_ok w"

lemma invD: "server_inv E w \<Longrightarrow> server_ok E w" "server_inv E w \<Longrightarrow> limits_ok w"
  by (simp_all add: server_inv_def)

lemma clients_at_cong:
  assumes "mgr_view w' = mgr_view w"
  shows "clients_at w' = clients_at w"
  using counts_cong [OF assms] by (simp add: fun_eq_iff counts_def)

lemma limits_ok_cong:
  assumes "mgr_view w' = mgr_view w"
  shows "limits_ok w' = limits_ok w"
  by (simp add: limits_ok_def clients_at_cong [OF assms])

lemma limits_ok_le:
  assumes "limits_ok w" and "\<And>ip. clients_at w' ip \<le> clients_at w ip"
  shows "limits_ok w'"
  unfolding limits_ok_def
proof
  fix ip show "int (clients_at w' ip) \<le> maxClientsFromIp"
    using assms(1) [unfolded limits_ok_def, rule_format, of ip] assms(2) [of ip] by linarith
qed

lemma inv_keeps: "server_inv E w \<Longrightarrow> keeps w w' \<Longrightarrow> server_inv E w'"
  unfolding server_inv_def using server_ok_keeps limits_ok_cong by (metis keeps_def)

lemma inv_view:
  assumes "view w' = view w" and "server_inv E w"
  shows "server_inv E w'"
  using inv_keeps [OF assms(2) keeps_view [OF assms(1)]] .

subsection \<open>The operations of the manager keep the limits\<close>

lemma removeClient_inv:
  assumes "server_inv E w" and "c \<in> set (w_clients w)"
  shows "\<exists>w'. removeClient E c w = Inr w' \<and> server_inv E w' \<and> set (w_clients w') = set (w_clients w) - {c}
    \<and> c_rooms (w_client w' c) = []
    \<and> (\<forall>ip. clients_at w' ip = clients_at w ip - (if at_ip w ip c then 1 else 0))
    \<and> (\<forall>cn. w_connectionToClient w cn = None \<longrightarrow> w_connectionToClient w' cn = None)
    \<and> (\<forall>d. d \<noteq> c \<longrightarrow> c_connection (w_client w' d) = c_connection (w_client w d))"
proof -
  note ok = invD(1) [OF assms(1)]
  obtain w' where w': "removeClient E c w = Inr w'" "server_ok E w'"
      "set (w_clients w') = set (w_clients w) - {c}" "c_rooms (w_client w' c) = []"
    and mgr: "mgr_view w' = mgr_view (client_setConnection E c None (discard c (detach c w)))"
    using removeClient_total [OF ok assms(2)] by blast
  have mok: "manager_ok E w" using ok by (simp add: server_ok_def)
  have "counts w' = counts (client_setConnection E c None (discard c (detach c w)))"
    by (rule counts_cong [OF mgr])
  then have cl: "clients_at w' ip = clients_at w ip - (if at_ip w ip c then 1 else 0)" for ip
    unfolding counts_removed [OF mok assms(2)] by (simp add: counts_def fun_eq_iff)
  then have "limits_ok w'" using invD(2) [OF assms(1)] by (rule_tac limits_ok_le) auto
  moreover have "w_connectionToClient w' cn = None" if none: "w_connectionToClient w cn = None" for cn
  proof -
    have c1: "c \<in> set (w_clients (detach c w))" using assms(2) by (simp add: detach_sel)
    have "w_connectionToClient w' cn = w_connectionToClient (detach c w) cn"
      by (simp add: mgr_view_eqD(6) [OF mgr] client_setConnection_sel discard_sel [OF c1])
    then show ?thesis
      using detach_connections [OF server_okD(2) [OF ok] assms(2), of cn]
        tables_okD(3) [OF server_okD(2) [OF ok], of cn] none
      by (cases "w_connectionToClient (detach c w) cn") auto
  qed
  moreover have "\<forall>d. d \<noteq> c \<longrightarrow> c_connection (w_client w' d) = c_connection (w_client w d)"
    using assms(2)
    by (simp add: mgr_view_eqD(1) [OF mgr] client_setConnection_sel discard_sel detach_sel)
  ultimately show ?thesis using w' cl by (auto simp: server_inv_def)
qed

lemma makeOrphan_inv:
  assumes "server_inv E w" and "c \<in> set (w_clients w)"
  shows "\<exists>w'. makeOrphan E c w = Inr w' \<and> server_inv E w'
    \<and> (\<forall>d. c_connection (w_client w' d) = (if d = c then None else c_connection (w_client w d)))
    \<and> w_clients w' = w_clients w \<and> (\<forall>ip. clients_at w' ip = clients_at w ip)"
proof (cases "c_connection (w_client w c)")
  case None
  with assms show ?thesis by (simp add: makeOrphan_def)
next
  case (Some cn)
  obtain w' where w': "makeOrphan E c w = Inr w'" "server_ok E w'"
      "view w' = view (client_setConnection E c None (detach c w))"
    using makeOrphan_attached [OF invD(1) [OF assms(1)] assms(2) Some] by blast
  note v = view_eqD [OF w'(3)]
  have "at_ip w' ip = at_ip w ip" for ip
    by (simp add: at_ip_def v client_setConnection_sel detach_sel fun_eq_iff)
  then have cl: "clients_at w' ip = clients_at w ip" for ip
    by (simp add: clients_at_def v client_setConnection_sel detach_sel)
  then have "limits_ok w'" using invD(2) [OF assms(1)] by (simp add: limits_ok_def)
  with w' cl show ?thesis
    by (auto simp: server_inv_def v client_setConnection_sel detach_sel)
qed

subsection \<open>Opening a connection\<close>

lemma getCounterFromIp_eq:
  assumes "server_ok E w"
  shows "fst (getCounterFromIp ip w) =
      \<lparr>ct_connections = int (connections_at w ip), ct_clients = int (clients_at w ip)\<rparr>"
    and "0 < clients_at w ip \<Longrightarrow> snd (getCounterFromIp ip w) = w"
proof -
  have ct: "map_of (w_countersFromIp w) ip = (if counts w ip = (0, 0) then None
        else Some \<lparr>ct_connections = int (fst (counts w ip)), ct_clients = int (snd (counts w ip))\<rparr>)"
    using server_okD(3) [OF assms] unfolding counts_exact_def by blast
  show "fst (getCounterFromIp ip w) =
      \<lparr>ct_connections = int (connections_at w ip), ct_clients = int (clients_at w ip)\<rparr>"
    using ct by (auto simp: getCounterFromIp_def counts_def zero_counter_def split: if_splits)
  show "0 < clients_at w ip \<Longrightarrow> snd (getCounterFromIp ip w) = w"
    using ct by (simp add: getCounterFromIp_def counts_def)
qed

lemma manager_connect_counter:
  "manager_connect E cn (snd (getCounterFromIp (getRealClientIp E cn) w)) = manager_connect E cn w"
proof (cases "map_of (w_countersFromIp w) (getRealClientIp E cn)")
  case None
  then show ?thesis
    by (simp add: manager_connect_eq getCounterFromIp_def connected_def Let_def
        counters_increment_def counter_at_def update_conv')
qed (simp add: getCounterFromIp_def)

text \<open>The handler in terms of the numbers of clients and connections.\<close>

lemma on_open_eq:
  assumes "server_ok E w"
  shows "on_open E cn w =
    (let ip = getRealClientIp E cn
     in if int (connections_at w ip) \<ge> maxConnectionsFromIp then Inr (closeConnection cn w)
        else bindS (if int (clients_at w ip) \<ge> maxClientsFromIp
                    then (case oldest_orphan w ip of
                            Some orphanCli \<Rightarrow> removeClient E orphanCli w | None \<Rightarrow> Inr w)
                    else Inr w)
               (manager_connect E cn))"
proof -
  let ?ip = "getRealClientIp E cn"
  obtain ct w1 where g: "getCounterFromIp ?ip w = (ct, w1)" by fastforce
  have ct: "ct = \<lparr>ct_connections = int (connections_at w ?ip), ct_clients = int (clients_at w ?ip)\<rparr>"
    using getCounterFromIp_eq(1) [OF assms, of ?ip] g by simp
  have same: "0 < clients_at w ?ip \<Longrightarrow> w1 = w"
    using getCounterFromIp_eq(2) [OF assms, of ?ip] g by simp
  have conn: "manager_connect E cn w1 = manager_connect E cn w"
    using manager_connect_counter [of E cn w] g by simp
  have le: "connections_at w ?ip \<le> clients_at w ?ip" by (rule connections_le_clients)
  show ?thesis
  proof (cases "0 < clients_at w ?ip")
    case True
    with same have "w1 = w" by simp
    then show ?thesis by (simp add: on_open_def Let_def g ct)
  next
    case False
    with le have "connections_at w ?ip = 0" "clients_at w ?ip = 0" by simp_all
    then show ?thesis
      by (simp add: on_open_def Let_def g ct conn maxConnectionsFromIp_def maxClientsFromIp_def)
  qed
qed

lemma oldest_orphan_Some:
  assumes "oldest_orphan w ip = Some c"
  shows "c \<in> set (w_clients w)" and "c_connection (w_client w c) = None" and "at_ip w ip c"
  using find_SomeD [OF assms [unfolded oldest_orphan_def findFirstClient_def]]
  by (simp_all add: at_ip_def)

lemma oldest_orphan_exists:
  assumes "connections_at w ip < clients_at w ip"
  shows "oldest_orphan w ip \<noteq> None"
proof
  assume "oldest_orphan w ip = None"
  then have "\<not> (c_connection (w_client w c) = None \<and> c_lastClientIP (w_client w c) = ip)"
    if "c \<in> set (w_clients w)" for c
    using that unfolding oldest_orphan_def findFirstClient_def by (rule find_NoneD)
  then have "clients_at w ip = connections_at w ip"
    unfolding clients_at_def connections_at_def
    by (intro filter_length_cong) (auto simp: at_ip_def conn_at_ip_def)
  with assms show False by simp
qed

lemma connect_inv:
  assumes inv: "server_inv E w" and cn: "w_connectionToClient w cn = None"
    and room: "int (clients_at w (getRealClientIp E cn)) < maxClientsFromIp"
  shows "okR (server_inv E) (manager_connect E cn w)"
proof (cases "manager_connect E cn w")
  case (Inl f)
  then show ?thesis
    by (auto simp: manager_connect_eq returned_def bindS_def split: option.splits sum.splits)
next
  case (Inr w')
  note ok = invD(1) [OF inv]
  obtain tok p where w': "w' = connected E cn tok p w" and ok': "server_ok E w'"
    using manager_connect_ok [OF ok cn Inr] by metis
  have "clients_at w' ip = (if ip = getRealClientIp E cn then Suc (clients_at w ip) else clients_at w ip)"
    for ip
    using fun_cong [OF counts_connected [OF fresh_client_no_rooms(1) [OF ok], of E cn tok p], of ip]
    unfolding w' [symmetric] by (simp add: counts_def split: if_splits)
  then have "limits_ok w'" using invD(2) [OF inv] room by (auto simp: limits_ok_def)
  with ok' Inr show ?thesis by (simp add: server_inv_def)
qed

lemma on_open_inv:
  assumes inv: "server_inv E w" and cn: "w_connectionToClient w cn = None"
  shows "okR (server_inv E) (on_open E cn w)"
proof -
  let ?ip = "getRealClientIp E cn"
  note ok = invD(1) [OF inv]
  have le: "int (clients_at w ?ip) \<le> maxClientsFromIp"
    using invD(2) [OF inv] by (simp add: limits_ok_def)
  consider (full) "int (connections_at w ?ip) \<ge> maxConnectionsFromIp"
    | (evict) "int (connections_at w ?ip) < maxConnectionsFromIp" "int (clients_at w ?ip) \<ge> maxClientsFromIp"
    | (free) "int (connections_at w ?ip) < maxConnectionsFromIp" "int (clients_at w ?ip) < maxClientsFromIp"
    by linarith
  then show ?thesis
  proof cases
    case full
    moreover have "server_inv E (closeConnection cn w)" by (rule inv_view [OF _ inv]) (rule view_simps)
    ultimately show ?thesis by (simp add: on_open_eq [OF ok])
  next
    case evict
    then have "connections_at w ?ip < clients_at w ?ip"
      by (simp add: maxConnectionsFromIp_def maxClientsFromIp_def)
    then obtain o' where o': "oldest_orphan w ?ip = Some o'"
      using oldest_orphan_exists [of w ?ip] by blast
    note oo = oldest_orphan_Some [OF o']
    obtain w1 where w1: "removeClient E o' w = Inr w1" "server_inv E w1"
      and cl: "clients_at w1 ?ip = clients_at w ?ip - 1" and cn1: "w_connectionToClient w1 cn = None"
      using removeClient_inv [OF inv oo(1)] oo(3) cn by fastforce
    have "int (clients_at w1 ?ip) < maxClientsFromIp"
      using le cl evict(2) by (simp add: maxClientsFromIp_def)
    then have "okR (server_inv E) (manager_connect E cn w1)" by (rule connect_inv [OF w1(2) cn1])
    with evict o' w1 show ?thesis by (simp add: on_open_eq [OF ok] Let_def)
  next
    case free
    with connect_inv [OF inv cn] show ?thesis by (simp add: on_open_eq [OF ok] Let_def)
  qed
qed

text \<open>The ways in which a connection is opened.\<close>

lemma on_open_cases [consumes 2, case_names refused evicting connecting]:
  assumes inv: "server_inv E w" and run: "on_open E cn w = Inr w'"
  obtains "connections_at w (getRealClientIp E cn) \<ge> 5" "w' = closeConnection cn w"
  | c v where "connections_at w (getRealClientIp E cn) < 5" "clients_at w (getRealClientIp E cn) \<ge> 5"
      "oldest_orphan w (getRealClientIp E cn) = Some c" "removeClient E c w = Inr v" "manager_connect E cn v = Inr w'"
  | "connections_at w (getRealClientIp E cn) < 5" "clients_at w (getRealClientIp E cn) < 5" "manager_connect E cn w = Inr w'"
proof -
  let ?ip = "getRealClientIp E cn"
  note eq = run [unfolded on_open_eq [OF invD(1) [OF inv]] Let_def]
  consider "connections_at w ?ip \<ge> 5" | "connections_at w ?ip < 5" "clients_at w ?ip \<ge> 5"
    | "connections_at w ?ip < 5" "clients_at w ?ip < 5" by linarith
  then show thesis
  proof cases
    case 1
    then show thesis using eq that(1) by (simp add: maxConnectionsFromIp_def)
  next
    case 2
    then obtain c where "oldest_orphan w ?ip = Some c" using oldest_orphan_exists [of w ?ip] by fastforce
    with 2 eq that(2) show thesis by (auto simp: maxConnectionsFromIp_def maxClientsFromIp_def bindS_Inr_iff)
  next
    case 3
    then show thesis using eq that(3) by (simp add: maxConnectionsFromIp_def maxClientsFromIp_def)
  qed
qed

subsection \<open>Messages, closing, failing\<close>

lemma connection_client:
  assumes "server_inv E w" and "w_connectionToClient w cn = Some c"
  shows "c \<in> set (w_clients w)" and "c_connection (w_client w c) = Some cn"
  using tables_okD(3) [OF server_okD(2) [OF invD(1) [OF assms(1)]], of cn c] assms(2) by simp_all

lemma handover_limits:
  assumes "server_ok E w" and "limits_ok w" and "cur \<in> set (w_clients w)" and "targ \<in> set (w_clients w)"
    and "cur \<noteq> targ" and "c_connection (w_client w cur) = Some ccn"
    and "mgr_view w' = mgr_view (handover E ccn cur targ w)"
  shows "limits_ok w'"
proof -
  have "counts w' = counts (handover E ccn cur targ w)" by (rule counts_cong [OF assms(7)])
  then have "clients_at w' ip = clients_at w ip - (if at_ip w ip targ then 1 else 0)" for ip
    unfolding counts_handover [OF server_okD(2) [OF assms(1)] assms(3-6)]
    by (simp add: counts_def fun_eq_iff)
  then show ?thesis by (intro limits_ok_le [OF assms(2)]) simp
qed

lemma auth_result_inv:
  assumes inv: "server_inv E w" and c: "c \<in> set (w_clients w)" and cn: "c_connection (w_client w c) = Some cn"
    and res: "auth_result E c w w'"
  shows "server_inv E w'"
proof -
  have ok': "server_ok E w'" by (rule auth_result_ok [OF invD(1) [OF inv] c cn res])
  show ?thesis
    using res unfolding auth_result_def
  proof
    assume "view w' = view w"
    then show ?thesis using inv_view inv by blast
  next
    assume "\<exists>t w2. view w2 = view w \<and> t \<in> set (w_clients w) \<and> t \<noteq> c
        \<and> server_reviveClient E c t w2 = Inr (True, w')"
    then obtain t w2 where v: "view w2 = view w" and t: "t \<in> set (w_clients w)" "t \<noteq> c"
      and rev: "server_reviveClient E c t w2 = Inr (True, w')" by blast
    have inv2: "server_inv E w2" by (rule inv_view [OF v inv])
    have m: "c \<in> set (w_clients w2)" "t \<in> set (w_clients w2)" "c_connection (w_client w2 c) = Some cn"
      using c t cn by (simp_all add: view_eqD [OF v])
    obtain w3 where w3: "manager_reviveClient E c t w2 = Inr (True, w3)"
        "mgr_view w3 = mgr_view (handover E cn c t w2)"
      using manager_reviveClient_total [OF invD(1) [OF inv2] m(1,2) t(2) [symmetric] m(3)] by blast
    have "limits_ok w3"
      by (rule handover_limits [OF invD(1) [OF inv2] invD(2) [OF inv2] m(1,2) t(2) [symmetric] m(3) w3(2)])
    moreover have "view w' = view w3"
      using rev w3(1) by (auto simp: server_reviveClient_def Let_def view_simps split: option.splits if_splits)
    ultimately have "limits_ok w'" using limits_ok_cong [OF mgr_view_cong] by blast
    with ok' show ?thesis by (simp add: server_inv_def)
  qed
qed

lemma packet_process_inv:
  assumes inv: "server_inv E w"
    and c: "c \<in> set (w_clients w)" and cn: "c_connection (w_client w c) = Some cn"
  shows "safeR (server_inv E) (packet_process E c p w)"
proof -
  note ok = invD(1) [OF inv]
  note cok = server_okD(1) [OF ok]
  have lift: "safeR (server_inv E) res" if "okR (keeps w) res" for res
    using that by (rule okR_safeR) (rule inv_keeps [OF inv])
  have "server_inv E (online_list_process E c q w)" "server_inv E (status_process E c s w)" for q s
    by (rule inv_view [OF _ inv], rule view_simps)+
  moreover have "server_inv E (create_room_process E c q w)" for q
    by (rule inv_keeps [OF inv create_room_process_keeps [OF cok]])
  ultimately show ?thesis
    using lift [OF message_process_ok [OF cok]] lift [OF join_process_ok [OF cok c]]
      lift [OF leave_process_ok [OF cok]] lift [OF remove_room_process_ok [OF cok]]
      safeR_mono [OF auth_process_cases [OF ok c cn] auth_result_inv [OF inv c cn]] inv
    by (cases p) simp_all
qed

lemma on_message_inv:
  assumes inv: "server_inv E w"
  shows "safeR (server_inv E) (on_message E cn msg w)"
proof (cases "w_connectionToClient w cn")
  case None
  with inv show ?thesis by (simp add: on_message_def findClientByConnection_def)
next
  case (Some c)
  let ?w = "upd_client c (\<lambda>cl. cl\<lparr>c_lastPacketTime := w_now w\<rparr>) w"
  have v: "view ?w = view w" by (simp add: view_upd_client client_view_def)
  have "c \<in> set (w_clients ?w)" "c_connection (w_client ?w c) = Some cn"
    using connection_client [OF inv Some] by simp_all
  note ok = packet_process_inv [OF inv_view [OF v inv] this]
  show ?thesis
  proof (cases "packet_read E msg")
    case (Inl e)
    with Some inv show ?thesis
      by (simp add: on_message_def findClientByConnection_def client_onPacket_def)
  next
    case (Inr po)
    show ?thesis
    proof (cases po)
      case None
      with Inr Some inv show ?thesis
        by (simp add: on_message_def findClientByConnection_def client_onPacket_def)
    next
      case p: (Some p)
      show ?thesis
        using ok [of p] by (cases "packet_process E c p ?w")
          (simp_all add: on_message_def findClientByConnection_def client_onPacket_def Inr p Some)
    qed
  qed
qed

lemma makeOrphanConnection_inv:
  assumes "server_inv E w"
  shows "\<exists>b w'. makeOrphanConnection E cn w = Inr (b, w') \<and> server_inv E w'"
proof (cases "w_connectionToClient w cn")
  case None
  with assms show ?thesis by (auto simp: makeOrphanConnection_def findClientByConnection_def)
next
  case (Some c)
  with makeOrphan_inv [OF assms connection_client(1) [OF assms Some]] show ?thesis
    by (auto simp: makeOrphanConnection_def findClientByConnection_def)
qed

lemma removeConnection_inv:
  assumes "server_inv E w"
  shows "\<exists>b w'. removeConnection E cn w = Inr (b, w') \<and> server_inv E w'"
proof (cases "w_connectionToClient w cn")
  case None
  with assms show ?thesis by (auto simp: removeConnection_def findClientByConnection_def)
next
  case (Some c)
  with removeClient_inv [OF assms connection_client(1) [OF assms Some]] show ?thesis
    by (auto simp: removeConnection_def findClientByConnection_def)
qed

lemma on_close_inv:
  assumes "server_inv E w"
  shows "\<exists>w'. on_close E cn stat w = Inr w' \<and> server_inv E w'"
  using removeConnection_inv [OF assms, of cn] makeOrphanConnection_inv [OF assms, of cn]
  by (auto simp: on_close_def)

lemma on_error_inv:
  assumes "server_inv E w"
  shows "\<exists>w'. on_error E cn w = Inr w' \<and> server_inv E w'"
  using makeOrphanConnection_inv [OF assms, of cn] by (auto simp: on_error_def)

subsection \<open>The timer\<close>

text \<open>Orphaning and removing do not touch the time of the last packet.\<close>

definition seen :: "'x world \<Rightarrow> client_ptr \<Rightarrow> time" where
  "seen w c = c_lastPacketTime (w_client w c)"

lemma seen_simps [simp]:
  "seen (client_sendPacket E c p w) = seen w"
  "seen (client_sendRawData c d w) = seen w"
  "seen (sendPacketToAll E r p w) = seen w"
  "seen (closeConnection cn w) = seen w"
  "seen (member_setStatus m st w) = seen w"
  "seen (client_setConnection E c cno w) = seen w"
  "seen (room_eraseMember r m w) = seen w"
  "seen (eraseConnection cn w) = seen w"
  "seen (decrementForIp ip fld w) = seen w"
  "seen (snd (removeFromClients c w)) = seen w"
  by (simp_all add: fun_eq_iff seen_def member_setStatus_def client_setConnection_def Let_def
      eraseConnection_def decrementForIp_def removeFromClients_def split: option.split)

lemma seen_upd_room [simp]: "seen (upd_room r f w) = seen w"
  by (simp add: fun_eq_iff seen_def)

lemma seen_orphan_in_room: "orphan_in_room E c r w = Inr w' \<Longrightarrow> seen w' = seen w"
  by (auto simp: orphan_in_room_def bindS_Inr_iff Let_def)

lemma seen_onDisconnect: "client_onDisconnect E c w = Inr w' \<Longrightarrow> seen w' = seen w"
  unfolding client_onDisconnect_eq Let_def
  by (drule foldR_invariant [where v = seen, rotated]) (auto dest: seen_orphan_in_room)

lemma seen_removeMember: "room_removeMember E r c w = Inr w' \<Longrightarrow> seen w' = seen w"
  by (auto simp: room_removeMember_def bindS_Inr_iff Let_def)

lemma seen_upd_rooms [simp]: "seen (upd_client c (\<lambda>cl. cl\<lparr>c_rooms := rs\<rparr>) w) = seen w"
  by (simp add: fun_eq_iff seen_def)

lemma seen_onRemove:
  assumes "client_onRemove E c w = Inr w'"
  shows "seen w' = seen w"
proof -
  obtain w1 where w1: "foldR (\<lambda>r. room_removeMember E r c) (c_rooms (w_client w c)) w = Inr w1"
    and w': "w' = client_setConnection E c None (upd_client c (\<lambda>cl. cl\<lparr>c_rooms := []\<rparr>) w1)"
    using assms by (auto simp: client_onRemove_eq bindS_Inr_iff Let_def)
  have "seen w1 = seen w"
    by (rule foldR_invariant [OF _ w1]) (rule seen_removeMember)
  with w' show ?thesis by simp
qed

lemma seen_makeOrphan: "makeOrphan E c w = Inr w' \<Longrightarrow> seen w' = seen w"
  by (auto simp: makeOrphan_def split: option.splits if_splits dest: seen_onDisconnect)

lemma seen_detach: "seen (detach c w) = seen w"
  by (simp add: detach_def split: option.split)

lemma seen_removeClient:
  assumes "removeClient E c w = Inr w'" and "c \<in> set (w_clients w)"
  shows "seen w' = seen w"
  using assms by (auto simp: removeClient_alt discard_def seen_detach dest!: seen_onRemove)

text \<open>The first loop: after it, whoever has been looked at is in the state its silence asks for.\<close>

definition quiet_enough :: "time \<Rightarrow> 'x world \<Rightarrow> client_ptr \<Rightarrow> bool" where
  "quiet_enough cur w c \<longleftrightarrow>
     (connectTimeout < cur - seen w c \<longrightarrow> cur - seen w c \<le> orphanTimeout \<longrightarrow>
        c_connection (w_client w c) = None)"

definition outdated :: "time \<Rightarrow> (client_ptr \<Rightarrow> time) \<Rightarrow> client_ptr \<Rightarrow> bool" where
  "outdated cur t c \<longleftrightarrow> cur - t c > orphanTimeout"

lemma tick_client_step:
  assumes inv: "server_inv E w" and c: "c \<in> set (w_clients w)"
  shows "\<exists>w'. tick_client E cur c (tk, w) = Inr (tk @ filter (outdated cur (seen w)) [c], w')
    \<and> server_inv E w' \<and> w_clients w' = w_clients w \<and> seen w' = seen w \<and> quiet_enough cur w' c
    \<and> (\<forall>d. quiet_enough cur w d \<longrightarrow> quiet_enough cur w' d)"
proof -
  let ?wasted = "cur - seen w c"
  consider (old) "?wasted > orphanTimeout"
    | (late) "?wasted \<le> orphanTimeout" "?wasted > connectTimeout" | (alive) "?wasted \<le> connectTimeout"
    by linarith
  then show ?thesis
  proof cases
    case old
    with inv show ?thesis
      by (simp add: tick_client_def seen_def [symmetric] outdated_def quiet_enough_def)
  next
    case alive
    have "server_inv E (client_sendPacket E c (Packet_Ping None) w)"
      by (rule inv_view [OF _ inv]) (rule view_simps)
    with alive inv show ?thesis
      by (auto simp: tick_client_def seen_def [symmetric] outdated_def quiet_enough_def
          orphanTimeout_def connectTimeout_def)
  next
    case late
    show ?thesis
    proof (cases "c_connection (w_client w c)")
      case None
      with late inv show ?thesis
        by (simp add: tick_client_def seen_def [symmetric] outdated_def quiet_enough_def)
    next
      case (Some cn)
      let ?w = "closeConnection cn w"
      have v: "view ?w = view w" by (rule view_simps)
      have "c \<in> set (w_clients ?w)" using c by simp
      from makeOrphan_inv [OF inv_view [OF v inv] this] obtain w' where
        w': "makeOrphan E c ?w = Inr w'" "server_inv E w'" "w_clients w' = w_clients w"
        and conn: "\<And>d. c_connection (w_client w' d) = (if d = c then None else c_connection (w_client w d))"
        by (auto simp: view_eqD [OF v])
      have "seen w' = seen w" using seen_makeOrphan [OF w'(1)] by simp
      with late w' conn Some show ?thesis
        by (auto simp: tick_client_def seen_def [symmetric] outdated_def quiet_enough_def)
    qed
  qed
qed

lemma tick_loop:
  assumes "server_inv E w" and "set xs \<subseteq> set (w_clients w)"
  shows "\<exists>w'. foldR (tick_client E cur) xs (tk, w) = Inr (tk @ filter (outdated cur (seen w)) xs, w')
    \<and> server_inv E w' \<and> w_clients w' = w_clients w \<and> seen w' = seen w
    \<and> (\<forall>d. quiet_enough cur w d \<or> d \<in> set xs \<longrightarrow> quiet_enough cur w' d)"
  using assms
proof (induction xs arbitrary: tk w)
  case (Cons c xs)
  then have "c \<in> set (w_clients w)" by simp
  from tick_client_step [OF Cons.prems(1) this, of cur tk] obtain w1 where
    w1: "tick_client E cur c (tk, w) = Inr (tk @ filter (outdated cur (seen w)) [c], w1)"
      "server_inv E w1" "w_clients w1 = w_clients w" "seen w1 = seen w" "quiet_enough cur w1 c"
    and q1: "\<And>d. quiet_enough cur w d \<Longrightarrow> quiet_enough cur w1 d" by blast
  have "set xs \<subseteq> set (w_clients w1)" using Cons.prems(2) w1(3) by simp
  from Cons.IH [OF w1(2) this, of "tk @ filter (outdated cur (seen w)) [c]"] obtain w2 where
    w2: "foldR (tick_client E cur) xs (tk @ filter (outdated cur (seen w)) [c], w1)
        = Inr ((tk @ filter (outdated cur (seen w)) [c]) @ filter (outdated cur (seen w1)) xs, w2)"
      "server_inv E w2" "w_clients w2 = w_clients w1" "seen w2 = seen w1"
    and q2: "\<And>d. quiet_enough cur w1 d \<or> d \<in> set xs \<Longrightarrow> quiet_enough cur w2 d" by blast
  from q1 q2 w1(5) have "\<forall>d. quiet_enough cur w d \<or> d \<in> set (c # xs) \<longrightarrow> quiet_enough cur w2 d"
    by auto
  with w1 w2 show ?case by simp
qed simp

lemma kick_loop:
  assumes "server_inv E w" and "distinct tk" and "set tk \<subseteq> set (w_clients w)"
  shows "\<exists>w'. foldR (kick_outdated E) tk w = Inr w' \<and> server_inv E w'
    \<and> set (w_clients w') = set (w_clients w) - set tk \<and> seen w' = seen w
    \<and> (\<forall>d. d \<notin> set tk \<longrightarrow> c_connection (w_client w' d) = c_connection (w_client w d))"
  using assms
proof (induction tk arbitrary: w)
  case (Cons c tk)
  let ?w = "case c_connection (w_client w c) of None \<Rightarrow> w | Some cn \<Rightarrow> closeConnection cn w"
  have v: "view ?w = view w" by (simp add: view_simps split: option.split)
  have s: "seen ?w = seen w" by (simp split: option.split)
  have c: "c \<in> set (w_clients ?w)" using Cons.prems by (simp add: view_eqD [OF v])
  from removeClient_inv [OF inv_view [OF v Cons.prems(1)] c] obtain w1 where
    w1: "removeClient E c ?w = Inr w1" "server_inv E w1" "set (w_clients w1) = set (w_clients ?w) - {c}"
    and conn1: "\<And>d. d \<noteq> c \<Longrightarrow> c_connection (w_client w1 d) = c_connection (w_client ?w d)" by blast
  have s1: "seen w1 = seen w" using seen_removeClient [OF w1(1) c] s by simp
  have cl1: "set (w_clients w1) = set (w_clients w) - {c}" using w1(3) by (simp add: view_eqD [OF v])
  have "set tk \<subseteq> set (w_clients w1)" using Cons.prems cl1 by auto
  from Cons.IH [OF w1(2) _ this] Cons.prems(2) obtain w2 where
    w2: "foldR (kick_outdated E) tk w1 = Inr w2" "server_inv E w2"
      "set (w_clients w2) = set (w_clients w1) - set tk" "seen w2 = seen w1"
    and conn2: "\<And>d. d \<notin> set tk \<Longrightarrow> c_connection (w_client w2 d) = c_connection (w_client w1 d)" by auto
  have "\<forall>d. d \<notin> set (c # tk) \<longrightarrow> c_connection (w_client w2 d) = c_connection (w_client w d)"
    using conn1 conn2 by (simp add: view_eqD [OF v])
  moreover have "kick_outdated E c w = Inr w1" using w1(1) by (simp add: kick_outdated_def)
  moreover have "set (w_clients w2) = set (w_clients w) - set (c # tk)" using w2(3) cl1 by auto
  ultimately show ?case using w2 s1 by auto
qed simp

text \<open>What all steps of the timer do to a world, the timer does.\<close>

lemma tick_loop_relates:
  assumes refl: "\<And>v. R v v" and trans: "\<And>u v v'. R u v \<Longrightarrow> R v v' \<Longrightarrow> R u v'"
    and tick: "\<And>c tk v tk' v'. server_inv E v \<Longrightarrow> c \<in> set (w_clients v) \<Longrightarrow>
      tick_client E cur c (tk, v) = Inr (tk', v') \<Longrightarrow> R v v'"
    and "server_inv E w" and "set xs \<subseteq> set (w_clients w)" and "foldR (tick_client E cur) xs (tk, w) = Inr (tk', w')"
  shows "R w w'"
  using assms(4-)
proof (induction xs arbitrary: tk w)
  case (Cons c xs)
  then have c: "c \<in> set (w_clients w)" by simp
  from tick_client_step [OF Cons.prems(1) c, of cur tk] obtain w1 tk1 where
    w1: "tick_client E cur c (tk, w) = Inr (tk1, w1)" "server_inv E w1" "w_clients w1 = w_clients w" by blast
  have "R w1 w'" using Cons.IH [OF w1(2), of tk1] Cons.prems(2,3) w1 by simp
  with tick [OF Cons.prems(1) c w1(1)] show ?case by (rule trans)
qed (simp add: refl)

lemma kick_loop_relates:
  assumes refl: "\<And>v. R v v" and trans: "\<And>u v v'. R u v \<Longrightarrow> R v v' \<Longrightarrow> R u v'"
    and close: "\<And>cn v. R v (closeConnection cn v)"
    and remove: "\<And>c v v'. c \<in> set tk \<Longrightarrow> server_inv E v \<Longrightarrow> c \<in> set (w_clients v) \<Longrightarrow> removeClient E c v = Inr v' \<Longrightarrow> R v v'"
    and "server_inv E w" and "distinct tk" and "set tk \<subseteq> set (w_clients w)" and "foldR (kick_outdated E) tk w = Inr w'"
  shows "R w w'"
  using assms(4-)
proof (induction tk arbitrary: w)
  case (Cons c tk)
  let ?w = "case c_connection (w_client w c) of None \<Rightarrow> w | Some cn \<Rightarrow> closeConnection cn w"
  have v: "view ?w = view w" by (simp add: view_simps split: option.split)
  have c: "c \<in> set (w_clients ?w)" using Cons.prems by (simp add: view_eqD [OF v])
  note inv = inv_view [OF v Cons.prems(2)]
  from removeClient_inv [OF inv c] obtain w1 where
    w1: "removeClient E c ?w = Inr w1" "server_inv E w1" "set (w_clients w1) = set (w_clients ?w) - {c}" by blast
  have "R w ?w" by (simp add: refl close split: option.split)
  moreover have "R ?w w1" by (rule Cons.prems(1) [OF _ inv c w1(1)]) simp
  moreover have "R w1 w'"
  proof (rule Cons.IH [OF _ w1(2)])
    show "R v v'" if "d \<in> set tk" "server_inv E v" "d \<in> set (w_clients v)" "removeClient E d v = Inr v'" for d v v'
      using Cons.prems(1) [of d v v'] that by simp
    have "kick_outdated E c w = Inr w1" using w1(1) by (simp add: kick_outdated_def)
    then show "foldR (kick_outdated E) tk w1 = Inr w'" using Cons.prems(5) by simp
    show "set tk \<subseteq> set (w_clients w1)" using Cons.prems(3,4) w1(3) by (auto simp: view_eqD [OF v])
  qed (use Cons.prems(3) in simp)
  ultimately show ?case using trans by blast
qed (simp add: refl)

lemma on_tick_relates:
  assumes refl: "\<And>v. R v v" and trans: "\<And>u v v'. R u v \<Longrightarrow> R v v' \<Longrightarrow> R u v'"
    and tick: "\<And>c tk v tk' v'. server_inv E v \<Longrightarrow> c \<in> set (w_clients v) \<Longrightarrow>
      tick_client E (w_now w) c (tk, v) = Inr (tk', v') \<Longrightarrow> R v v'"
    and close: "\<And>cn v. R v (closeConnection cn v)"
    and remove: "\<And>c v v'. w_now w - c_lastPacketTime (w_client w c) > 300 \<Longrightarrow> server_inv E v \<Longrightarrow> c \<in> set (w_clients v) \<Longrightarrow>
      removeClient E c v = Inr v' \<Longrightarrow> R v v'"
    and inv: "server_inv E w" and run: "on_tick E w = Inr w'"
  shows "R w w'"
proof -
  let ?late = "filter (outdated (w_now w) (seen w)) (w_clients w)"
  obtain w1 where w1: "foldR (tick_client E (w_now w)) (w_clients w) ([], w) = Inr (?late, w1)" "server_inv E w1"
      "w_clients w1 = w_clients w"
    using tick_loop [OF inv order_refl, of "w_now w" "[]"] by auto
  have "R w w1" by (rule tick_loop_relates [OF refl trans tick inv order_refl w1(1)])
  moreover have "R w1 w'"
  proof (rule kick_loop_relates [OF refl trans close _ w1(2)])
    show "R v v'" if "c \<in> set ?late" "server_inv E v" "c \<in> set (w_clients v)" "removeClient E c v = Inr v'" for c v v'
      using that by (intro remove) (auto simp: outdated_def seen_def orphanTimeout_def)
    show "distinct ?late" using tables_okD(1) [OF server_okD(2) [OF invD(1) [OF inv]]] by simp
    show "foldR (kick_outdated E) ?late w1 = Inr w'" using run w1(1) by (simp add: on_tick_eq)
  qed (auto simp: w1(3))
  ultimately show ?thesis by (rule trans)
qed

lemma on_tick_inv:
  assumes inv: "server_inv E w"
  shows "\<exists>w'. on_tick E w = Inr w' \<and> server_inv E w' \<and> seen w' = seen w
    \<and> set (w_clients w') = {c \<in> set (w_clients w). w_now w - seen w c \<le> orphanTimeout}
    \<and> (\<forall>c \<in> set (w_clients w'). connectTimeout < w_now w - seen w c \<longrightarrow>
         c_connection (w_client w' c) = None)"
proof -
  let ?cur = "w_now w" and ?cl = "w_clients w"
  let ?tk = "filter (outdated ?cur (seen w)) ?cl"
  from tick_loop [OF inv, of ?cl ?cur "[]"] obtain w1 where
    w1: "foldR (tick_client E ?cur) ?cl ([], w) = Inr (?tk, w1)" "server_inv E w1"
      "w_clients w1 = ?cl" "seen w1 = seen w"
    and q1: "\<And>d. d \<in> set ?cl \<Longrightarrow> quiet_enough ?cur w1 d" by auto
  have "distinct ?cl" using tables_okD(1) [OF server_okD(2) [OF invD(1) [OF inv]]] .
  then have "distinct ?tk" by simp
  moreover have "set ?tk \<subseteq> set (w_clients w1)" by (auto simp: w1(3))
  ultimately obtain w2 where
    w2: "foldR (kick_outdated E) ?tk w1 = Inr w2" "server_inv E w2"
      "set (w_clients w2) = set (w_clients w1) - set ?tk" "seen w2 = seen w1"
    and conn: "\<And>d. d \<notin> set ?tk \<Longrightarrow> c_connection (w_client w2 d) = c_connection (w_client w1 d)"
    using kick_loop [OF w1(2)] by blast
  have "set (w_clients w2) = {c \<in> set ?cl. ?cur - seen w c \<le> orphanTimeout}"
    unfolding w2(3) w1(3) by (auto simp: outdated_def)
  moreover have "c_connection (w_client w2 c) = None"
    if "c \<in> set (w_clients w2)" "connectTimeout < ?cur - seen w c" for c
  proof -
    have c: "c \<in> set ?cl" "c \<notin> set ?tk" using that(1) unfolding w2(3) w1(3) by simp_all
    then have "?cur - seen w1 c \<le> orphanTimeout" by (simp add: outdated_def w1(4))
    then have "c_connection (w_client w1 c) = None"
      using q1 [OF c(1)] that(2) by (simp add: quiet_enough_def w1(4))
    then show ?thesis using conn [OF c(2)] by simp
  qed
  moreover have "on_tick E w = Inr w2" by (simp add: on_tick_eq w1(1) w2(1))
  ultimately show ?thesis using w2(2,4) w1(4) by auto
qed

subsection \<open>All events\<close>

lemma inv_outside:
  assumes "server_inv E w"
  shows "server_inv E (w\<lparr>w_now := t\<rparr>)" and "server_inv E (w\<lparr>w_ext := x\<rparr>)"
proof -
  have "view (w\<lparr>w_now := t\<rparr>) = view w" by (simp add: view_def)
  then show "server_inv E (w\<lparr>w_now := t\<rparr>)" by (rule inv_view [OF _ assms])
  show "server_inv E (w\<lparr>w_ext := x\<rparr>)" by (rule inv_view [OF view_ext assms])
qed

lemma handle_inv:
  assumes inv: "server_inv E w" and "admissible w ev"
  shows "safeR (server_inv E) (handle E ev w)"
proof (cases ev)
  case (Opened cn)
  with assms(2) on_open_inv [OF inv, of cn] show ?thesis by (auto intro: okR_safeR)
next
  case (Closed cn stat)
  with on_close_inv [OF inv, of cn stat] show ?thesis by auto
next
  case (Failed cn)
  with on_error_inv [OF inv, of cn] show ?thesis by auto
next
  case Timer
  with on_tick_inv [OF inv] show ?thesis by auto
qed (use on_message_inv [OF inv] inv_outside [OF inv] in simp_all)

subsection \<open>Transition systems and their invariants\<close>

text \<open>
  What a step relation owes to its invariant, and what it gets for it: the invariant in
  every state that a run can reach.
\<close>

locale transition_system =
  fixes step :: "'s \<Rightarrow> 's \<Rightarrow> bool" and init :: "'s \<Rightarrow> bool" and I :: "'s \<Rightarrow> bool"
  assumes init_I: "init s \<Longrightarrow> I s"
    and step_I: "I s \<Longrightarrow> step s t \<Longrightarrow> I t"
begin

lemma run_I:
  assumes "step\<^sup>*\<^sup>* s t" and "I s"
  shows "I t"
  using assms by (induction rule: rtranclp_induct) (auto intro: step_I)

lemma reach_I: "init s \<Longrightarrow> step\<^sup>*\<^sup>* s t \<Longrightarrow> I t"
  using run_I init_I by blast

end

text \<open>A server starts with no client; its rooms have been loaded and nobody is in them.\<close>

definition started :: "'x world \<Rightarrow> bool" where
  "started w \<longleftrightarrow> w_clients w = [] \<and> w_connectionToClient w = Map.empty \<and> w_tokenToClient w = Map.empty
     \<and> w_countersFromIp w = [] \<and> (\<forall>c. c_rooms (w_client w c) = [] \<and> c_connection (w_client w c) = None)
     \<and> (\<forall>r. r_members (w_room w r) = []) \<and> names_ok w"

lemma started_inv: "started w \<Longrightarrow> server_inv E w"
  by (simp add: started_def server_inv_def server_ok_def chat_ok_def linked_ok_def members_ok_def
      ids_ok_def nicks_ok_def registry_ok_def rooms_within_def residents_ok_def manager_ok_def
      tables_ok_def counts_exact_def counts_def connections_at_def clients_at_def limits_ok_def
      maxClientsFromIp_def)

lemma server_step_inv:
  assumes "server_inv E w" and "server_step E w w'"
  shows "server_inv E w'"
  using assms(2)
proof (rule server_stepE)
  fix ev assume "admissible w ev" and h: "handle E ev w = Inr w'"
  from handle_inv [OF assms(1) this(1)] show ?thesis by (simp add: h)
qed

interpretation server: transition_system "server_step E" started "server_inv E" for E
  by unfold_locales (auto intro: started_inv server_step_inv)

lemma reachable_rtranclp:
  assumes "reachable E w0 w"
  shows "(server_step E)\<^sup>*\<^sup>* w0 w"
  using assms by (induction rule: reachable.induct) (auto intro: rtranclp.rtrancl_into_rtrancl)

lemma reachable_inv:
  assumes "started w0" and "reachable E w0 w"
  shows "server_inv E w"
  by (rule server.reach_I [OF assms(1) reachable_rtranclp [OF assms(2)]])

lemma reachable_server_ok:
  assumes "started w0" and "reachable E w0 w"
  shows "server_ok E w" and "chat_ok w"
  using invD(1) [OF reachable_inv [OF assms]] by (simp_all add: server_okD)

end
