(* ===== verification/Sample.thy ===== *)
theory Sample
  imports Safety
begin

text \<open>
  One concrete instance of everything the model leaves open, for the witnesses: a small
  JSON library, an environment whose services are down, and an empty server.
\<close>

subsection \<open>A JSON library\<close>

datatype js =
    JNull | JInt int | JUint u32 | JUint64 int | JBool bool | JStr string
  | JArr "js list" | JObj "(string \<times> js) list"

fun js_set :: "js \<Rightarrow> string \<Rightarrow> js \<Rightarrow> js" where
  "js_set (JObj kvs) k v = JObj (AList.update k v kvs)"
| "js_set _ k v = JObj [(k, v)]"

fun js_get :: "js \<Rightarrow> string \<Rightarrow> exn + js" where
  "js_get (JObj kvs) k = Inr (case map_of kvs k of None \<Rightarrow> JNull | Some v \<Rightarrow> v)"
| "js_get JNull k = Inr JNull"
| "js_get _ k = Inl Other_exn"

fun js_isMember :: "js \<Rightarrow> string \<Rightarrow> bool" where
  "js_isMember (JObj kvs) k = (map_of kvs k \<noteq> None)"
| "js_isMember _ k = False"

fun js_elements :: "js \<Rightarrow> js list" where
  "js_elements (JArr vs) = vs"
| "js_elements (JObj kvs) = map snd kvs"
| "js_elements _ = []"

fun js_asInt :: "js \<Rightarrow> exn + int" where
  "js_asInt (JInt i) = Inr i"
| "js_asInt (JUint u) = Inr (uint u)"
| "js_asInt JNull = Inr 0"
| "js_asInt _ = Inl Other_exn"

fun js_asUInt :: "js \<Rightarrow> exn + u32" where
  "js_asUInt (JUint u) = Inr u"
| "js_asUInt (JInt i) = (if 0 \<le> i \<and> i < 2 ^ 32 then Inr (word_of_int i) else Inl Other_exn)"
| "js_asUInt JNull = Inr 0"
| "js_asUInt _ = Inl Other_exn"

fun js_asUInt64 :: "js \<Rightarrow> exn + int" where
  "js_asUInt64 (JUint64 i) = Inr i"
| "js_asUInt64 (JUint u) = Inr (uint u)"
| "js_asUInt64 JNull = Inr 0"
| "js_asUInt64 _ = Inl Other_exn"

fun js_asBool :: "js \<Rightarrow> exn + bool" where
  "js_asBool (JBool b) = Inr b"
| "js_asBool JNull = Inr False"
| "js_asBool _ = Inl Other_exn"

fun js_asString :: "js \<Rightarrow> exn + string" where
  "js_asString (JStr s) = Inr s"
| "js_asString JNull = Inr []"
| "js_asString _ = Inl Other_exn"

text \<open>A printer that is good enough to tell the sample documents apart.\<close>

fun js_write :: "js \<Rightarrow> string" where
  "js_write JNull = ''null''"
| "js_write (JInt i) = show_int i"
| "js_write (JUint u) = show_u32 u"
| "js_write (JUint64 i) = show_int i"
| "js_write (JBool b) = (if b then ''true'' else ''false'')"
| "js_write (JStr s) = quote @ s @ quote"
| "js_write (JArr vs) = ''['' @ concat (map (\<lambda>v. js_write v @ '','') vs) @ '']''"
| "js_write (JObj kvs) = ''{'' @ concat (map (\<lambda>(k, v). quote @ k @ quote @ '':'' @ js_write v @ '','') kvs)
     @ ''}''"

definition sample_json :: "(string \<Rightarrow> js option) \<Rightarrow> js jsoncpp" where
  "sample_json parse =
     \<lparr>j_null = JNull, j_of_int = JInt, j_of_uint = JUint, j_of_uint64 = JUint64, j_of_bool = JBool,
      j_of_string = JStr, j_of_array = JArr, j_object = JObj [], j_set = js_set, j_get = js_get,
      j_isMember = js_isMember, j_elements = js_elements, j_asInt = js_asInt, j_asUInt = js_asUInt,
      j_asUInt64 = js_asUInt64, j_asBool = js_asBool, j_asString = js_asString, j_write = js_write,
      j_parse = parse\<rparr>"

subsection \<open>An environment\<close>

text \<open>
  Every connection comes from the address \<open>10.0.0.1\<close>, the services do not answer, and
  the random numbers count.
\<close>

definition sample_ip :: string where
  "sample_ip = ''10.0.0.1''"

definition sample_env :: "(string \<Rightarrow> js option) \<Rightarrow> (js, unit) env" where
  "sample_env parse =
     \<lparr>e_json = sample_json parse, e_maxHistory = 2, e_header = (\<lambda>_ _. None),
      e_remote_ip = (\<lambda>_. sample_ip), e_cookie = (\<lambda>_ _. None), e_random = (\<lambda>(lo, hi) n. lo + n mod (hi - lo + 1)),
      e_find_invalid = length, e_redis_connected = (\<lambda>_. True),
      e_redis_connect = (\<lambda>x. (Inr (), x)), e_redis_command = (\<lambda>_ _ x. (Inr Reply_null, x)),
      e_config = (\<lambda>_. []), e_sql_conn = (\<lambda>_ _. True), e_sql_open = (\<lambda>_ _. True),
      e_mysql_connect = (\<lambda>_ x. (Inr (), x)), e_mysql_reconnect = (\<lambda>x. (Inr (), x)),
      e_postgres_connect = (\<lambda>_ x. (Inr (), x)), e_sql_statement = (\<lambda>x. (Inr (), x)),
      e_sql_prepare = (\<lambda>_ x. (Inr (), x)), e_sql_execute = (\<lambda>_ _ x. (Inr True, x)),
      e_sql_update = (\<lambda>_ _ x. (Inr 0, x)), e_sql_query = (\<lambda>_ _ _ x. (Inr [], x)),
      e_sql_int = (\<lambda>_. 0), e_stoi = (\<lambda>_. Inr 0)\<rparr>"

definition no_client :: client where
  "no_client = client_new [] 0"

definition empty_world :: "unit world" where
  "empty_world =
     \<lparr>w_client = (\<lambda>_. no_client), w_member = (\<lambda>_. member_new 0 0 0), w_room = (\<lambda>_. room_new),
      w_nextClient = 0, w_nextMember = 0, w_nextRoom = 0, w_rooms = [], w_clients = [],
      w_connectionToClient = Map.empty, w_tokenToClient = Map.empty, w_countersFromIp = [],
      w_now = 1000, w_random = 0, w_ext = (), w_out = []\<rparr>"

lemma empty_started: "started empty_world"
  by (simp add: started_def empty_world_def names_ok_def no_client_def client_new_def room_new_def)

lemma sample_ip_of: "getRealClientIp (sample_env parse) cn = sample_ip"
  by (simp add: getRealClientIp_def sample_env_def)

text \<open>The first connection of the empty server.\<close>

definition sample_token :: string where
  "sample_token = keygen_generate (sample_env (\<lambda>_. None)) tokenLength 0"

definition one_client :: "unit world" where
  "one_client = connected (sample_env (\<lambda>_. None)) 7 sample_token tokenLength empty_world"

lemma first_opens:
  assumes w: "started w" "w_random w = 0"
    and ip: "\<And>cn. getRealClientIp E cn = sample_ip"
    and keygen: "\<And>n k. keygen_generate E n k = keygen_generate (sample_env (\<lambda>_. None)) n k"
  shows "handle E (Opened 7) w = Inr (connected (sample_env (\<lambda>_. None)) 7 sample_token tokenLength w)"
proof -
  have connected: "connected E cn tok p w = connected (sample_env (\<lambda>_. None)) cn tok p w" for cn tok p
    by (simp add: connected_def sample_ip_of ip)
  have draw: "draw_token E (\<lambda>t. w_tokenToClient w t \<noteq> None) (w_random w) = Some (sample_token, tokenLength)"
    using w by (subst draw_token.simps) (simp add: Let_def started_def sample_token_def keygen)
  have ok: "server_ok E w" using invD(1) [OF started_inv [OF w(1)]] .
  have conn: "manager_connect E 7 w = Inr (connected (sample_env (\<lambda>_. None)) 7 sample_token tokenLength w)"
    by (simp only: manager_connect_eq draw returned_simps bindS_simps prod.case connected)
  have none: "connections_at w ip = 0" "clients_at w ip = 0" for ip
    using w(1) by (simp_all add: connections_at_def clients_at_def started_def)
  show ?thesis
    by (simp add: on_open_eq [OF ok] Let_def none conn maxConnectionsFromIp_def maxClientsFromIp_def)
qed

lemma sample_opens: "handle (sample_env parse) (Opened 7) empty_world = Inr one_client"
  unfolding one_client_def
  by (rule first_opens) (simp_all add: empty_started sample_ip_of keygen_generate_def, simp_all add: sample_env_def empty_world_def)

lemma sample_step: "server_step (sample_env parse) empty_world one_client"
  by (rule server_step.intros [of _ "Opened 7"]) (simp_all only: sample_opens, simp add: empty_world_def)

lemma one_client_sel:
  "w_clients one_client = [0]" "w_connectionToClient one_client = [7 \<mapsto> 0]"
  "c_connection (w_client one_client 0) = Some 7" "c_lastClientIP (w_client one_client 0) = sample_ip"
  "w_now one_client = 1000" "w_rooms one_client = []" "c_rooms (w_client one_client 0) = []"
  "c_token (w_client one_client 0) = sample_token" "w_tokenToClient one_client = [sample_token \<mapsto> 0]"
  "c_lastPacketTime (w_client one_client 0) = 1000"
  by (simp_all add: one_client_def connected_sel empty_world_def sample_ip_of client_new_def)

subsection \<open>A room with two members\<close>

text \<open>
  Alice owns the room \<open>#lobby\<close> and moderates it; Bob is a guest. Both are connected.
\<close>

definition alice :: client where
  "alice = (client_new ''A'' 1000)\<lparr>c_name := ''alice'', c_uid := 5, c_connection := Some 7,
     c_lastClientIP := sample_ip, c_rooms := [0]\<rparr>"

definition bob :: client where
  "bob = (client_new ''B'' 1000)\<lparr>c_connection := Some 8, c_lastClientIP := sample_ip, c_rooms := [0]\<rparr>"

definition lobby :: room where
  "lobby = room_new\<lparr>r_name := ''#lobby'', r_ownerId := 5, r_members := [0, 1], r_nextMemberId := 2\<rparr>"

definition chat_world :: "unit world" where
  "chat_world =
     \<lparr>w_client = (\<lambda>_. no_client)(0 := alice, 1 := bob),
      w_member = (\<lambda>_. member_new 9 9 0)(0 := (member_new 0 0 1000)\<lparr>m_id := 1, m_nick := ''alice'', m_status := St_online\<rparr>,
        1 := (member_new 0 1 1000)\<lparr>m_id := 2, m_nick := ''bob'', m_status := St_online\<rparr>),
      w_room = (\<lambda>_. room_new)(0 := lobby),
      w_nextClient = 2, w_nextMember = 2, w_nextRoom = 1, w_rooms = [0], w_clients = [0, 1],
      w_connectionToClient = [7 \<mapsto> 0, 8 \<mapsto> 1], w_tokenToClient = [''A'' \<mapsto> 0, ''B'' \<mapsto> 1],
      w_countersFromIp = [(sample_ip, \<lparr>ct_connections = 2, ct_clients = 2\<rparr>)],
      w_now = 1000, w_random = 0, w_ext = (), w_out = []\<rparr>"

lemmas sample_defs = chat_world_def alice_def bob_def lobby_def no_client_def client_new_def
  member_new_def room_new_def

lemma chat_world_linked: "linked_ok chat_world"
proof -
  have "members_ok chat_world"
    by (auto simp: members_ok_def sample_defs inj_on_def)
  moreover have "ids_ok chat_world" by (auto simp: ids_ok_def sample_defs inj_on_def)
  moreover have "nicks_ok chat_world" by (auto simp: nicks_ok_def sample_defs)
  ultimately show ?thesis by (simp add: linked_ok_def)
qed

lemma chat_world_chat: "chat_ok chat_world"
proof -
  have "registry_ok chat_world"
    by (auto simp: registry_ok_def names_ok_def rooms_within_def sample_defs)
  moreover have "residents_ok chat_world" by (auto simp: residents_ok_def sample_defs)
  ultimately show ?thesis using chat_world_linked by (simp add: chat_ok_iff rooms_ok_def)
qed

lemma chat_world_counts: "counts chat_world ip = (if ip = sample_ip then (2, 2) else (0, 0))"
  by (auto simp: counts_def connections_at_def clients_at_def conn_at_ip_def at_ip_def sample_defs)

lemma chat_world_served:
  assumes "\<And>cn. getRealClientIp E cn = sample_ip"
  shows "server_inv E chat_world"
proof -
  have "tables_ok E chat_world"
    by (auto simp: tables_ok_def sample_defs assms)
  moreover have "counts_exact (w_countersFromIp chat_world) (counts chat_world)"
    unfolding counts_exact_def chat_world_counts by (simp add: chat_world_def)
  moreover have "limits_ok chat_world"
    unfolding limits_ok_def maxClientsFromIp_def
  proof
    fix ip
    have "clients_at chat_world ip = snd (counts chat_world ip)" by (simp add: counts_def)
    then show "int (clients_at chat_world ip) \<le> 5" by (simp add: chat_world_counts)
  qed
  ultimately show ?thesis
    using chat_world_chat by (simp add: server_inv_def server_ok_def manager_ok_def)
qed

lemma chat_world_inv: "server_inv (sample_env parse) chat_world"
  by (rule chat_world_served) (rule sample_ip_of)

lemma chat_world_sel:
  "w_clients chat_world = [0, 1]" "w_rooms chat_world = [0]" "w_now chat_world = 1000"
  "w_nextClient chat_world = 2" "w_nextMember chat_world = 2" "w_nextRoom chat_world = 1"
  "w_connectionToClient chat_world = [7 \<mapsto> 0, 8 \<mapsto> 1]"
  "w_tokenToClient chat_world = [''A'' \<mapsto> 0, ''B'' \<mapsto> 1]" "w_out chat_world = []"
  "w_client chat_world 0 = alice" "w_client chat_world (Suc 0) = bob" "w_room chat_world 0 = lobby"
  "m_client (w_member chat_world 0) = 0" "m_client (w_member chat_world (Suc 0)) = 1"
  "m_room (w_member chat_world 0) = 0" "m_room (w_member chat_world (Suc 0)) = 0"
  "m_nick (w_member chat_world 0) = ''alice''" "m_nick (w_member chat_world (Suc 0)) = ''bob''"
  "m_id (w_member chat_world 0) = 1" "m_id (w_member chat_world (Suc 0)) = 2"
  by (simp_all add: chat_world_def member_new_def)

lemma people_sel:
  "c_connection alice = Some 7" "c_connection bob = Some 8" "c_token alice = ''A''" "c_token bob = ''B''"
  "c_uid alice = 5" "c_uid bob = 0" "c_rooms alice = [0]" "c_rooms bob = [0]"
  "c_messageCounter alice = 0" "c_messageCounter bob = 0" "c_lastMessageTime alice = 1000" "c_lastMessageTime bob = 1000"
  "c_lastClientIP bob = sample_ip"
  "r_name lobby = ''#lobby''" "r_ownerId lobby = 5" "r_members lobby = [0, 1]" "r_bannedNicks lobby = []"
  "r_bannedIps lobby = []" "r_bannedUids lobby = []" "r_moderators lobby = []" "r_membersInfo lobby = []"
  "r_history lobby = []" "r_nextMemberId lobby = 2" "r_nextMessageId lobby = 0"
  by (simp_all add: alice_def bob_def lobby_def client_new_def room_new_def)

lemmas chat_sel = chat_world_sel people_sel

end
