(* ===== verification/RoomFacts.thy ===== *)
theory RoomFacts
  imports Safety
begin

text \<open>
  What rooms promise: the bounded history, broadcasts that reach every connected member
  exactly once, fresh member ids, and who is let in.
\<close>

subsection \<open>The history\<close>

lemma trim_history_drop: "trim_history lim xs = drop (length xs - lim) xs"
proof (induction xs)
  case (Cons x xs)
  then show ?case by (cases "length xs < lim") (auto simp: Suc_diff_le)
qed simp

lemma length_trim_history: "length (trim_history lim xs) \<le> lim"
  by (simp add: trim_history_drop)

lemma history_after_broadcast:
  "r_history (w_room (sendPacketToAll E r (Packet_Message p) w) r) =
     (if pm_to_id p = 0
      then drop (Suc (length (r_history (w_room w r))) - history_limit E)
             (r_history (w_room w r) @ [wire E (Packet_Message p)])
      else r_history (w_room w r))"
  by (simp add: sendPacketToAll_eq addToHistory_def trim_history_drop)

lemma history_limit_nonneg: "0 \<le> e_maxHistory E \<Longrightarrow> e_maxHistory E < 2 ^ 31 \<Longrightarrow>
    history_limit E = nat (e_maxHistory E)"
  by (simp add: history_limit_def unsigned_of_int take_bit_int_eq_self)

lemma history_limit_negative:
  assumes "- (2 ^ 31) \<le> e_maxHistory E" and "e_maxHistory E < 0"
  shows "2 ^ 63 \<le> history_limit E"
proof -
  have "e_maxHistory E mod 2 ^ 64 = (e_maxHistory E + 2 ^ 64) mod 2 ^ 64" by (rule mod_add_self2 [symmetric])
  also have "\<dots> = e_maxHistory E + 2 ^ 64" using assms by (intro mod_pos_pos_trivial) simp_all
  finally have "uint (word_of_int (e_maxHistory E) :: 64 word) = e_maxHistory E + 2 ^ 64"
    by (simp add: uint_word_of_int)
  then show ?thesis using assms by (simp add: history_limit_def unat_eq_nat_uint)
qed

subsection \<open>Broadcasts\<close>

text \<open>The connections of the members of a room, in the order of the members.\<close>

definition room_connections :: "'x world \<Rightarrow> room_ptr \<Rightarrow> conn list" where
  "room_connections w r = concat (map (\<lambda>m. case c_connection (w_client w (m_client (w_member w m))) of
       None \<Rightarrow> [] | Some cn \<Rightarrow> [cn]) (r_members (w_room w r)))"

lemma deliveries_eq:
  "concat (map (\<lambda>m. delivery w (m_client (w_member w m)) d) ms) =
     map (\<lambda>cn. Send cn d) (concat (map (\<lambda>m. case c_connection (w_client w (m_client (w_member w m))) of
       None \<Rightarrow> [] | Some cn \<Rightarrow> [cn]) ms))"
  by (induction ms) (auto simp: delivery_def split: option.split)

lemma broadcast_out:
  "w_out (sendPacketToAll E r p w) = w_out w @ map (\<lambda>cn. Send cn (wire E p)) (room_connections w r)"
  by (simp add: sendPacketToAll_eq deliveries_eq room_connections_def)

lemma set_room_connections:
  "cn \<in> set (room_connections w r) \<longleftrightarrow>
     (\<exists>m \<in> set (r_members (w_room w r)). c_connection (w_client w (m_client (w_member w m))) = Some cn)"
  by (force simp: room_connections_def split: option.splits)

lemma distinct_concat_options:
  assumes "distinct xs"
    and "\<And>x y k. x \<in> set xs \<Longrightarrow> y \<in> set xs \<Longrightarrow> f x = Some k \<Longrightarrow> f y = Some k \<Longrightarrow> x = y"
  shows "distinct (concat (map (\<lambda>x. case f x of None \<Rightarrow> [] | Some k \<Rightarrow> [k]) xs))"
  using assms
proof (induction xs)
  case (Cons x xs)
  have "distinct (concat (map (\<lambda>x. case f x of None \<Rightarrow> [] | Some k \<Rightarrow> [k]) xs))"
    using Cons.prems by (intro Cons.IH) auto
  moreover have "k \<notin> set (concat (map (\<lambda>x. case f x of None \<Rightarrow> [] | Some k \<Rightarrow> [k]) xs))"
    if "f x = Some k" for k
  proof
    assume "k \<in> set (concat (map (\<lambda>x. case f x of None \<Rightarrow> [] | Some k \<Rightarrow> [k]) xs))"
    then obtain y where "y \<in> set xs" "f y = Some k" by (auto split: option.splits)
    with Cons.prems(2) [of x y k] that have "x = y" by simp
    with \<open>y \<in> set xs\<close> Cons.prems(1) show False by simp
  qed
  ultimately show ?case by (auto split: option.split)
qed simp

lemma distinct_room_connections:
  assumes "server_ok E w"
  shows "distinct (room_connections w r)"
  unfolding room_connections_def
proof (rule distinct_concat_options)
  have mok: "members_ok w" by (rule chat_okD(1) [OF server_okD(1) [OF assms]])
  show "distinct (r_members (w_room w r))" by (rule members_okD(6) [OF mok])
  fix m k cn
  assume m: "m \<in> set (r_members (w_room w r))" and k: "k \<in> set (r_members (w_room w r))"
    and cm: "c_connection (w_client w (m_client (w_member w m))) = Some cn"
    and ck: "c_connection (w_client w (m_client (w_member w k))) = Some cn"
  have clients: "m_client (w_member w x) \<in> set (w_clients w)" if "x \<in> set (r_members (w_room w r))" for x
    using chat_okD(8) [OF server_okD(1) [OF assms]] members_okD(4) [OF mok that]
    by (force simp: residents_ok_def)
  have "w_connectionToClient w cn = Some (m_client (w_member w m))"
    "w_connectionToClient w cn = Some (m_client (w_member w k))"
    using tables_okD(3) [OF server_okD(2) [OF assms]] clients [OF m] clients [OF k] cm ck by blast+
  then have "m_client (w_member w m) = m_client (w_member w k)" by simp
  then show "m = k" by (rule members_okD(7) [OF mok m k])
qed

lemma count_list_distinct: "distinct xs \<Longrightarrow> count_list xs x = (if x \<in> set xs then 1 else 0)"
  by (induction xs) auto

lemma count_list_map_Send: "count_list (map (\<lambda>cn. Send cn d) xs) (Send k d) = count_list xs k"
  by (induction xs) auto

lemma broadcast_once:
  assumes "server_ok E w"
  shows "\<exists>sends. w_out (sendPacketToAll E r p w) = w_out w @ sends
    \<and> (\<forall>s \<in> set sends. \<exists>cn. s = Send cn (wire E p))
    \<and> (\<forall>cn. count_list sends (Send cn (wire E p)) =
        (if \<exists>m \<in> set (r_members (w_room w r)). c_connection (w_client w (m_client (w_member w m))) = Some cn
         then 1 else 0))"
proof (intro exI conjI)
  show "w_out (sendPacketToAll E r p w) = w_out w @ map (\<lambda>cn. Send cn (wire E p)) (room_connections w r)"
    by (rule broadcast_out)
  show "\<forall>cn. count_list (map (\<lambda>cn. Send cn (wire E p)) (room_connections w r)) (Send cn (wire E p)) =
        (if \<exists>m \<in> set (r_members (w_room w r)). c_connection (w_client w (m_client (w_member w m))) = Some cn
         then 1 else 0)"
    by (simp add: count_list_map_Send count_list_distinct [OF distinct_room_connections [OF assms]]
        set_room_connections)
qed auto

subsection \<open>Who is let in\<close>

definition privileged :: "'x world \<Rightarrow> room_ptr \<Rightarrow> client_ptr \<Rightarrow> bool" where
  "privileged w r c \<longleftrightarrow>
     (let uid = c_uid (w_client w c); rm = w_room w r
      in uid = 1 \<or> uid = 2 \<or> (uid \<noteq> 0 \<and> (uid = r_ownerId rm \<or> uid \<in> set (r_moderators rm))))"

lemma member_isModer_privileged:
  "member_isModer w m = privileged w (m_room (w_member w m)) (m_client (w_member w m))"
  by (auto simp: member_isModer_def member_isOwner_def client_isAdmin_def privileged_def Let_def
      room_isModerator_def)

lemma room_addMember_verdict:
  assumes ok: "members_ok w" and add: "room_addMember r c w = Inr (res, w')"
  shows "res = (if \<not> privileged w r c \<and> c_lastClientIP (w_client w c) \<in> set (r_bannedIps (w_room w r))
                then Inl BannedByIPException
                else if \<not> privileged w r c \<and> c_uid (w_client w c) \<in> set (r_bannedUids (w_room w r))
                then Inl BannedByIDException
                else Inr (Some (w_nextMember w)))"
proof -
  let ?m = "w_nextMember w"
  let ?w0 = "w\<lparr>w_member := (w_member w)(?m := member_new r c (w_now w)), w_nextMember := Suc ?m\<rparr>"
  have notin: "?m \<notin> set (r_members (w_room w r))" using members_okD(5) [OF ok] by blast
  obtain i w1 where gen: "genNextMemberId r ?w0 = Inr (i, w1)"
    using add by (auto simp: room_addMember_def Let_def bindS_Inr_iff)
  note w1 = genNextMemberId_fresh(3) [OF gen]
  have priv: "privileged (upd_member ?m (\<lambda>mb. mb\<lparr>m_id := i\<rparr>) w1) r c = privileged w r c"
    by (simp add: privileged_def w1 Let_def)
  have mod: "member_isModer (upd_member ?m (\<lambda>mb. mb\<lparr>m_id := i\<rparr>) w1) ?m = privileged w r c"
    using priv by (simp add: member_isModer_privileged w1 member_new_def)
  show ?thesis
    using add notin
    by (simp add: room_addMember_def Let_def gen)
      (auto simp: w1 mod [unfolded w1] room_isBannedIp_def room_isBannedUid_def split: if_splits)
qed

lemma client_joinRoom_verdict:
  assumes "members_ok w" and "client_joinRoom c r w = Inr (res, w')"
  shows "res = (if \<not> privileged w r c \<and> c_lastClientIP (w_client w c) \<in> set (r_bannedIps (w_room w r))
                then Inl BannedByIPException
                else if \<not> privileged w r c \<and> c_uid (w_client w c) \<in> set (r_bannedUids (w_room w r))
                then Inl BannedByIDException
                else Inr (Some (w_nextMember w)))"
proof -
  from assms(2) obtain res1 w1 where add: "room_addMember r c w = Inr (res1, w1)"
    and rest: "(case res1 of
         Inr (Some m) \<Rightarrow>
           (let w = upd_client c (\<lambda>cl. cl\<lparr>c_rooms := uset_insert r (c_rooms cl)\<rparr>) w1
            in Inr (res1, member_setStatus m St_online w))
       | _ \<Rightarrow> Inr (res1, w1)) = (Inr (res, w') :: (_ \<times> _) result)"
    unfolding client_joinRoom_def bindS_Inr_iff by auto
  from rest have "res1 = res" by (auto simp: Let_def split: sum.splits option.splits)
  with room_addMember_verdict [OF assms(1) add] show ?thesis by simp
qed

end
