(* ===== verification/CommandSpecs.thy ===== *)
theory CommandSpecs
  imports RoomFacts
begin

text \<open>
  What the commands promise: a table of rights that the chain of processors implements,
  where a command finds its arguments, and the effects of single commands.
\<close>

subsection \<open>The rights of the commands\<close>

datatype right = Anyone | NickHolder | AccountHolder | Moderator | Owner | Administrator

primrec required :: "command \<Rightarrow> right" where
  "required CommandHelp = Anyone"
| "required CommandNick = Anyone"
| "required CommandGender = Anyone"
| "required CommandColor = Anyone"
| "required (CommandStyledMessage st) = NickHolder"
| "required CommandPrivateMessage = NickHolder"
| "required CommandPrivateMessageById = NickHolder"
| "required CommandMyRoomList = AccountHolder"
| "required CommandModerList = Moderator"
| "required CommandBanList = Moderator"
| "required CommandBanNick = Moderator"
| "required CommandBanUid = Moderator"
| "required CommandBanIp = Moderator"
| "required CommandUnbanNick = Moderator"
| "required CommandUnbanUid = Moderator"
| "required CommandUnbanIp = Moderator"
| "required CommandKick = Moderator"
| "required CommandUserList = Moderator"
| "required CommandAddModer = Owner"
| "required CommandDelModer = Owner"
| "required CommandRoomList = Administrator"
| "required CommandIpCounter = Administrator"

primrec holds_right :: "'x world \<Rightarrow> member_ptr \<Rightarrow> right \<Rightarrow> bool" where
  "holds_right w m Anyone = True"
| "holds_right w m NickHolder = member_hasNick w m"
| "holds_right w m AccountHolder = (c_uid (w_client w (m_client (w_member w m))) \<noteq> 0)"
| "holds_right w m Moderator = member_isModer w m"
| "holds_right w m Owner = member_isOwner w m"
| "holds_right w m Administrator = member_isAdmin w m"

text \<open>
  Rights are ordered by what they imply: the rights that come from the account form a chain,
  the right of a nick stands beside it.
\<close>

primrec right_level :: "right \<Rightarrow> nat" where
  "right_level Anyone = 0"
| "right_level NickHolder = 1"
| "right_level AccountHolder = 1"
| "right_level Moderator = 2"
| "right_level Owner = 3"
| "right_level Administrator = 4"

instantiation right :: order_bot
begin

definition less_eq_right :: "right \<Rightarrow> right \<Rightarrow> bool" where
  "less_eq_right r q \<longleftrightarrow> r = q \<or> r = Anyone \<or> (r \<noteq> NickHolder \<and> q \<noteq> NickHolder \<and> right_level r \<le> right_level q)"

definition less_right :: "right \<Rightarrow> right \<Rightarrow> bool" where
  "less_right r q \<longleftrightarrow> r \<le> q \<and> r \<noteq> (q :: right)"

definition bot_right :: right where
  "bot_right = Anyone"

instance
proof
  have level: "r = q" if "right_level r = right_level q" "r \<noteq> NickHolder" "q \<noteq> NickHolder" for r q
    using that by (cases r; cases q) simp_all
  fix r q s :: right
  show "r < q \<longleftrightarrow> r \<le> q \<and> \<not> q \<le> r"
    using level [of r q] level [of q r] by (auto simp: less_right_def less_eq_right_def)
  show "r \<le> q \<Longrightarrow> q \<le> r \<Longrightarrow> r = q"
    using level [of r q] by (auto simp: less_eq_right_def)
  show "r \<le> q \<Longrightarrow> q \<le> s \<Longrightarrow> r \<le> s" by (cases r; cases q; cases s) (simp_all add: less_eq_right_def)
qed (auto simp: less_eq_right_def bot_right_def)

end

text \<open>The greatest right of a member that comes from its account.\<close>

definition rank :: "'x world \<Rightarrow> member_ptr \<Rightarrow> right" where
  "rank w m = (if member_isAdmin w m then Administrator else if member_isOwner w m then Owner
     else if member_isModer w m then Moderator
     else if c_uid (w_client w (m_client (w_member w m))) \<noteq> 0 then AccountHolder else bot)"

definition all_commands :: "command list" where
  "all_commands = cmd_admin @ cmd_owner @ cmd_moder @ cmd_user @ cmd_auth_user @ cmd_all"

definition command_named :: "string \<Rightarrow> command option" where
  "command_named nm = find (\<lambda>c. getName c = nm) all_commands"

lemmas command_lists = cmd_admin_def cmd_owner_def cmd_moder_def cmd_user_def cmd_auth_user_def
  cmd_all_def

lemma names_distinct: "distinct (map getName all_commands)"
  by (simp add: all_commands_def command_lists)

lemma find_names:
  assumes "set cs \<subseteq> set all_commands"
  shows "find (\<lambda>c. getName c = nm) cs =
    (case command_named nm of None \<Rightarrow> None | Some c \<Rightarrow> if c \<in> set cs then Some c else None)"
proof -
  have uniq: "c = d" if "c \<in> set all_commands" "d \<in> set all_commands" "getName c = getName d" for c d
    using names_distinct that by (simp add: distinct_map inj_on_def)
  have named: "getName d = nm \<and> d \<in> set all_commands" if "command_named nm = Some d" for d
    using find_SomeD [OF that [unfolded command_named_def]] by blast
  show ?thesis
  proof (cases "find (\<lambda>c. getName c = nm) cs")
    case None
    have "d \<notin> set cs" if d: "command_named nm = Some d" for d
      using find_NoneD [OF None, of d] named [OF d] by blast
    with None show ?thesis by (simp split: option.split)
  next
    case (Some c)
    then have c: "c \<in> set cs" "getName c = nm" using find_SomeD [OF Some] by blast+
    then have "command_named nm = Some c"
      unfolding command_named_def using assms uniq by (intro find_Some_unique) blast+
    with Some c(1) show ?thesis by simp
  qed
qed

lemma first_processor_concat:
  "first_processor E css nm m p w =
     map_option (\<lambda>c. command_process E c m p w) (find (\<lambda>c. getName c = nm) (concat (map rev css)))"
proof (induction css)
  case (Cons cs css)
  show ?case
    by (simp add: Cons processor_process_def processor_find_def find_append split: option.split)
qed simp

lemma rights_ordered:
  "member_isAdmin w m \<Longrightarrow> member_isOwner w m" "member_isOwner w m \<Longrightarrow> member_isModer w m"
  by (simp_all add: member_isAdmin_def member_isOwner_def member_isModer_def Let_def)

lemma holds_right_rank:
  "holds_right w m r \<longleftrightarrow> (if r = NickHolder then member_hasNick w m else r \<le> rank w m)"
proof -
  have "member_isModer w m \<Longrightarrow> c_uid (w_client w (m_client (w_member w m))) \<noteq> 0"
    by (auto simp: member_isModer_def member_isOwner_def client_isAdmin_def Let_def)
  then show ?thesis
    using rights_ordered [where w = w and m = m]
    by (cases r) (auto simp: rank_def less_eq_right_def bot_right_def)
qed

lemma holds_right_mono: "r \<le> q \<Longrightarrow> holds_right w m q \<Longrightarrow> holds_right w m r"
proof (cases "q = NickHolder")
  case True
  then show "r \<le> q \<Longrightarrow> holds_right w m q \<Longrightarrow> holds_right w m r" by (auto simp: less_eq_right_def)
next
  case False
  then show "r \<le> q \<Longrightarrow> holds_right w m q \<Longrightarrow> holds_right w m r"
    by (auto simp: holds_right_rank less_eq_right_def [of NickHolder] intro: order_trans)
qed

lemma granted_commands:
  "set (concat (map rev (granted w m))) = {c \<in> set all_commands. holds_right w m (required c)}"
proof -
  have "c \<in> set (concat (map rev (granted w m))) \<longleftrightarrow>
      (member_isAdmin w m \<and> c \<in> set cmd_admin) \<or> (member_isOwner w m \<and> c \<in> set cmd_owner) \<or>
      (member_isModer w m \<and> c \<in> set cmd_moder) \<or> (member_hasNick w m \<and> c \<in> set cmd_user) \<or>
      (c_uid (w_client w (m_client (w_member w m))) \<noteq> 0 \<and> c \<in> set cmd_auth_user) \<or> c \<in> set cmd_all" for c
    by (auto simp: granted_def word_gt_0)
  moreover have "(c \<in> set all_commands \<and> holds_right w m (required c)) \<longleftrightarrow>
      (member_isAdmin w m \<and> c \<in> set cmd_admin) \<or> (member_isOwner w m \<and> c \<in> set cmd_owner) \<or>
      (member_isModer w m \<and> c \<in> set cmd_moder) \<or> (member_hasNick w m \<and> c \<in> set cmd_user) \<or>
      (c_uid (w_client w (m_client (w_member w m))) \<noteq> 0 \<and> c \<in> set cmd_auth_user) \<or> c \<in> set cmd_all" for c
    by (cases c) (auto simp: all_commands_def command_lists)
  ultimately show ?thesis by blast
qed

lemma dispatch_by_rights:
  "first_processor E (granted w m) nm m p w =
     (case command_named nm of
        None \<Rightarrow> None
      | Some c \<Rightarrow> if holds_right w m (required c) then Some (command_process E c m p w) else None)"
proof -
  have "set (concat (map rev (granted w m))) \<subseteq> set all_commands"
    by (simp only: granted_commands) blast
  note find = find_names [OF this, of nm]
  have "c \<in> set all_commands" if "command_named nm = Some c" for c
    using that find_SomeD unfolding command_named_def by metis
  then show ?thesis
    unfolding first_processor_concat find granted_commands by (auto split: option.split)
qed

subsection \<open>The arguments of a command\<close>

text \<open>The first word of a text, and what follows it and the blanks after it.\<close>

definition first_word :: "string \<Rightarrow> string" where
  "first_word s = takeWhile (\<lambda>c. \<not> is_space c) s"

definition after_word :: "string \<Rightarrow> string" where
  "after_word s = dropWhile is_space (dropWhile (\<lambda>c. \<not> is_space c) s)"

definition at_arguments :: "string \<Rightarrow> regex_parser \<Rightarrow> bool" where
  "at_arguments args p \<longleftrightarrow> parser_suffix p = args \<and> rp_next_input p = args"

lemma dropWhile_hd: "dropWhile P s = [] \<or> \<not> P (hd (dropWhile P s))"
  by (metis hd_dropWhile)

lemma after_word_hd: "after_word s = [] \<or> \<not> is_space (hd (after_word s))"
  unfolding after_word_def by (rule dropWhile_hd)

lemma parser_next_word:
  assumes "rp_next_input p = s" and "s = [] \<or> \<not> is_space (hd s)"
  shows "fst (parser_next r_to_space p) = (s \<noteq> [])"
    and "s \<noteq> [] \<Longrightarrow> parser_read 0 (snd (parser_next r_to_space p)) = Some (first_word s)"
    and "rp_next_input (snd (parser_next r_to_space p)) = dropWhile (\<lambda>c. \<not> is_space c) s"
    and "s \<noteq> [] \<Longrightarrow> parser_suffix (snd (parser_next r_to_space p)) = dropWhile (\<lambda>c. \<not> is_space c) s"
  using assms
  by (auto simp: parser_next_def r_to_space_def regex_search_Bol_plus_Cls first_word_def
      parser_read_def smatch_element_def parser_suffix_def Let_def)

lemma parser_next_spaces:
  assumes "rp_next_input p = s" and "s = [] \<or> is_space (hd s)"
  shows "fst (parser_next r_spaces p) = (s \<noteq> [])"
    and "s \<noteq> [] \<Longrightarrow> parser_suffix (snd (parser_next r_spaces p)) = dropWhile is_space s"
    and "rp_next_input (snd (parser_next r_spaces p)) = dropWhile is_space s"
    and "s = [] \<Longrightarrow> snd (parser_next r_spaces p) = p"
  using assms
  by (auto simp: parser_next_def r_spaces_def regex_search_Bol_plus_Cls parser_suffix_def Let_def)

text \<open>The name of a command is the word after the slash.\<close>

lemma search_r_cmd:
  "regex_search (CHR ''/'' # s) r_cmd =
     (if s = [] \<or> is_space (hd s) then None
      else Some \<lparr>sm_prefix = [], sm_str = CHR ''/'' # first_word s,
             sm_suffix = dropWhile (\<lambda>c. \<not> is_space c) s,
             sm_caps = [1 \<mapsto> first_word s], sm_size = 2\<rparr>)"
proof (cases "s = [] \<or> is_space (hd s)")
  case True
  then show ?thesis
    by (simp add: r_cmd_def regex_search_Bol rx_char_def rx_all_plus_Cls_none)
next
  case False
  then obtain ts where ts: "rx_all (Some (Suc (length s))) (rx_plus (Cls (\<lambda>c. \<not> is_space c))) (s, Map.empty)
      = (dropWhile (\<lambda>c. \<not> is_space c) s, Map.empty) # ts"
    using rx_all_plus_Cls [of s "\<lambda>c. \<not> is_space c"] by blast
  have len: "length (dropWhile (\<lambda>c. \<not> is_space c) s) \<le> length s" by (rule length_dropWhile_le)
  show ?thesis using False
    by (simp add: r_cmd_def regex_search_Bol rx_char_def ts first_word_def take_dropWhile_length
        Suc_diff_le [OF len]) (simp add: rx_plus_def)
qed

definition command_parser :: "string \<Rightarrow> regex_parser" where
  "command_parser msg = snd (parser_next r_spaces (snd (parser_extract (snd (parser_next r_cmd (parser_new msg))))))"

lemma processCommand_words:
  assumes "msg = CHR ''/'' # s"
  shows "processCommand E m r msg w = Some
     (let bad = member_sendPacket E m (sys_packet (r_name (w_room w r)) txt_no_command) w
      in case command_named (first_word s) of
           None \<Rightarrow> bad
         | Some c \<Rightarrow> if holds_right w m (required c) then command_process E c m (command_parser msg) w
                    else bad)"
    and "first_word s \<noteq> [] \<Longrightarrow> at_arguments (after_word s) (command_parser msg)"
proof -
  have no_name: "command_named [] = None"
    by (simp add: command_named_def all_commands_def command_lists)
  define p1 where "p1 = snd (parser_next r_cmd (parser_new msg))"
  define p2 where "p2 = snd (parser_extract p1)"
  have parser: "command_parser msg = snd (parser_next r_spaces p2)"
    by (simp add: command_parser_def p1_def p2_def)
  have found: "fst (parser_next r_cmd (parser_new msg)) = (first_word s \<noteq> [])"
    using assms by (cases s) (auto simp: parser_next_def parser_new_def search_r_cmd first_word_def)
  have p1: "parser_extract p1 = (Some (first_word s), p2)" "rp_next_input p2 = dropWhile (\<lambda>c. \<not> is_space c) s"
    "parser_suffix p2 = dropWhile (\<lambda>c. \<not> is_space c) s" if ne: "first_word s \<noteq> []"
  proof -
    have sp: "\<not> (s = [] \<or> is_space (hd s))" using ne by (cases s) (auto simp: first_word_def)
    have "p1 = \<lparr>rp_iter = 0, rp_input = msg, rp_next_input = dropWhile (\<lambda>c. \<not> is_space c) s,
        rp_match = \<lparr>sm_prefix = [], sm_str = CHR ''/'' # first_word s,
             sm_suffix = dropWhile (\<lambda>c. \<not> is_space c) s,
             sm_caps = [1 \<mapsto> first_word s], sm_size = 2\<rparr>\<rparr>"
      using assms sp by (simp add: p1_def parser_next_def parser_new_def search_r_cmd)
    then show "parser_extract p1 = (Some (first_word s), p2)"
      "rp_next_input p2 = dropWhile (\<lambda>c. \<not> is_space c) s"
      "parser_suffix p2 = dropWhile (\<lambda>c. \<not> is_space c) s"
      by (simp_all add: p2_def parser_extract_def parser_valid_def parser_read_def smatch_element_def
          parser_suffix_def)
  qed
  show "processCommand E m r msg w = Some
     (let bad = member_sendPacket E m (sys_packet (r_name (w_room w r)) txt_no_command) w
      in case command_named (first_word s) of
           None \<Rightarrow> bad
         | Some c \<Rightarrow> if holds_right w m (required c) then command_process E c m (command_parser msg) w
                    else bad)"
  proof (cases "first_word s = []")
    case True
    then show ?thesis
      using assms found
      by (cases "parser_next r_cmd (parser_new msg)") (simp add: processCommand_def no_name)
  next
    case False
    have eq: "parser_next r_cmd (parser_new msg) = (True, p1)"
      using found False by (simp add: p1_def prod_eq_iff)
    show ?thesis
      using assms by (simp add: processCommand_def eq [unfolded assms] p1(1) [OF False] parser [unfolded assms]
          dispatch_by_rights Let_def split: option.split)
  qed
  assume ne: "first_word s \<noteq> []"
  let ?t = "dropWhile (\<lambda>c. \<not> is_space c) s"
  have t: "?t = [] \<or> is_space (hd ?t)" using dropWhile_hd [of "\<lambda>c. \<not> is_space c" s] by simp
  show "at_arguments (after_word s) (command_parser msg)"
  proof (cases "?t = []")
    case True
    then have "snd (parser_next r_spaces p2) = p2" "rp_next_input p2 = []" "parser_suffix p2 = []"
      using parser_next_spaces(4) [OF p1(2) [OF ne] t] p1(2,3) [OF ne] by simp_all
    then show ?thesis by (simp only: at_arguments_def after_word_def parser True dropWhile.simps)
  next
    case False
    with parser_next_spaces(2,3) [OF p1(2) [OF ne] t] show ?thesis
      by (simp add: at_arguments_def after_word_def parser)
  qed
qed

end
