(* ===== verification/Languages.thy ===== *)
theory Languages
  imports Safety
begin

text \<open>
  The matcher against the languages of its patterns: for patterns without anchors,
  \<open>regex_match\<close> accepts a text just when the text is in the language of the pattern. The
  room names and the nicks the server accepts follow from it.
\<close>

subsection \<open>The language of a pattern\<close>

fun anchor_free :: "rx \<Rightarrow> bool" where
  "anchor_free Eps = True"
| "anchor_free (Cls P) = True"
| "anchor_free (Seq r1 r2) = (anchor_free r1 \<and> anchor_free r2)"
| "anchor_free (Alt r1 r2) = (anchor_free r1 \<and> anchor_free r2)"
| "anchor_free (Rep r lo hi) = anchor_free r"
| "anchor_free (Grp n r) = anchor_free r"
| "anchor_free Bol = False"
| "anchor_free Eol = False"

definition repeats :: "nat \<Rightarrow> nat option \<Rightarrow> nat \<Rightarrow> bool" where
  "repeats lo hi n \<longleftrightarrow> lo \<le> n \<and> (case hi of None \<Rightarrow> True | Some h \<Rightarrow> n \<le> lo + (h - lo))"

primrec rx_lang :: "rx \<Rightarrow> string set" where
  "rx_lang Eps = {[]}"
| "rx_lang (Cls P) = {[c] |c. P c}"
| "rx_lang (Seq r1 r2) = {u @ v |u v. u \<in> rx_lang r1 \<and> v \<in> rx_lang r2}"
| "rx_lang (Alt r1 r2) = rx_lang r1 \<union> rx_lang r2"
| "rx_lang (Rep r lo hi) = {concat us |us. repeats lo hi (length us) \<and> set us \<subseteq> rx_lang r}"
| "rx_lang (Grp n r) = rx_lang r"
| "rx_lang Bol = {[]}"
| "rx_lang Eol = {[]}"

subsection \<open>Every result of the matcher consumes a word of the language\<close>

definition consumes :: "string set \<Rightarrow> string \<times> caps \<Rightarrow> string \<times> caps \<Rightarrow> bool" where
  "consumes L s t \<longleftrightarrow> (\<exists>u \<in> L. fst s = u @ fst t)"

lemma rep_exact_sound:
  assumes "\<And>s t. t \<in> set (f s) \<Longrightarrow> consumes L s t"
  shows "t \<in> set (rep_exact f n s) \<Longrightarrow>
    \<exists>us. length us = n \<and> set us \<subseteq> L \<and> fst s = concat us @ fst t"
proof (induction n arbitrary: s)
  case (Suc n)
  then obtain s1 where s1: "s1 \<in> set (f s)" and t: "t \<in> set (rep_exact f n s1)" by auto
  obtain u where "u \<in> L" "fst s = u @ fst s1" using assms [OF s1] by (auto simp: consumes_def)
  moreover obtain us where "length us = n" "set us \<subseteq> L" "fst s1 = concat us @ fst t"
    using Suc.IH [OF t] by blast
  ultimately show ?case by (intro exI [of _ "u # us"]) simp
qed simp

lemma rep_upto_sound:
  assumes "\<And>s t. t \<in> set (f s) \<Longrightarrow> consumes L s t"
  shows "t \<in> set (rep_upto f k s) \<Longrightarrow>
    \<exists>us. length us \<le> k \<and> set us \<subseteq> L \<and> fst s = concat us @ fst t"
proof (induction k arbitrary: s)
  case (Suc k)
  show ?case
  proof (cases "t = s")
    case True
    then show ?thesis by (intro exI [of _ "[]"]) simp
  next
    case False
    then obtain s1 where s1: "s1 \<in> set (f s)" and t: "t \<in> set (rep_upto f k s1)"
      using Suc.prems by auto
    obtain u where "u \<in> L" "fst s = u @ fst s1" using assms [OF s1] by (auto simp: consumes_def)
    moreover obtain us where "length us \<le> k" "set us \<subseteq> L" "fst s1 = concat us @ fst t"
      using Suc.IH [OF t] by blast
    ultimately show ?thesis by (intro exI [of _ "u # us"]) simp
  qed
qed (auto intro: exI [of _ "[]"])

lemma rx_all_sound: "t \<in> set (rx_all b r s) \<Longrightarrow> consumes (rx_lang r) s t"
proof (induction r arbitrary: s t)
  case (Seq r1 r2)
  then obtain s1 where "s1 \<in> set (rx_all b r1 s)" and "t \<in> set (rx_all b r2 s1)" by auto
  then have "consumes (rx_lang r1) s s1" "consumes (rx_lang r2) s1 t" using Seq.IH by blast+
  then show ?case by (fastforce simp: consumes_def)
next
  case (Rep r lo hi)
  then obtain s1 where s1: "s1 \<in> set (rep_exact (rx_all b r) lo s)"
    and t: "t \<in> set (rep_upto (rx_all b r) (case hi of None \<Rightarrow> length (fst s1) | Some h \<Rightarrow> h - lo) s1)"
    by auto
  obtain us where us: "length us = lo" "set us \<subseteq> rx_lang r" "fst s = concat us @ fst s1"
    using rep_exact_sound [OF Rep.IH s1] by blast
  obtain vs where vs: "length vs \<le> (case hi of None \<Rightarrow> length (fst s1) | Some h \<Rightarrow> h - lo)"
    "set vs \<subseteq> rx_lang r" "fst s1 = concat vs @ fst t"
    using rep_upto_sound [OF Rep.IH t] by blast
  have "repeats lo hi (length (us @ vs))"
    using us(1) vs(1) by (cases hi) (auto simp: repeats_def)
  moreover have "set (us @ vs) \<subseteq> rx_lang r" "fst s = concat (us @ vs) @ fst t"
    using us vs by auto
  ultimately have "concat (us @ vs) \<in> rx_lang (Rep r lo hi)" "fst s = concat (us @ vs) @ fst t"
    unfolding rx_lang.simps(5) by blast+
  then show ?case unfolding consumes_def by (rule bexI [rotated])
next
  case (Grp n r)
  then obtain t' where "t' \<in> set (rx_all b r s)" "fst t = fst t'" by auto
  with Grp.IH [of t' s] show ?case by (simp add: consumes_def)
next
  case (Cls P)
  then show ?case by (cases "fst s") (auto simp: consumes_def split: if_splits)
next
  case (Alt r1 r2)
  then have "t \<in> set (rx_all b r1 s) \<or> t \<in> set (rx_all b r2 s)" by simp
  then have "consumes (rx_lang r1) s t \<or> consumes (rx_lang r2) s t" using Alt.IH by blast
  then show ?case by (auto simp: consumes_def)
qed (auto simp: consumes_def split: if_splits)

subsection \<open>Every word of the language is a result\<close>

definition complete_for :: "string set \<Rightarrow> (string \<times> caps \<Rightarrow> (string \<times> caps) list) \<Rightarrow> bool" where
  "complete_for L f \<longleftrightarrow> (\<forall>u \<in> L. \<forall>v g. \<exists>g'. (v, g') \<in> set (f (u @ v, g)))"

lemma complete_forD: "complete_for L f \<Longrightarrow> u \<in> L \<Longrightarrow> \<exists>g'. (v, g') \<in> set (f (u @ v, g))"
  by (auto simp: complete_for_def)

lemma rep_exact_complete:
  assumes "complete_for L f"
  shows "set us \<subseteq> L \<Longrightarrow> \<exists>g'. (v, g') \<in> set (rep_exact f (length us) (concat us @ v, g))"
proof (induction us arbitrary: g)
  case (Cons u us)
  then obtain g1 where g1: "(concat us @ v, g1) \<in> set (f (u @ concat us @ v, g))"
    using complete_forD [OF assms, of u "concat us @ v" g] Cons.prems by auto
  obtain g' where "(v, g') \<in> set (rep_exact f (length us) (concat us @ v, g1))"
    using Cons by auto
  with g1 show ?case by force
qed simp

lemma rep_upto_complete:
  assumes "complete_for L f"
  shows "set us \<subseteq> L \<Longrightarrow> [] \<notin> set us \<Longrightarrow> length us \<le> k \<Longrightarrow>
    \<exists>g'. (v, g') \<in> set (rep_upto f k (concat us @ v, g))"
proof (induction us arbitrary: g k)
  case Nil
  then show ?case by (cases k) auto
next
  case (Cons u us)
  then obtain k' where k: "k = Suc k'" "length us \<le> k'" by (cases k) auto
  obtain g1 where g1: "(concat us @ v, g1) \<in> set (f (u @ concat us @ v, g))"
    using complete_forD [OF assms, of u "concat us @ v" g] Cons.prems(1) by auto
  obtain g' where g': "(v, g') \<in> set (rep_upto f k' (concat us @ v, g1))"
    using Cons.IH [of k' g1] Cons.prems k by auto
  have "(concat us @ v, g1) \<in> set (filter (\<lambda>t. length (fst t) < length (fst (concat (u # us) @ v, g)))
      (f (concat (u # us) @ v, g)))"
    using g1 Cons.prems(2) by auto
  with g' show ?case unfolding k by force
qed

lemma concat_drop_empty: "concat (filter (\<lambda>u. u \<noteq> []) us) = concat us"
  by (induction us) auto

lemma length_concat_nonempty: "[] \<notin> set us \<Longrightarrow> length us \<le> length (concat us)"
  by (induction us) (auto simp: Suc_le_eq intro: add_strict_increasing)

lemma rx_all_complete: "anchor_free r \<Longrightarrow> complete_for (rx_lang r) (rx_all b r)"
proof (induction r)
  case (Seq r1 r2)
  have c1: "complete_for (rx_lang r1) (rx_all b r1)" and c2: "complete_for (rx_lang r2) (rx_all b r2)"
    using Seq by simp_all
  have "\<exists>g'. (v, g') \<in> set (rx_all b (Seq r1 r2) (u1 @ u2 @ v, g))"
    if u: "u1 \<in> rx_lang r1" "u2 \<in> rx_lang r2" for u1 u2 v g
  proof -
    obtain g1 where g1: "(u2 @ v, g1) \<in> set (rx_all b r1 (u1 @ u2 @ v, g))"
      using complete_forD [OF c1 u(1), of "u2 @ v" g] by blast
    obtain g' where "(v, g') \<in> set (rx_all b r2 (u2 @ v, g1))"
      using complete_forD [OF c2 u(2), of v g1] by blast
    with g1 show ?thesis by force
  qed
  then show ?case by (auto simp: complete_for_def simp del: rx_all.simps)
next
  case (Alt r1 r2)
  then show ?case by (fastforce simp: complete_for_def)
next
  case (Rep r lo hi)
  have comp: "complete_for (rx_lang r) (rx_all b r)" using Rep by simp
  have "\<exists>g'. (v, g') \<in> set (rx_all b (Rep r lo hi) (concat us @ v, g))"
    if us: "repeats lo hi (length us)" "set us \<subseteq> rx_lang r" for us v g
  proof -
    let ?ws = "take lo us" and ?vs = "filter (\<lambda>u. u \<noteq> []) (drop lo us)"
    have split: "concat us = concat ?ws @ concat ?vs"
      by (simp add: concat_drop_empty flip: concat_append)
    have sub: "set ?ws \<subseteq> rx_lang r" "set ?vs \<subseteq> rx_lang r"
      using us(2) by (auto dest: in_set_takeD in_set_dropD)
    have len: "length ?ws = lo" using us(1) by (simp add: repeats_def)
    obtain g1 where g1: "(concat ?vs @ v, g1) \<in> set (rep_exact (rx_all b r) lo (concat us @ v, g))"
      using rep_exact_complete [OF comp sub(1), of "concat ?vs @ v" g] len by (auto simp: split)
    let ?k = "case hi of None \<Rightarrow> length (fst (concat ?vs @ v, g1)) | Some h \<Rightarrow> h - lo"
    have "length ?vs \<le> length (drop lo us)" by (rule length_filter_le)
    then have "length ?vs \<le> ?k"
      using us(1) length_concat_nonempty [of ?vs]
      by (auto simp: repeats_def trans_le_add1 split: option.splits)
    then obtain g' where "(v, g') \<in> set (rep_upto (rx_all b r) ?k (concat ?vs @ v, g1))"
      using rep_upto_complete [OF comp sub(2), of ?k v g1] by auto
    with g1 show ?thesis by force
  qed
  then show ?case by (auto simp: complete_for_def simp del: rx_all.simps)
next
  case (Grp n r)
  then have c: "complete_for (rx_lang r) (rx_all b r)" by simp
  have "\<exists>g'. (v, g') \<in> set (rx_all b (Grp n r) (u @ v, g))" if u: "u \<in> rx_lang r" for u v g
    using complete_forD [OF c u, of v g] by force
  then show ?case by (simp add: complete_for_def del: rx_all.simps)
qed (auto simp: complete_for_def)

lemma regex_match_lang:
  assumes "anchor_free r"
  shows "regex_match s r \<longleftrightarrow> s \<in> rx_lang r"
proof
  assume "regex_match s r"
  then obtain t where t: "t \<in> set (rx_all (Some (length s)) r (s, Map.empty))" "fst t = []"
    unfolding regex_match_def list_ex_iff by blast
  from rx_all_sound [OF t(1)] t(2) show "s \<in> rx_lang r" by (auto simp: consumes_def)
next
  assume "s \<in> rx_lang r"
  then obtain g' where "([], g') \<in> set (rx_all (Some (length s)) r (s @ [], Map.empty))"
    using rx_all_complete [OF assms] unfolding complete_for_def by blast
  then show "regex_match s r" unfolding regex_match_def list_ex_iff append_Nil2
    by (metis fst_conv)
qed

lemma regex_match_anchored:
  assumes "anchor_free r"
  shows "regex_match s (Seq Bol (Seq r Eol)) \<longleftrightarrow> s \<in> rx_lang r"
proof -
  have "regex_match s (Seq Bol (Seq r Eol)) \<longleftrightarrow> regex_match s r"
    by (auto simp: regex_match_def list_ex_iff) (metis fst_conv)
  with regex_match_lang [OF assms] show ?thesis by simp
qed

text \<open>A step of the parser with a pattern that is anchored at the start.\<close>

lemma parser_next_anchored:
  fixes p :: regex_parser
  assumes free: "anchor_free r"
  defines "res \<equiv> parser_next (Seq Bol r) p"
  shows "fst res \<longleftrightarrow> rp_next_input p \<noteq> [] \<and> (\<exists>u \<in> rx_lang r. prefix u (rp_next_input p))"
    and "fst res \<Longrightarrow> \<exists>u \<in> rx_lang r. rp_next_input p = u @ rp_next_input (snd res) \<and> parser_read 0 (snd res) = Some u
      \<and> parser_suffix (snd res) = rp_next_input (snd res) \<and> rp_iter (snd res) = 0"
    and "\<not> fst res \<Longrightarrow> rp_next_input (snd res) = rp_next_input p
      \<and> (if rp_next_input p = [] then snd res = p else rp_iter (snd res) = - 1)"
proof -
  let ?s = "rp_next_input p"
  let ?ts = "rx_all (Some (length ?s)) r (?s, Map.empty)"
  have none: "?ts = [] \<longleftrightarrow> \<not> (\<exists>u \<in> rx_lang r. prefix u ?s)"
  proof
    assume empty: "?ts = []"
    show "\<not> (\<exists>u \<in> rx_lang r. prefix u ?s)"
    proof
      assume "\<exists>u \<in> rx_lang r. prefix u ?s"
      then obtain u v where u: "u \<in> rx_lang r" "?s = u @ v" by (auto simp: prefix_def)
      have "\<exists>g'. (v, g') \<in> set (rx_all (Some (length ?s)) r (u @ v, Map.empty))"
        using rx_all_complete [OF free] u(1) unfolding complete_for_def by blast
      with empty u(2) show False by simp
    qed
  next
    assume no: "\<not> (\<exists>u \<in> rx_lang r. prefix u ?s)"
    show "?ts = []"
    proof (rule ccontr)
      assume "?ts \<noteq> []"
      then have "hd ?ts \<in> set ?ts" by (rule hd_in_set)
      from rx_all_sound [OF this] obtain u where "u \<in> rx_lang r" "?s = u @ fst (hd ?ts)"
        unfolding consumes_def fst_conv by blast
      with no prefixI show False by blast
    qed
  qed
  have hit: "\<exists>u \<in> rx_lang r. ?s = u @ fst t" if "?ts = t # ts" for t ts
    using rx_all_sound [of t "Some (length ?s)" r "(?s, Map.empty)"] that unfolding consumes_def fst_conv by simp
  show "fst res \<longleftrightarrow> ?s \<noteq> [] \<and> (\<exists>u \<in> rx_lang r. prefix u ?s)"
    unfolding res_def using none by (auto simp: parser_next_def regex_search_Bol Let_def split: list.splits)
  show "\<exists>u \<in> rx_lang r. ?s = u @ rp_next_input (snd res) \<and> parser_read 0 (snd res) = Some u
      \<and> parser_suffix (snd res) = rp_next_input (snd res) \<and> rp_iter (snd res) = 0" if found: "fst res"
  proof -
    have "?s \<noteq> []" "?ts \<noteq> []" using found unfolding res_def by (auto simp: parser_next_def regex_search_Bol Let_def split: if_splits)
    then obtain t ts where t: "?ts = t # ts" by (cases ?ts) auto
    obtain u where u: "u \<in> rx_lang r" "?s = u @ fst t" using hit [OF t] by blast
    have cut: "take (length ?s - length (fst t)) ?s = u" using u(2) by simp
    have "regex_search ?s (Seq Bol r) = Some \<lparr>sm_prefix = [], sm_str = u, sm_suffix = fst t, sm_caps = snd t, sm_size = Suc (rx_groups r)\<rparr>"
      unfolding regex_search_Bol t list.case cut by (rule refl)
    then have "res = (True, p\<lparr>rp_input := ?s, rp_iter := 0, rp_next_input := fst t, rp_match := \<lparr>sm_prefix = [], sm_str = u,
        sm_suffix = fst t, sm_caps = snd t, sm_size = Suc (rx_groups r)\<rparr>\<rparr>)"
      using \<open>?s \<noteq> []\<close> unfolding res_def by (simp add: parser_next_def)
    then show ?thesis using u by (auto simp: parser_read_def smatch_element_def parser_suffix_def)
  qed
  show "rp_next_input (snd res) = ?s \<and> (if ?s = [] then snd res = p else rp_iter (snd res) = - 1)" if "\<not> fst res"
    using that unfolding res_def
    by (cases "?s = []"; cases "regex_search ?s (Seq Bol r)") (auto simp: parser_next_def)
qed

subsection \<open>The shapes of names\<close>

lemma length_concat_singletons:
  "set us \<subseteq> {[c] |c. P c} \<Longrightarrow> length (concat us) = length us \<and> list_all P (concat us)"
  by (induction us) auto

lemma lang_Rep_Cls: "s \<in> rx_lang (Rep (Cls P) lo hi) \<longleftrightarrow> repeats lo hi (length s) \<and> list_all P s"
proof
  assume "s \<in> rx_lang (Rep (Cls P) lo hi)"
  then show "repeats lo hi (length s) \<and> list_all P s" using length_concat_singletons by fastforce
next
  assume *: "repeats lo hi (length s) \<and> list_all P s"
  have "s = concat (map (\<lambda>c. [c]) s)" by (induction s) auto
  moreover have "set (map (\<lambda>c. [c]) s) \<subseteq> rx_lang (Cls P)" using * by (auto simp: list_all_iff)
  ultimately show "s \<in> rx_lang (Rep (Cls P) lo hi)"
    using * unfolding rx_lang.simps(5) by (intro CollectI exI [of _ "map (\<lambda>c. [c]) s"]) simp
qed

lemma room_name_shape:
  "regex_match s rx_room_name \<longleftrightarrow>
     (\<exists>t. s = CHR ''#'' # t \<and> 3 \<le> length t \<and> length t \<le> 24 \<and> list_all room_name_char t)"
proof -
  have "regex_match s rx_room_name \<longleftrightarrow> s \<in> rx_lang rx_room_name"
    by (rule regex_match_lang) (simp add: rx_room_name_def rx_char_def)
  also have "\<dots> \<longleftrightarrow> (\<exists>t. s = CHR ''#'' # t \<and> t \<in> rx_lang (Rep (Cls room_name_char) 3 (Some 24)))"
    by (auto simp: rx_room_name_def rx_char_def simp del: rx_lang.simps(5))
  finally show ?thesis by (simp add: lang_Rep_Cls repeats_def del: rx_lang.simps(5))
qed

lemma lang_rx_string: "rx_lang (rx_string s) = {s}"
  by (induction s) (auto simp: rx_char_def)

lemma anchor_free_rx_string: "anchor_free (rx_string s)"
  by (induction s) (auto simp: rx_char_def)

lemma lang_rx_alts: "rx_lang (rx_alts (map rx_string ss)) = set ss"
  by (induction ss rule: induct_list012) (auto simp: lang_rx_string)

lemma anchor_free_rx_alts: "anchor_free (rx_alts (map rx_string ss))"
  by (induction ss rule: induct_list012) (auto simp: anchor_free_rx_string)

text \<open>A character of a nick: an ASCII one, or a Russian letter in UTF-8.\<close>

definition nick_letter :: "string \<Rightarrow> bool" where
  "nick_letter u \<longleftrightarrow> (\<exists>c. u = [c] \<and> login_char c) \<or> u \<in> set russian_low \<or> u \<in> set russian_up"

lemma nick_shape:
  "regex_match s r_login \<longleftrightarrow>
     (\<exists>us. s = concat us \<and> 1 \<le> length us \<and> length us \<le> 24 \<and> list_all nick_letter us)"
proof -
  let ?r = "Grp 1 (Alt (Cls login_char) any_russian)"
  have letters: "rx_lang ?r = {u. nick_letter u}"
    by (auto simp: any_russian_def lang_rx_alts nick_letter_def)
  have free: "anchor_free (Rep ?r 1 (Some 24))"
    by (simp add: any_russian_def anchor_free_rx_alts)
  have "regex_match s r_login \<longleftrightarrow> s \<in> rx_lang (Rep ?r 1 (Some 24))"
    unfolding r_login_def by (rule regex_match_anchored [OF free])
  also have "\<dots> \<longleftrightarrow> (\<exists>us. s = concat us \<and> 1 \<le> length us \<and> length us \<le> 24 \<and> list_all nick_letter us)"
    unfolding rx_lang.simps(5) letters by (auto simp: repeats_def list_all_iff)
  finally show ?thesis .
qed

end
