(* ===== verification/CommandEffects.thy ===== *)
theory CommandEffects
  imports CommandSpecs Languages
begin

text \<open>
  The effects of single commands: nicks, private messages, bans and kicks, and the limits
  on the lists of a room.
\<close>

lemma member_sendPacket_eq:
  "member_sendPacket E m p w =
     w\<lparr>w_out := w_out w @ delivery w (m_client (w_member w m)) (wire E p)\<rparr>"
  by (simp add: member_sendPacket_def client_sendPacket_def server_sendPacket_def delivery_def
      split: option.split)

lemma member_sendPacket_sel [simp]:
  "w_client (member_sendPacket E m p w) = w_client w"
  "w_member (member_sendPacket E m p w) = w_member w"
  "w_room (member_sendPacket E m p w) = w_room w"
  "w_rooms (member_sendPacket E m p w) = w_rooms w"
  "w_clients (member_sendPacket E m p w) = w_clients w"
  "w_now (member_sendPacket E m p w) = w_now w"
  by (simp_all add: member_sendPacket_eq)

lemma reply_sel [simp]:
  "w_client (reply E m msg w) = w_client w"
  "w_member (reply E m msg w) = w_member w"
  "w_room (reply E m msg w) = w_room w"
  "w_rooms (reply E m msg w) = w_rooms w"
  "w_clients (reply E m msg w) = w_clients w"
  by (simp_all add: reply_def)

subsection \<open>Nicks\<close>

definition valid_nick :: "string \<Rightarrow> bool" where
  "valid_nick n \<longleftrightarrow>
     (\<exists>us. n = concat us \<and> 1 \<le> length us \<and> length us \<le> 24 \<and> list_all nick_letter us)"

definition may_take_nick :: "'x world \<Rightarrow> member_ptr \<Rightarrow> string \<Rightarrow> bool" where
  "may_take_nick w m n \<longleftrightarrow>
     (n = [] \<or> valid_nick n \<and>
        (\<forall>k \<in> set (r_members (w_room w (m_room (w_member w m)))). m_nick (w_member w k) \<noteq> n)) \<and>
     (member_isModer w m \<or> n \<notin> set (r_bannedNicks (w_room w (m_room (w_member w m)))))"

lemma setNick_member:
  "w_member (member_setNick E m n w) =
     (if m_nick (w_member w m) = n \<or> member_isModer w m
         \<or> n \<notin> set (r_bannedNicks (w_room w (m_room (w_member w m))))
      then (w_member w)(m := (w_member w m)\<lparr>m_nick := n\<rparr>) else w_member w)"
  by (auto simp: member_setNick_def room_isBannedNick_def Let_def)

lemma nick_command_member:
  "w_member (cmd_nick_process E m p w) =
     (let n = clean_nick (parser_suffix p)
      in if may_take_nick w m n then (w_member w)(m := (w_member w m)\<lparr>m_nick := n\<rparr>) else w_member w)"
proof -
  let ?r = "m_room (w_member w m)" and ?n = "clean_nick (parser_suffix p)"
  have free: "findMemberByNick w ?r n = None \<longleftrightarrow>
      n = [] \<or> (\<forall>k \<in> set (r_members (w_room w ?r)). m_nick (w_member w k) \<noteq> n)" for n
    by (auto simp: findMemberByNick_def find_None_iff)
  have same: "(w_member w)(m := (w_member w m)\<lparr>m_nick := n\<rparr>) = w_member w" if "m_nick (w_member w m) = n" for n
    using that by (auto simp: fun_eq_iff)
  show ?thesis
  proof (cases "m_nick (w_member w m) = ?n")
    case True
    have "w_member (member_setNick E m ?n w) = w_member w"
      unfolding setNick_member same [OF True] by simp
    then have "w_member (cmd_nick_process E m p w) = w_member w"
      unfolding cmd_nick_process_def Let_def by (simp only: if_distrib [of w_member] reply_sel if_cancel)
    then show ?thesis unfolding Let_def same [OF True] by simp
  next
    case False
    then show ?thesis
      unfolding cmd_nick_process_def Let_def may_take_nick_def nick_shape valid_nick_def
      by (cases "?n = []") (auto simp: setNick_member free)
  qed
qed

subsection \<open>Private messages\<close>

definition private_delivery :: "('j, 'x) env \<Rightarrow> member_ptr \<Rightarrow> member_ptr \<Rightarrow> string \<Rightarrow> 'x world \<Rightarrow> 'x world" where
  "private_delivery E m k txt w =
     (let d = wire E (Packet_Message (private_packet w m k txt))
      in w\<lparr>w_out := w_out w @ delivery w (m_client (w_member w m)) d @ delivery w (m_client (w_member w k)) d\<rparr>)"

lemma send_private_eq: "send_private E m k txt w = private_delivery E m k txt w"
  by (simp add: send_private_def private_delivery_def member_sendPacket_eq Let_def delivery_def)

lemma blank_after_word: "list_all is_space (after_word s) \<longleftrightarrow> after_word s = []"
  using after_word_hd [of s] by (cases "after_word s") auto

lemma parser_two_words:
  assumes "rp_next_input p = s" and "s = [] \<or> \<not> is_space (hd s)"
  defines "p1 \<equiv> snd (parser_next r_to_space p)"
  shows "(if fst (parser_next r_spaces p1) then parser_suffix (snd (parser_next r_spaces p1)) else [])
     = after_word s"
proof -
  let ?t = "dropWhile (\<lambda>c. \<not> is_space c) s"
  have t: "?t = [] \<or> is_space (hd ?t)" using dropWhile_hd [of "\<lambda>c. \<not> is_space c" s] by simp
  have p1: "rp_next_input p1 = ?t" unfolding p1_def by (rule parser_next_word(3) [OF assms(1,2)])
  show ?thesis
    using parser_next_spaces(1,2) [OF p1 t] by (cases "?t = []") (simp_all add: after_word_def del: dropWhile_eq_Nil_conv)
qed

lemma msg_command:
  assumes args: "at_arguments s p" and s: "s = [] \<or> \<not> is_space (hd s)"
  shows "cmd_msg_process E m p w =
     (if after_word s = [] then reply E m txt_no_text w
      else case findMemberByNick w (m_room (w_member w m)) (first_word s) of
             None \<Rightarrow> reply E m txt_msg_no_user w
           | Some k \<Rightarrow> private_delivery E m k (after_word s) w)"
proof -
  have input: "rp_next_input p = s" using args by (simp add: at_arguments_def)
  note words = parser_two_words [OF input s]
  have nick: "(if fst (parser_next r_to_space p) then read_string [] (snd (parser_next r_to_space p)) else [])
      = first_word s"
    using parser_next_word(1,2) [OF input s] by (cases "s = []") (simp_all add: read_string_def first_word_def)
  show ?thesis
    unfolding cmd_msg_process_def Let_def case_prod_unfold words nick
      rx_blank_def regex_match_star_Cls blank_after_word send_private_eq ..
qed

subsection \<open>Numbers as arguments\<close>

lemma parser_next_int:
  assumes "rp_next_input p = s" and "s \<noteq> []" and "is_digit (hd s)"
  shows "fst (parser_next r_int p)"
    and "read_uint v (snd (parser_next r_int p)) = istream_uint (takeWhile is_digit s)"
  using assms
  by (auto simp: parser_next_def r_int_def regex_search_Bol_plus_Cls parser_read_def read_uint_def
      smatch_element_def Let_def)

lemma parser_next_u32:
  assumes "rp_next_input p = show_u32 u @ rest" and "rest = [] \<or> \<not> is_digit (hd rest)"
  shows "fst (parser_next r_int p)" and "read_uint v (snd (parser_next r_int p)) = u"
proof -
  let ?s = "show_u32 u @ rest"
  have digits: "list_all is_digit (show_u32 u)" using read_digits_show_nat [of "unat u"] by (simp add: show_u32_def)
  have ne: "show_u32 u \<noteq> []" by (simp add: show_u32_def)
  then have hd: "?s \<noteq> []" "is_digit (hd ?s)" using digits by (cases "show_u32 u"; simp)+
  have "takeWhile is_digit ?s = show_u32 u"
    using digits assms(2) by (cases rest) (auto simp: list_all_iff takeWhile_append2)
  with parser_next_int [OF assms(1) hd]
  show "fst (parser_next r_int p)" and "read_uint v (snd (parser_next r_int p)) = u"
    by (simp_all add: istream_uint_show_u32)
qed

lemma on_room_set_sel [simp]:
  "w_client (on_room_set E m f yes no w) = w_client w"
  "w_member (on_room_set E m f yes no w) = w_member w"
  "w_room (on_room_set E m f yes no w) = (w_room w)(m_room (w_member w m) :=
     snd (f (w_room w (m_room (w_member w m)))))"
  by (simp_all add: on_room_set_def Let_def)

lemma banuid_effect:
  assumes "at_arguments (show_u32 u @ rest) p" and "rest = [] \<or> \<not> is_digit (hd rest)"
    and "member_isAdmin w m \<or> length (r_bannedUids (w_room w (m_room (w_member w m)))) \<le> ban_limit"
  shows "cmd_banuid_process E m p w = on_room_set E m (room_banUid u) txt_uid_now_banned txt_uid_was_banned w"
proof -
  have "rp_next_input p = show_u32 u @ rest" using assms(1) by (simp add: at_arguments_def)
  from parser_next_u32 [OF this assms(2)] assms(3) show ?thesis
    by (auto simp: cmd_banuid_process_def Let_def case_prod_unfold)
qed

subsection \<open>Commands stay in their room, and its lists stay bounded\<close>

definition room_lists :: "room \<Rightarrow> string \<times> u32 \<times> string list \<times> string list \<times> u32 list \<times> u32 list" where
  "room_lists rm = (r_name rm, r_ownerId rm, r_bannedNicks rm, r_bannedIps rm, r_bannedUids rm, r_moderators rm)"

definition bounded_growth :: "nat \<Rightarrow> 'a list \<Rightarrow> 'a list \<Rightarrow> bool" where
  "bounded_growth lim xs ys \<longleftrightarrow> length ys \<le> max (length xs) (Suc lim)"

lemma bounded_growth_refl [simp]: "bounded_growth lim xs xs"
  by (simp add: bounded_growth_def)

definition confined :: "'x world \<Rightarrow> member_ptr \<Rightarrow> 'x world \<Rightarrow> bool" where
  "confined w m w' \<longleftrightarrow>
     (let r = m_room (w_member w m); old = w_room w r; new = w_room w' r
      in w_rooms w' = w_rooms w \<and> (\<forall>q. q \<noteq> r \<longrightarrow> w_room w' q = w_room w q) \<and>
         r_name new = r_name old \<and> r_ownerId new = r_ownerId old \<and>
         (\<not> member_isAdmin w m \<longrightarrow>
            bounded_growth ban_limit (r_bannedNicks old) (r_bannedNicks new) \<and>
            bounded_growth ban_limit (r_bannedIps old) (r_bannedIps new) \<and>
            bounded_growth ban_limit (r_bannedUids old) (r_bannedUids new) \<and>
            bounded_growth moder_limit (r_moderators old) (r_moderators new)))"

lemma confined_same:
  assumes "w_rooms w' = w_rooms w" and "\<And>q. q \<noteq> m_room (w_member w m) \<Longrightarrow> w_room w' q = w_room w q"
    and "room_lists (w_room w' (m_room (w_member w m))) = room_lists (w_room w (m_room (w_member w m)))"
  shows "confined w m w'"
  using assms by (simp add: confined_def room_lists_def)

lemma sendPacketToAll_other_room: "q \<noteq> r \<Longrightarrow> w_room (sendPacketToAll E r p w) q = w_room w q"
  by (auto simp: sendPacketToAll_eq addToHistory_def split: packet.split)

lemma room_lists_broadcast: "room_lists (w_room (sendPacketToAll E r p w) q) = room_lists (w_room w q)"
  by (simp add: room_lists_def)

lemma confined_reply: "confined w m (reply E m msg w)"
  by (rule confined_same) simp_all

lemma confined_announce:
  assumes "w_room w1 = w_room w" and "w_rooms w1 = w_rooms w"
    and "m_room (w_member w1 m) = m_room (w_member w m)"
  shows "confined w m (announce E m stat w1)"
  by (rule confined_same) (simp_all add: announce_def assms sendPacketToAll_other_room room_lists_broadcast)

lemma confined_setNick: "confined w m (member_setNick E m nick w)"
  by (rule confined_same)
    (simp_all add: member_setNick_def Let_def sendPacketToAll_other_room room_lists_broadcast)

lemma room_lists_newMessageId: "room_lists (snd (room_newMessageId rm)) = room_lists rm"
  by (simp add: room_lists_def room_newMessageId_def)

lemma confined_styled: "confined w m (cmd_styled_process E sty m p w)"
  by (rule confined_same)
    (simp_all add: cmd_styled_process_def Let_def case_prod_unfold sendPacketToAll_other_room
      room_lists_broadcast room_lists_newMessageId)

lemma confined_send_private: "confined w m (send_private E m k txt w)"
  by (rule confined_same) (simp_all add: send_private_def Let_def)

lemma kickMember_room:
  "w_rooms (room_kickMember E r k w) = w_rooms w"
  "q \<noteq> r \<Longrightarrow> w_room (room_kickMember E r k w) q = w_room w q"
  "room_lists (w_room (room_kickMember E r k w) r) = room_lists (w_room w r)"
  by (simp_all add: room_kickMember_def room_eraseMember_def Let_def sendPacketToAll_other_room)
    (simp_all add: room_lists_def)

lemma confined_kick: "confined w m (room_kickMember E (m_room (w_member w m)) k w)"
  by (rule confined_same) (simp_all add: kickMember_room)

lemma confined_after_reply:
  assumes "confined w m w1"
  shows "confined w m (reply E k msg w1)"
  using assms by (simp add: confined_def)

lemma confined_on_room_set:
  assumes "r_name (snd (f rm)) = r_name rm" and "r_ownerId (snd (f rm)) = r_ownerId rm"
    and "\<not> member_isAdmin w m \<Longrightarrow> bounded_growth ban_limit (r_bannedNicks rm) (r_bannedNicks (snd (f rm)))
      \<and> bounded_growth ban_limit (r_bannedIps rm) (r_bannedIps (snd (f rm)))
      \<and> bounded_growth ban_limit (r_bannedUids rm) (r_bannedUids (snd (f rm)))
      \<and> bounded_growth moder_limit (r_moderators rm) (r_moderators (snd (f rm)))"
    and rm: "rm = w_room w (m_room (w_member w m))"
  shows "confined w m (on_room_set E m f yes no w)"
proof -
  have "w_rooms (on_room_set E m f yes no w) = w_rooms w" by (simp add: on_room_set_def Let_def)
  with assms show ?thesis by (simp add: confined_def)
qed

lemma bounded_insert: "length xs \<le> lim \<Longrightarrow> bounded_growth lim xs (uset_insert x xs)"
  by (simp add: bounded_growth_def uset_insert_def)

lemma bounded_erase: "bounded_growth lim xs (uset_erase x xs)"
  unfolding bounded_growth_def uset_erase_def by (rule le_trans [OF length_filter_le max.cobounded1])

lemmas room_set_defs = room_banNick_def room_banIp_def room_banUid_def room_unbanNick_def
  room_unbanIp_def room_unbanUid_def room_addModerator_def room_removeModerator_def

lemma confined_bannick: "confined w m (cmd_bannick_process E m p w)"
proof -
  let ?r = "m_room (w_member w m)" and ?nick = "parser_suffix p"
  let ?w1 = "upd_room ?r (\<lambda>rm. snd (room_banNick ?nick rm)) w"
  have ban: "confined w m ?w1" if "member_isAdmin w m \<or> length (r_bannedNicks (w_room w ?r)) \<le> ban_limit"
    using that by (auto simp: confined_def room_banNick_def bounded_insert)
  have kick: "confined w m (room_kickMember E ?r k ?w1)" if "confined w m ?w1" for k
    using that kickMember_room [where E = E and r = ?r and k = k and w = ?w1] by (auto simp: confined_def Let_def room_lists_def)
  show ?thesis
    using ban kick
    by (auto simp: cmd_bannick_process_def Let_def not_less
        intro!: confined_after_reply confined_reply split: option.split)
qed

lemma confined_set_ops:
  "confined w m (on_room_set E m (room_unbanNick nick) yes no w)"
  "confined w m (on_room_set E m (room_unbanIp ip) yes no w)"
  "confined w m (on_room_set E m (room_unbanUid uid) yes no w)"
  "confined w m (on_room_set E m (room_removeModerator uid) yes no w)"
  "member_isAdmin w m \<or> length (r_bannedIps (w_room w (m_room (w_member w m)))) \<le> ban_limit \<Longrightarrow>
     confined w m (on_room_set E m (room_banIp ip) yes no w)"
  "member_isAdmin w m \<or> length (r_bannedUids (w_room w (m_room (w_member w m)))) \<le> ban_limit \<Longrightarrow>
     confined w m (on_room_set E m (room_banUid uid) yes no w)"
  "member_isAdmin w m \<or> length (r_moderators (w_room w (m_room (w_member w m)))) \<le> moder_limit \<Longrightarrow>
     confined w m (on_room_set E m (room_addModerator uid) yes no w)"
  by (rule confined_on_room_set [OF _ _ _ refl];
      auto simp: room_set_defs bounded_insert bounded_erase)+

lemmas confined_intros = confined_reply confined_announce confined_setNick confined_styled
  confined_send_private confined_kick confined_bannick confined_set_ops

lemma confined_gender: "confined w m (cmd_gender_process E m p w)"
  unfolding cmd_gender_process_def Let_def case_prod_unfold
  by (rule confined_announce) (simp_all add: member_setGirl_def)

lemma confined_color: "confined w m (cmd_color_process E m p w)"
  by (auto simp: cmd_color_process_def Let_def case_prod_unfold member_setColor_def
      intro!: confined_reply confined_announce)

lemma confined_nick: "confined w m (cmd_nick_process E m p w)"
  by (simp add: cmd_nick_process_def Let_def confined_reply confined_setNick)

lemma confined_msg: "confined w m (cmd_msg_process E m p w)" "confined w m (cmd_umsg_process E m p w)"
  by (auto simp: cmd_msg_process_def cmd_umsg_process_def Let_def case_prod_unfold confined_reply
      confined_send_private split: option.split)

lemma confined_bans:
  "confined w m (cmd_banuid_process E m p w)" "confined w m (cmd_banip_process E m p w)"
  "confined w m (cmd_unbannick_process E m p w)" "confined w m (cmd_unbanuid_process E m p w)"
  "confined w m (cmd_unbanip_process E m p w)" "confined w m (cmd_addmoder_process E m p w)"
  "confined w m (cmd_delmoder_process E m p w)"
  by (auto simp: cmd_banuid_process_def cmd_banip_process_def cmd_unbannick_process_def
      cmd_unbanuid_process_def cmd_unbanip_process_def cmd_addmoder_process_def
      cmd_delmoder_process_def member_isAdmin_def [symmetric] Let_def case_prod_unfold not_less
      intro: confined_reply confined_set_ops)

lemma confined_kick_command: "confined w m (cmd_kick_process E m p w)"
  by (simp add: cmd_kick_process_def Let_def confined_reply confined_kick split: option.split)

lemma confined_lists:
  "confined w m (cmd_help_process E m w)" "confined w m (cmd_moderlist_process E m w)"
  "confined w m (cmd_banlist_process E m w)" "confined w m (cmd_myrooms_process E m w)"
  "confined w m (cmd_userlist_process E m w)" "confined w m (cmd_roomlist_process E m w)"
  "confined w m (cmd_ipcounter_process E m w)"
  by (simp_all only: cmd_help_process_def cmd_moderlist_process_def cmd_banlist_process_def
      cmd_myrooms_process_def cmd_userlist_process_def cmd_roomlist_process_def
      cmd_ipcounter_process_def Let_def confined_reply)

lemma command_confined: "confined w m (command_process E c m p w)"
  by (cases c) (simp_all add: confined_styled confined_bannick confined_gender confined_color
      confined_nick confined_msg confined_bans confined_kick_command confined_lists)

subsection \<open>Bans and kicks take effect\<close>

lemma kickMember_members:
  "w_member (room_kickMember E r k w) = w_member w"
  "r_members (w_room (room_kickMember E r k w) r) = uset_erase k (r_members (w_room w r))"
  "c_rooms (w_client (room_kickMember E r k w) d) =
     (if d = m_client (w_member w k) then uset_erase r (c_rooms (w_client w d)) else c_rooms (w_client w d))"
  by (simp_all add: room_kickMember_def room_eraseMember_def client_onKick_def Let_def)

lemma kick_command:
  assumes "findMemberByNick w (m_room (w_member w m)) (parser_suffix p) = Some k"
  shows "cmd_kick_process E m p w = room_kickMember E (m_room (w_member w m)) k w"
  by (simp add: cmd_kick_process_def assms Let_def)

lemma bannick_effect:
  fixes E :: "('j, 'x) env"
  assumes nicks: "nicks_ok w" and nick: "nick = parser_suffix p" "nick \<noteq> []" "length nick \<le> 24"
    and limit: "member_isAdmin w m \<or> length (r_bannedNicks (w_room w (m_room (w_member w m)))) \<le> ban_limit"
    and new: "nick \<notin> set (r_bannedNicks (w_room w (m_room (w_member w m))))"
  defines "r \<equiv> m_room (w_member w m)" and "w' \<equiv> cmd_bannick_process E m p w"
  shows "nick \<in> set (r_bannedNicks (w_room w' r))"
    and "k \<in> set (r_members (w_room w' r)) \<Longrightarrow> m_nick (w_member w' k) \<noteq> nick"
proof -
  let ?w1 = "upd_room r (\<lambda>rm. snd (room_banNick nick rm)) w"
  let ?w2 = "case findMemberByNick ?w1 r nick of None \<Rightarrow> ?w1 | Some j \<Rightarrow> room_kickMember E r j ?w1"
  have w': "w' = reply E m txt_nick_now_banned ?w2"
    unfolding w'_def cmd_bannick_process_def Let_def nick(1) [symmetric] r_def [symmetric]
    using limit new nick(2,3) nick_bans.fst_ins [of nick "w_room w r"]
    by (auto simp: room_isBannedNick_def r_def [symmetric])
  have lists: "room_lists (w_room ?w2 r) = room_lists (w_room ?w1 r)"
    by (simp add: kickMember_room split: option.split)
  then show "nick \<in> set (r_bannedNicks (w_room w' r))"
    by (simp add: w' room_lists_def room_banNick_def)
  assume k: "k \<in> set (r_members (w_room w' r))"
  have mems: "r_members (w_room ?w1 r) = r_members (w_room w r)" by (simp add: room_banNick_def)
  have find: "findMemberByNick ?w1 r nick = findMemberByNick w r nick"
    by (simp add: findMemberByNick_def room_banNick_def)
  have same: "w_member w' = w_member w" by (simp add: w' kickMember_members split: option.split)
  show "m_nick (w_member w' k) \<noteq> nick"
  proof (cases "findMemberByNick w r nick")
    case None
    then have "k \<in> set (r_members (w_room w r))" using k mems by (simp add: w' find)
    with findMemberByNick_None [OF None] nick(2) same show ?thesis by auto
  next
    case (Some j)
    then have "k \<in> set (r_members (w_room w r))" "k \<noteq> j"
      using k mems by (simp_all add: w' find kickMember_members)
    with findMemberByNick_Some [OF Some] nicks_okD [OF nicks, of j r k] same show ?thesis by auto
  qed
qed

lemma banuid_refuses:
  assumes ok: "members_ok w" and args: "at_arguments (show_u32 u @ rest) p"
    and rest: "rest = [] \<or> \<not> is_digit (hd rest)"
    and limit: "member_isAdmin w m \<or> length (r_bannedUids (w_room w (m_room (w_member w m)))) \<le> ban_limit"
  defines "r \<equiv> m_room (w_member w m)"
  assumes c: "c_uid (w_client w c) = u" "\<not> privileged w r c"
    and join: "client_joinRoom c r (cmd_banuid_process E m p w) = Inr (res, w')"
  shows "\<exists>e. res = Inl e"
proof -
  let ?w1 = "cmd_banuid_process E m p w"
  note eff = banuid_effect [OF args rest limit, of E]
  have "view ?w1 = view w"
    by (simp add: eff on_room_set_def view_simps Let_def)
  then have ok1: "members_ok ?w1" using members_ok_cong ok by blast
  have "w_client ?w1 = w_client w" "u \<in> set (r_bannedUids (w_room ?w1 r))"
      "privileged ?w1 r c = privileged w r c"
    by (simp_all add: eff r_def [symmetric] room_banUid_def privileged_def Let_def)
  with client_joinRoom_verdict [OF ok1 join] c show ?thesis by auto
qed

subsection \<open>Command lines\<close>

lemma command_line_words:
  assumes "list_all (\<lambda>c. \<not> is_space c) nm" and "nm \<noteq> []"
  shows "first_word (nm @ CHR '' '' # args) = nm" and "after_word (nm @ CHR '' '' # args) = dropWhile is_space args"
  using assms by (simp_all add: first_word_def after_word_def list_all_iff takeWhile_append2 dropWhile_append2 is_space_def)

text \<open>A member who may use a command runs it with the arguments it has typed.\<close>

lemma run_command:
  assumes "list_all (\<lambda>c. \<not> is_space c) nm" and "nm \<noteq> []" and "command_named nm = Some c"
    and "holds_right w m (required c)"
  shows "\<exists>p. at_arguments (dropWhile is_space args) p \<and>
    processCommand E m r (CHR ''/'' # nm @ CHR '' '' # args) w = Some (command_process E c m p w)"
proof -
  let ?s = "nm @ CHR '' '' # args"
  note words = command_line_words [OF assms(1,2), of args]
  have "at_arguments (dropWhile is_space args) (command_parser (CHR ''/'' # ?s))"
    using processCommand_words(2) [OF refl, of ?s] words assms(2) by simp
  moreover have "processCommand E m r (CHR ''/'' # ?s) w = Some (command_process E c m (command_parser (CHR ''/'' # ?s)) w)"
    using processCommand_words(1) [OF refl, of E m r ?s w] words assms(3,4) by (simp add: Let_def)
  ultimately show ?thesis by blast
qed

lemma dropWhile_space_hd: "dropWhile is_space s = [] \<or> \<not> is_space (hd (dropWhile is_space s))"
  by (rule dropWhile_hd)

lemma private_message_line:
  fixes args :: string
  assumes "member_hasNick w m"
  defines "s \<equiv> dropWhile is_space args"
  shows "processCommand E m r (''/msg '' @ args) w = Some
     (if after_word s = [] then reply E m txt_no_text w
      else case findMemberByNick w (m_room (w_member w m)) (first_word s) of
             None \<Rightarrow> reply E m txt_msg_no_user w
           | Some k \<Rightarrow> private_delivery E m k (after_word s) w)"
proof -
  have "command_named ''msg'' = Some CommandPrivateMessage"
    by (simp add: command_named_def all_commands_def command_lists)
  then obtain p where "at_arguments s p"
    "processCommand E m r (CHR ''/'' # ''msg'' @ CHR '' '' # args) w = Some (cmd_msg_process E m p w)"
    using run_command [of "''msg''" CommandPrivateMessage w m args E r] assms
    by (auto simp: s_def is_space_def)
  moreover have "s = [] \<or> \<not> is_space (hd s)" unfolding s_def by (rule dropWhile_space_hd)
  ultimately show ?thesis using msg_command [of s p E m w] by simp
qed

lemma bannick_line:
  assumes nicks: "nicks_ok w" and moder: "member_isModer w m"
    and nick: "nick \<noteq> []" "\<not> is_space (hd nick)" "length nick \<le> 24"
    and limit: "member_isAdmin w m \<or> length (r_bannedNicks (w_room w (m_room (w_member w m)))) \<le> 100"
    and new: "nick \<notin> set (r_bannedNicks (w_room w (m_room (w_member w m))))"
  shows "\<exists>w'. processCommand E m r (''/bannick '' @ nick) w = Some w'
    \<and> nick \<in> set (r_bannedNicks (w_room w' (m_room (w_member w m))))
    \<and> (\<forall>k \<in> set (r_members (w_room w' (m_room (w_member w m)))). m_nick (w_member w' k) \<noteq> nick)"
proof -
  have "command_named ''bannick'' = Some CommandBanNick"
    by (simp add: command_named_def all_commands_def command_lists)
  then obtain p where p: "at_arguments (dropWhile is_space nick) p"
    "processCommand E m r (CHR ''/'' # ''bannick'' @ CHR '' '' # nick) w = Some (cmd_bannick_process E m p w)"
    using run_command [of "''bannick''" CommandBanNick w m nick E r] moder by (auto simp: is_space_def)
  have suffix: "nick = parser_suffix p" using p(1) nick(1,2) by (cases nick) (auto simp: at_arguments_def)
  from bannick_effect [OF nicks suffix nick(1,3) _ new, where E = E] limit p(2) show ?thesis
    by (auto simp: ban_limit_def)
qed

lemma digit_string: "list_all is_digit (show_u32 u)" "show_u32 u \<noteq> []"
  using read_digits_show_nat [of "unat u"] by (simp_all add: show_u32_def)

lemma banuid_line:
  assumes ok: "members_ok w" and moder: "member_isModer w m"
    and limit: "member_isAdmin w m \<or> length (r_bannedUids (w_room w (m_room (w_member w m)))) \<le> 100"
    and c: "c_uid (w_client w c) = u" "\<not> privileged w (m_room (w_member w m)) c"
  shows "\<exists>w1. processCommand E m r (''/banuid '' @ show_u32 u) w = Some w1 \<and>
    (\<forall>res w2. client_joinRoom c (m_room (w_member w m)) w1 \<noteq> Inr (Inr res, w2))"
proof -
  have "command_named ''banuid'' = Some CommandBanUid"
    by (simp add: command_named_def all_commands_def command_lists)
  then obtain p where p: "at_arguments (dropWhile is_space (show_u32 u)) p"
    "processCommand E m r (CHR ''/'' # ''banuid'' @ CHR '' '' # show_u32 u) w = Some (cmd_banuid_process E m p w)"
    using run_command [of "''banuid''" CommandBanUid w m "show_u32 u" E r] moder by (auto simp: is_space_def)
  have "at_arguments (show_u32 u @ []) p"
    using p(1) digit_string [of u] digit_not_space by (cases "show_u32 u") auto
  from banuid_refuses [OF ok this _ _ c, where E = E] limit p(2) show ?thesis
    by (fastforce simp: ban_limit_def)
qed

end
