(* ===== verification/PacketFacts.thy ===== *)
theory PacketFacts
  imports CommandEffects
begin

text \<open>
  What the packets promise: the flood control, the way of a message into a room, and the
  life of rooms.
\<close>

subsection \<open>Flood control\<close>

definition in_window :: "'x world \<Rightarrow> client_ptr \<Rightarrow> bool" where
  "in_window w c \<longleftrightarrow> w_now w - c_lastMessageTime (w_client w c) \<le> 1"

lemma flood_window_in: "in_window w c \<Longrightarrow> flood_window c w = w"
  by (simp add: in_window_def flood_window_def)

lemma flood_window_sel:
  "w_room (flood_window c w) = w_room w" "w_member (flood_window c w) = w_member w" "w_out (flood_window c w) = w_out w"
  "w_now (flood_window c w) = w_now w" "c_rooms (w_client (flood_window c w) d) = c_rooms (w_client w d)"
  "c_connection (w_client (flood_window c w) d) = c_connection (w_client w d)"
  "c_uid (w_client (flood_window c w) d) = c_uid (w_client w d)" "c_name (w_client (flood_window c w) d) = c_name (w_client w d)"
  "c_messageCounter (w_client (flood_window c w) c) = (if in_window w c then c_messageCounter (w_client w c) else 0)"
  "c_lastMessageTime (w_client (flood_window c w) c) = (if in_window w c then c_lastMessageTime (w_client w c) else w_now w)"
  by (simp_all add: flood_window_def in_window_def)

lemma flood_window_once: "flood_window c (flood_window c w) = flood_window c w"
  by (simp add: flood_window_def)

lemma client_sendPacket_eq:
  "client_sendPacket E c p w = w\<lparr>w_out := w_out w @ delivery w c (wire E p)\<rparr>"
  by (simp add: client_sendPacket_def server_sendPacket_def delivery_def split: option.split)

definition flood_reply :: "('j, 'x) env \<Rightarrow> 'x world \<Rightarrow> client_ptr \<Rightarrow> packet_message \<Rightarrow> sent list" where
  "flood_reply E w c p =
     (if pm_target p = [] \<or> pm_message p = [] then []
      else delivery w c (wire E (sys_packet (pm_target p) txt_flood)))"

lemma message_flooded:
  assumes "in_window w c" and "c_messageCounter (w_client w c) > 3"
  shows "message_process E c p w = Inr (w\<lparr>w_out := w_out w @ flood_reply E w c p\<rparr>)"
  using assms
  by (simp add: message_process_def flood_window_in client_sendPacket_eq flood_reply_def Let_def)

lemma flood_reply_out [simp]: "flood_reply E (w\<lparr>w_out := x\<rparr>) c p = flood_reply E w c p"
  by (simp add: flood_reply_def delivery_def)

lemma messages_flooded:
  assumes "in_window w c" and "c_messageCounter (w_client w c) > 3"
  shows "foldR (message_process E c) ps w =
    Inr (w\<lparr>w_out := w_out w @ concat (map (flood_reply E w c) ps)\<rparr>)"
  using assms
proof (induction ps arbitrary: w)
  case (Cons p ps)
  let ?w1 = "w\<lparr>w_out := w_out w @ flood_reply E w c p\<rparr>"
  have "in_window ?w1 c" "c_messageCounter (w_client ?w1 c) > 3"
    using Cons.prems by (simp_all add: in_window_def)
  from Cons.IH [OF this] show ?case
    by (simp add: message_flooded [OF Cons.prems])
qed simp

text \<open>The counters of the flood control, which nothing but a message changes.\<close>

definition flood_view :: "'x world \<Rightarrow> client_ptr \<Rightarrow> int \<times> time" where
  "flood_view w d = (c_messageCounter (w_client w d), c_lastMessageTime (w_client w d))"

lemma flood_view_cong: "w_client w' = w_client w \<Longrightarrow> flood_view w' = flood_view w"
  by (simp add: flood_view_def fun_eq_iff)

lemma flood_view_kick: "flood_view (room_kickMember E r k w) = flood_view w"
  by (simp add: room_kickMember_def room_eraseMember_def client_onKick_def flood_view_def fun_eq_iff Let_def)

lemma setNick_client: "w_client (member_setNick E m n w) = w_client w"
  by (simp add: member_setNick_def Let_def)

lemma command_flood_view: "flood_view (command_process E c m p w) = flood_view w"
proof (cases "c = CommandBanNick \<or> c = CommandKick")
  case True
  then show ?thesis
    by (auto simp: cmd_bannick_process_def cmd_kick_process_def Let_def flood_view_kick
        flood_view_cong [OF reply_sel(1)] split: option.split)
      (simp_all add: flood_view_def fun_eq_iff)
next
  case False
  then have "w_client (command_process E c m p w) = w_client w"
    by (cases c)
      (auto simp: cmd_help_process_def cmd_moderlist_process_def cmd_banlist_process_def
        cmd_myrooms_process_def cmd_userlist_process_def cmd_roomlist_process_def
        cmd_ipcounter_process_def cmd_nick_process_def cmd_gender_process_def cmd_color_process_def
        cmd_styled_process_def cmd_msg_process_def cmd_umsg_process_def cmd_banuid_process_def
        cmd_banip_process_def cmd_unbannick_process_def cmd_unbanuid_process_def
        cmd_unbanip_process_def cmd_addmoder_process_def cmd_delmoder_process_def
        announce_def send_private_def member_setGirl_def member_setColor_def setNick_client
        Let_def case_prod_unfold split: option.split)
  then show ?thesis by (rule flood_view_cong)
qed

lemma first_processor_flood_view:
  "first_processor E css nm m p w = Some w' \<Longrightarrow> flood_view w' = flood_view w"
  by (auto simp: first_processor_concat command_flood_view)

lemma processCommand_flood_view:
  "processCommand E m r msg w = Some w' \<Longrightarrow> flood_view w' = flood_view w"
  by (auto simp: processCommand_def Let_def first_processor_flood_view
      flood_view_cong [OF member_sendPacket_sel(1)] split: if_splits prod.splits option.splits)

lemma say_in_room_flood_view:
  assumes "say_in_room E c r targ msg w = Inr w'"
  shows "flood_view w' = flood_view w"
proof -
  obtain m where m: "findMemberByClient w r c = Some m"
    using assms by (cases "findMemberByClient w r c") (auto simp: say_in_room_def)
  show ?thesis
  proof (cases "processCommand E m r msg w")
    case (Some w1)
    with assms m show ?thesis by (auto simp: say_in_room_def processCommand_flood_view)
  next
    case None
    with assms m show ?thesis
      by (auto simp: say_in_room_def Let_def intro!: flood_view_cong split: if_splits prod.splits)
  qed
qed

lemma message_flood_bound:
  assumes "message_process E c p w = Inr w'" and "c_messageCounter (w_client w c) \<le> 4"
  shows "c_messageCounter (w_client w' c) \<le> 4"
proof -
  let ?w1 = "flood_window c w"
  have le: "c_messageCounter (w_client ?w1 c) \<le> 4" using assms(2) by (simp add: flood_window_def)
  let ?w2 = "upd_client c (\<lambda>cl. cl\<lparr>c_messageCounter := c_messageCounter cl + 1\<rparr>) ?w1"
  have "c_messageCounter (w_client w' c) \<le> 4" if "say_in_room E c r t m ?w2 = Inr w'"
    "c_messageCounter (w_client ?w1 c) \<le> 3" for r t m
    using fun_cong [OF say_in_room_flood_view [OF that(1)], of c] that(2) by (simp add: flood_view_def)
  with assms le show ?thesis
    by (auto simp: message_process_def Let_def not_less split: if_splits option.splits)
qed

subsection \<open>A message reaches the room\<close>

definition room_message :: "'x world \<Rightarrow> room_ptr \<Rightarrow> member_ptr \<Rightarrow> string \<Rightarrow> packet" where
  "room_message w r m msg = Packet_Message
     ((message_packet w m msg)\<lparr>pm_id := show_u32 (r_nextMessageId (w_room w r))\<rparr>)"

lemma say_in_room_message:
  assumes "findMemberByClient w r c = Some m" and "m_nick (w_member w m) \<noteq> []"
    and "msg = [] \<or> hd msg \<noteq> CHR ''/''"
  shows "say_in_room E c r targ msg w = Inr (sendPacketToAll E r (room_message w r m msg)
    (upd_room r (\<lambda>_. snd (room_newMessageId (w_room w r))) w))"
  using assms
  by (simp add: say_in_room_def processCommand_def room_message_def room_newMessageId_def Let_def)

subsection \<open>Rooms are made and removed\<close>

definition valid_room_name :: "string \<Rightarrow> bool" where
  "valid_room_name nm \<longleftrightarrow>
     (\<exists>t. nm = CHR ''#'' # t \<and> 3 \<le> length t \<and> length t \<le> 24 \<and> list_all room_name_char t)"

lemma create_room_refused:
  fixes E :: "('j, 'x) env" and c :: client_ptr and p :: packet_create_room and w :: "'x world"
  defines "refuse \<equiv> \<lambda>cod txt. client_sendPacket E c (err_packet PT_create_room (pc_sequenceId p) (pc_target p) cod txt) w"
  shows "client_isGuest (w_client w c) \<Longrightarrow> create_room_process E c p w = refuse EC_access_denied txt_guest_no_create"
    and "\<not> client_isGuest (w_client w c) \<Longrightarrow> \<not> valid_room_name (pc_target p) \<Longrightarrow>
      create_room_process E c p w = refuse EC_invalid_target txt_bad_room_name"
    and "\<not> client_isGuest (w_client w c) \<Longrightarrow> valid_room_name (pc_target p) \<Longrightarrow>
      server_getRoomByName w (pc_target p) \<noteq> None \<Longrightarrow>
      create_room_process E c p w = refuse EC_already_exists txt_room_exists"
  by (auto simp: refuse_def create_room_process_def room_name_shape valid_room_name_def server_createRoom_def Let_def)

lemma create_room_made:
  fixes E :: "('j, 'x) env"
  assumes ok: "registry_ok w" and "\<not> client_isGuest (w_client w c)" and "valid_room_name (pc_target p)"
    and none: "server_getRoomByName w (pc_target p) = None"
  defines "w' \<equiv> create_room_process E c p w"
  shows "server_getRoomByName w' (pc_target p) = Some (w_nextRoom w)"
    and "r_ownerId (w_room w' (w_nextRoom w)) = c_uid (w_client w c)"
    and "r_members (w_room w' (w_nextRoom w)) = []"
    and "w_rooms w' = w_rooms w @ [w_nextRoom w]"
    and "q \<noteq> w_nextRoom w \<Longrightarrow> w_room w' q = w_room w q"
    and "w_out w' = w_out w @ delivery w c (wire E (Packet_CreateRoom p))"
proof -
  have fresh: "w_nextRoom w \<notin> set (w_rooms w)"
    using ok by (auto simp: registry_ok_def names_ok_def)
  have w': "w' = client_sendPacket E c (Packet_CreateRoom p)
      (upd_room (w_nextRoom w) (room_setOwner (c_uid (w_client w c)))
        (w\<lparr>w_room := (w_room w)(w_nextRoom w := room_setName (pc_target p) room_new),
           w_rooms := w_rooms w @ [w_nextRoom w], w_nextRoom := Suc (w_nextRoom w)\<rparr>))"
    using assms(2,3) fresh
    by (simp add: w'_def create_room_process_def room_name_shape valid_room_name_def
        server_createRoom_Some [OF none] uset_insert_def Let_def)
  show rooms: "w_rooms w' = w_rooms w @ [w_nextRoom w]" by (simp add: w')
  show "w_out w' = w_out w @ delivery w c (wire E (Packet_CreateRoom p))" by (simp add: w' delivery_def)
  show other: "w_room w' q = w_room w q" if "q \<noteq> w_nextRoom w" for q using that by (simp add: w')
  show "r_ownerId (w_room w' (w_nextRoom w)) = c_uid (w_client w c)"
    and "r_members (w_room w' (w_nextRoom w)) = []"
    by (simp_all add: w' room_setOwner_def room_setName_def room_new_def)
  have name: "r_name (w_room w' (w_nextRoom w)) = pc_target p"
    by (simp add: w' room_setOwner_def room_setName_def)
  have "r_name (w_room w' q) \<noteq> pc_target p" if "q \<in> set (w_rooms w)" for q
    using server_getRoomByName_None [OF none that] other [of q] that fresh by metis
  then show "server_getRoomByName w' (pc_target p) = Some (w_nextRoom w)"
    unfolding server_getRoomByName_def using rooms name by (intro find_Some_unique) auto
qed

lemma remove_room_refused:
  fixes E :: "('j, 'x) env" and c :: client_ptr and p :: packet_remove_room and w :: "'x world"
  defines "refuse \<equiv> \<lambda>cod txt. Inr (client_sendPacket E c (err_packet PT_remove_room (pr_sequenceId p) (pr_target p) cod txt) w)"
  shows "client_isGuest (w_client w c) \<Longrightarrow> remove_room_process E c p w = refuse EC_access_denied txt_guest_no_remove"
    and "\<not> client_isGuest (w_client w c) \<Longrightarrow> server_getRoomByName w (pr_target p) = None \<Longrightarrow>
      remove_room_process E c p w = refuse EC_not_found txt_no_such_room"
    and "\<not> client_isGuest (w_client w c) \<Longrightarrow> server_getRoomByName w (pr_target p) = Some r \<Longrightarrow>
      \<not> client_isAdmin (w_client w c) \<Longrightarrow> c_uid (w_client w c) \<noteq> r_ownerId (w_room w r) \<Longrightarrow>
      remove_room_process E c p w = refuse EC_access_denied txt_cannot_remove"
  by (simp_all add: refuse_def remove_room_process_def Let_def)

lemma remove_room_done:
  assumes ok: "chat_ok w" and "\<not> client_isGuest (w_client w c)"
    and r: "server_getRoomByName w (pr_target p) = Some r"
    and "client_isAdmin (w_client w c) \<or> c_uid (w_client w c) = r_ownerId (w_room w r)"
  shows "\<exists>w'. remove_room_process E c p w = Inr w' \<and> server_getRoomByName w' (pr_target p) = None
    \<and> r_members (w_room w' r) = [] \<and> set (w_rooms w') = set (w_rooms w) - {r}
    \<and> (\<forall>d. r \<notin> set (c_rooms (w_client w' d)))"
proof -
  obtain w1 where w1: "server_removeRoom E (pr_target p) w = Inr (True, w1)" "keeps w w1"
    "w_rooms w1 = uset_erase r (w_rooms w)" "r_members (w_room w1 r) = []"
    using server_removeRoom_found [OF ok r] by metis
  have ok1: "chat_ok w1" using w1(2) ok by (simp add: keeps_def)
  have "r \<notin> set (c_rooms (w_client w1 d))" for d
    using members_okD(2) [OF chat_okD(1) [OF ok1], of r d] w1(4) by auto
  moreover have "remove_room_process E c p w = Inr (client_sendPacket E c (Packet_RemoveRoom p) w1)"
    using assms(2,4) by (simp add: remove_room_process_def r w1(1))
  moreover have "server_getRoomByName w1 (pr_target p) = None"
    by (rule server_removeRoom_gone [OF ok w1(1)])
  ultimately show ?thesis using w1(3,4) by (simp add: server_getRoomByName_def)
qed

lemma message_into_room:
  assumes r: "client_getRoomByName w c (pm_target p) = Some r" and m: "findMemberByClient w r c = Some m"
    and nick: "m_nick (w_member w m) \<noteq> []" and targ: "pm_target p \<noteq> []"
    and msg: "pm_message p \<noteq> []" "hd (pm_message p) \<noteq> CHR ''/''" "\<not> list_all is_space (pm_message p)"
    and flood: "in_window w c \<Longrightarrow> c_messageCounter (w_client w c) \<le> 3"
  shows "message_process E c p w = Inr (sendPacketToAll E r (room_message w r m (pm_message p))
    (upd_room r (\<lambda>rm. snd (room_newMessageId rm))
      (upd_client c (\<lambda>cl. cl\<lparr>c_messageCounter := c_messageCounter cl + 1\<rparr>) (flood_window c w))))"
proof -
  let ?w0 = "flood_window c w"
  let ?w1 = "upd_client c (\<lambda>cl. cl\<lparr>c_messageCounter := c_messageCounter cl + 1\<rparr>) ?w0"
  have "client_getRoomByName ?w1 c (pm_target p) = Some r" "findMemberByClient ?w1 r c = Some m"
    "m_nick (w_member ?w1 m) \<noteq> []" "c_messageCounter (w_client ?w0 c) \<le> 3"
    using r m nick flood by (simp_all add: client_getRoomByName_def findMemberByClient_def flood_window_sel)
  moreover have "room_message ?w1 r m (pm_message p) = room_message w r m (pm_message p)"
    by (simp add: room_message_def message_packet_def Let_def flood_window_sel)
  ultimately show ?thesis
    using targ msg
    by (simp add: message_process_def rx_blank_def regex_match_star_Cls
        say_in_room_message Let_def not_less) (simp add: upd_room_def)
qed

subsection \<open>The nick a member starts with\<close>

definition remembered_nick :: "'x world \<Rightarrow> room_ptr \<Rightarrow> client_ptr \<Rightarrow> member_ptr \<Rightarrow> string" where
  "remembered_nick w r c m = (case getStoredMemberInfo w r m of
     Some info \<Rightarrow> mi_nick info | None \<Rightarrow> c_name (w_client w c))"

lemma auto_login_nick:
  fixes w :: "'x world"
  shows "fst (auto_login E r c m w) =
     (let nick = remembered_nick w r c m
      in if (member_isModer w m \<or> nick \<notin> set (r_bannedNicks (w_room w r)))
            \<and> (\<forall>k \<in> set (r_members (w_room w r)). m_nick (w_member w k) \<noteq> nick)
         then nick else [])"
proof -
  let ?n = "remembered_nick w r c m"
  define w1 where "w1 = (case getStoredMemberInfo w r m of
      Some info \<Rightarrow> member_setColor m (mi_color info) (member_setGirl m (mi_girl info) w)
    | None \<Rightarrow> member_setColor m (c_color (w_client w c)) (member_setGirl m (c_isGirl (w_client w c)) w))"
  have start: "(case getStoredMemberInfo w r m of
      Some info \<Rightarrow> (mi_nick info, member_setColor m (mi_color info) (member_setGirl m (mi_girl info) w))
    | None \<Rightarrow> (let cl = w_client w c
         in (c_name cl, member_setColor m (c_color cl) (member_setGirl m (c_isGirl cl) w)))) = (?n, w1)"
    by (simp add: remembered_nick_def w1_def Let_def split: option.split)
  have w1: "w_room w1 = w_room w" "w_client w1 = w_client w" "m_nick (w_member w1 k) = m_nick (w_member w k)"
    "m_client (w_member w1 k) = m_client (w_member w k)" "m_room (w_member w1 k) = m_room (w_member w k)" for k
    by (auto simp: w1_def member_setColor_def member_setGirl_def split: option.split)
  have moder: "member_isModer w1 m = member_isModer w m"
    by (simp add: member_isModer_privileged privileged_def w1)
  have taken: "findMemberByNick v r n \<noteq> None \<longleftrightarrow> n \<noteq> [] \<and> (\<exists>k \<in> set (r_members (w_room w r)). m_nick (w_member w k) = n)"
    if "w_room v = w_room w" "\<And>k. m_nick (w_member v k) = m_nick (w_member w k)" for v :: "'x world" and n
    using that by (auto simp: findMemberByNick_def find_None_iff)
  show ?thesis
    unfolding auto_login_def start
    unfolding Let_def prod.case moder room_isBannedNick_def w1(1)
    using taken [OF w1(1) w1(3)] taken [of "member_sendPacket E m _ w1"]
    by (auto simp: w1 findMemberByNick_empty)
qed

end
