(* ===== verification/TextFacts.thy ===== *)
theory TextFacts
  imports Safety
begin

text \<open>
  What the clean-up of a message text promises: valid UTF-8, bounded length, no more than
  three line breaks in a row.
\<close>

subsection \<open>UTF-8\<close>

text \<open>
  What the code relies on of \<open>utf8::find_invalid\<close>: it returns the length of a valid
  prefix, the whole length only if all of the text is valid, validity is kept by
  concatenation, and a blank is valid.
\<close>

definition find_invalid_laws :: "(string \<Rightarrow> nat) \<Rightarrow> bool" where
  "find_invalid_laws f \<longleftrightarrow>
     (\<forall>s. f s \<le> length s) \<and>
     (\<forall>s. f (take (f s) s) = length (take (f s) s)) \<and>
     (\<forall>s t. f s = length s \<longrightarrow> f t = length t \<longrightarrow> f (s @ t) = length (s @ t)) \<and>
     f '' '' = 1"

definition valid_utf8 :: "(string \<Rightarrow> nat) \<Rightarrow> string \<Rightarrow> bool" where
  "valid_utf8 f s \<longleftrightarrow> f s = length s"

lemma valid_utf8_append:
  "find_invalid_laws f \<Longrightarrow> valid_utf8 f s \<Longrightarrow> valid_utf8 f t \<Longrightarrow> valid_utf8 f (s @ t)"
  unfolding find_invalid_laws_def valid_utf8_def by blast

lemma valid_utf8_prefix: "find_invalid_laws f \<Longrightarrow> valid_utf8 f (take (f s) s)"
  unfolding find_invalid_laws_def valid_utf8_def by blast

lemma replaceInvalidUtf8_valid:
  assumes laws: "find_invalid_laws f"
  shows "valid_utf8 f (replaceInvalidUtf8 f CHR '' '' s)"
proof (induction "length s" arbitrary: s rule: less_induct)
  case less
  have blank: "valid_utf8 f '' ''" using laws by (simp add: find_invalid_laws_def valid_utf8_def)
  have bound: "f t \<le> length t" for t using laws unfolding find_invalid_laws_def by blast
  have empty: "valid_utf8 f []" using bound [of "[]"] by (simp add: valid_utf8_def)
  show ?case
  proof (cases "s = [] \<or> length s \<le> f s")
    case True
    then show ?thesis
      using bound [of s] empty by (auto simp: replaceInvalidUtf8.simps [of f _ s] valid_utf8_def)
  next
    case False
    then have "valid_utf8 f (replaceInvalidUtf8 f CHR '' '' (drop (Suc (f s)) s))"
      by (intro less) auto
    from valid_utf8_append [OF laws valid_utf8_prefix [OF laws, of s] valid_utf8_append [OF laws blank this]]
    show ?thesis using False by (simp add: replaceInvalidUtf8.simps [of f _ s])
  qed
qed

text \<open>The text keeps its length; a byte stays as it is or becomes the replacement.\<close>

definition blotted :: "char \<Rightarrow> string \<Rightarrow> string \<Rightarrow> bool" where
  "blotted c s t \<longleftrightarrow> list_all2 (\<lambda>a b. b = a \<or> b = c) s t"

lemma blotted_refl: "blotted c s s"
  by (simp add: blotted_def list_all2_same)

lemma replaceInvalidUtf8_blotted: "blotted c s (replaceInvalidUtf8 f c s)"
proof (induction "length s" arbitrary: s rule: less_induct)
  case less
  show ?case
  proof (cases "s = [] \<or> length s \<le> f s")
    case True
    then show ?thesis by (auto simp: replaceInvalidUtf8.simps [of f c s] blotted_refl)
  next
    case False
    let ?n = "f s"
    have n: "?n < length s" using False by simp
    have "blotted c (drop (Suc ?n) s) (replaceInvalidUtf8 f c (drop (Suc ?n) s))"
      using n by (intro less) auto
    then have "blotted c (take ?n s @ s ! ?n # drop (Suc ?n) s)
        (take ?n s @ c # replaceInvalidUtf8 f c (drop (Suc ?n) s))"
      using blotted_refl [of c "take ?n s"] by (simp add: blotted_def list_all2_appendI)
    then show ?thesis
      using False by (simp add: replaceInvalidUtf8.simps [of f c s] id_take_nth_drop [OF n, symmetric])
  qed
qed

lemma replaceInvalidUtf8_id: "valid_utf8 f s \<Longrightarrow> replaceInvalidUtf8 f c s = s"
  by (simp add: replaceInvalidUtf8.simps valid_utf8_def)

subsection \<open>Line breaks\<close>

abbreviation nl :: char where
  "nl \<equiv> CHR 0x0A"

definition leading :: "string \<Rightarrow> nat" where
  "leading s = length (takeWhile (\<lambda>c. c = nl) s)"

definition after_breaks :: "string \<Rightarrow> string" where
  "after_breaks s = dropWhile (\<lambda>c. c = nl) s"

text \<open>\<open>run_ok n s\<close>: after \<open>n\<close> line breaks, \<open>s\<close> continues no run beyond three.\<close>

fun run_ok :: "nat \<Rightarrow> string \<Rightarrow> bool" where
  "run_ok n [] = True"
| "run_ok n (c # cs) = (if c = nl then n < 3 \<and> run_ok (Suc n) cs else run_ok 0 cs)"

lemma rx_all_newlines:
  "\<exists>ts. rx_all b rx_newlines (s, g) = (if 3 \<le> leading s then (after_breaks s, g) # ts else [])"
proof (cases "3 \<le> leading s")
  case True
  then have "\<exists>t. s = nl # nl # nl # t"
    by (cases s; cases "tl s"; cases "tl (tl s)") (auto simp: leading_def split: if_splits)
  then obtain t where s: "s = nl # nl # nl # t" by blast
  obtain ts where "rep_upto (rx_all b (Cls (\<lambda>c. c = nl))) (length t) (t, g)
      = (dropWhile (\<lambda>c. c = nl) t, g) # ts"
    using rep_upto_Cls [of t "length t" b "\<lambda>c. c = nl" g] by auto
  with True show ?thesis
    by (simp add: s rx_newlines_def rx_char_def numeral_3_eq_3 after_breaks_def)
next
  case False
  then show ?thesis
    by (cases s; cases "tl s"; cases "tl (tl s)")
      (auto simp: leading_def rx_newlines_def rx_char_def numeral_3_eq_3 split: if_splits)
qed

lemma search_newlines:
  "rx_search b rx_newlines pre s =
     (if 3 \<le> leading s
      then Some \<lparr>sm_prefix = pre, sm_str = take (length s - length (after_breaks s)) s,
             sm_suffix = after_breaks s, sm_caps = Map.empty, sm_size = 1\<rparr>
      else case s of [] \<Rightarrow> None | c # cs \<Rightarrow> rx_search b rx_newlines (pre @ [c]) cs)"
proof -
  have "rx_groups rx_newlines = 0" by (simp add: rx_newlines_def rx_char_def)
  moreover obtain ts where "rx_all b rx_newlines (s, Map.empty) =
      (if 3 \<le> leading s then (after_breaks s, Map.empty) # ts else [])"
    using rx_all_newlines by blast
  ultimately show ?thesis by (subst rx_search.simps) simp
qed

lemma search_newlines_prefix:
  "rx_search b rx_newlines pre s =
     map_option (\<lambda>m. m\<lparr>sm_prefix := pre @ sm_prefix m\<rparr>) (rx_search None rx_newlines [] s)"
proof (induction s arbitrary: pre b)
  case Nil
  show ?case by (simp add: search_newlines [of _ _ "[]"] leading_def)
next
  case (Cons c cs)
  show ?case
  proof (cases "3 \<le> leading (c # cs)")
    case True
    then show ?thesis by (simp add: search_newlines [of _ _ "c # cs"])
  next
    case False
    have "rx_search b rx_newlines pre (c # cs) = rx_search b rx_newlines (pre @ [c]) cs"
      "rx_search None rx_newlines [] (c # cs) = rx_search None rx_newlines [c] cs"
      using False by (simp_all add: search_newlines [of _ _ "c # cs"])
    then show ?thesis
      by (simp add: Cons.IH [of b "pre @ [c]"] Cons.IH [of None "[c]"] option.map_comp comp_def)
  qed
qed

definition squeezed :: "string \<Rightarrow> string" where
  "squeezed s = rx_replace None rx_newlines [nl, nl, nl] s"

lemma squeezed_Nil: "squeezed [] = []"
  by (simp add: squeezed_def rx_replace.simps search_newlines [of _ _ "[]"] leading_def)

lemma squeezed_run:
  assumes "3 \<le> leading s"
  shows "rx_replace b rx_newlines [nl, nl, nl] s = nl # nl # nl # squeezed (after_breaks s)"
proof -
  have "take (length s - length (after_breaks s)) s = takeWhile (\<lambda>c. c = nl) s"
    by (simp add: after_breaks_def take_dropWhile_length)
  moreover have "takeWhile (\<lambda>c. c = nl) s \<noteq> []" using assms by (auto simp: leading_def)
  ultimately show ?thesis
    using assms by (subst rx_replace.simps) (simp add: search_newlines [of b "[]" s] squeezed_def)
qed

lemma squeezed_Cons:
  assumes "\<not> 3 \<le> leading (c # cs)"
  shows "rx_replace b rx_newlines [nl, nl, nl] (c # cs) = c # squeezed cs"
proof -
  have "rx_search b rx_newlines [] (c # cs) = rx_search b rx_newlines [c] cs"
    using assms by (simp add: search_newlines [of b "[]" "c # cs"])
  also have "\<dots> = map_option (\<lambda>m. m\<lparr>sm_prefix := c # sm_prefix m\<rparr>) (rx_search None rx_newlines [] cs)"
    by (simp add: search_newlines_prefix [of b "[c]"])
  finally have eq: "rx_search b rx_newlines [] (c # cs) = \<dots>" .
  show ?thesis
    unfolding squeezed_def
    by (subst rx_replace.simps, subst (2) rx_replace.simps, unfold eq)
      (simp split: option.split)
qed

lemma squeezed_start: "rx_replace b rx_newlines [nl, nl, nl] s = squeezed s"
proof (cases "3 \<le> leading s")
  case True
  then show ?thesis by (simp only: squeezed_run squeezed_def [of s])
next
  case False
  show ?thesis
  proof (cases s)
    case Nil
    then show ?thesis by (simp add: squeezed_def rx_replace.simps search_newlines [of _ _ "[]"] leading_def)
  next
    case (Cons c cs)
    with False have short: "\<not> 3 \<le> leading (c # cs)" by simp
    show ?thesis
      unfolding Cons squeezed_Cons [OF short] squeezed_def [of "c # cs"] ..
  qed
qed

lemma squeezed_leading:
  assumes "leading s < 3"
  shows "squeezed s = takeWhile (\<lambda>c. c = nl) s @ squeezed (after_breaks s)"
  using assms
proof (induction s)
  case (Cons c cs)
  then show ?case
    using squeezed_Cons [of c cs None]
    by (cases "c = nl") (auto simp: squeezed_def [symmetric] leading_def after_breaks_def)
qed (simp add: after_breaks_def)

lemma run_ok_breaks: "n + length u \<le> 3 \<Longrightarrow> list_all (\<lambda>c. c = nl) u \<Longrightarrow> run_ok n (u @ t) = run_ok (n + length u) t"
  by (induction u arbitrary: n) auto

lemma run_ok_any: "t = [] \<or> hd t \<noteq> nl \<Longrightarrow> run_ok n t = run_ok 0 t"
  by (cases t) auto

lemma after_breaks_hd: "after_breaks s = [] \<or> hd (after_breaks s) \<noteq> nl"
  unfolding after_breaks_def by (metis (full_types) hd_dropWhile)

lemma squeezed_hd: "hd t \<noteq> nl \<Longrightarrow> t \<noteq> [] \<Longrightarrow> squeezed t = hd t # squeezed (tl t)"
  using squeezed_Cons [of "hd t" "tl t" None] by (cases t) (simp_all add: squeezed_def leading_def)

lemma run_ok_squeezed: "run_ok 0 (squeezed s)"
proof (induction "length s" arbitrary: s rule: less_induct)
  case less
  let ?t = "after_breaks s"
  have rest: "run_ok n (squeezed ?t)" for n
  proof (cases "?t = []")
    case False
    then have t: "squeezed ?t = hd ?t # squeezed (tl ?t)" "hd ?t \<noteq> nl"
      using after_breaks_hd [of s] squeezed_hd by blast+
    have "length (tl ?t) < length s"
      using False length_dropWhile_le [of "\<lambda>c. c = nl" s] by (cases ?t) (auto simp: after_breaks_def)
    with less t show ?thesis by simp
  qed (simp add: squeezed_Nil)
  show ?case
  proof (cases "3 \<le> leading s")
    case True
    then show ?thesis using rest by (simp add: squeezed_run squeezed_def [of s])
  next
    case False
    then have "squeezed s = takeWhile (\<lambda>c. c = nl) s @ squeezed ?t" by (intro squeezed_leading) simp
    moreover have "list_all (\<lambda>c. c = nl) (takeWhile (\<lambda>c. c = nl) s)"
      by (auto simp: list_all_iff dest: set_takeWhileD)
    ultimately show ?thesis
      using run_ok_breaks [of 0 "takeWhile (\<lambda>c. c = nl) s" "squeezed ?t"] False rest
      by (simp add: leading_def)
  qed
qed

lemma run_ok_take: "run_ok n s \<Longrightarrow> run_ok n (take k s)"
proof (induction s arbitrary: n k)
  case (Cons c cs)
  then show ?case by (cases k) (auto split: if_splits)
qed simp

lemma run_ok_blotted:
  assumes "blotted c s t" and "c \<noteq> nl"
  shows "run_ok n s \<Longrightarrow> k \<le> n \<Longrightarrow> run_ok k t"
  using assms(1) unfolding blotted_def
proof (induction s t arbitrary: n k rule: list_all2_induct)
  case (Cons a s b t)
  show ?case
  proof (cases "a = nl \<and> b = nl")
    case True
    with Cons.prems Cons.IH [of "Suc n" "Suc k"] show ?thesis by auto
  next
    case False
    with Cons.hyps assms(2) have "b \<noteq> nl" by auto
    moreover have "run_ok m s" if "m = (if a = nl then Suc n else 0)" for m using Cons.prems that by (auto split: if_splits)
    ultimately show ?thesis using Cons.IH [of _ 0] by auto
  qed
qed simp

lemma run_ok_no_four: "run_ok n (a @ nl # nl # nl # nl # b) \<Longrightarrow> False"
  by (induction a arbitrary: n) (auto split: if_splits)

lemma clean_message_runs: "run_ok 0 (clean_message E msg)"
proof -
  let ?s = "regex_replace msg rx_newlines (newline @ newline @ newline)"
  have "?s = squeezed msg" by (simp add: regex_replace_def newline_def squeezed_start)
  then have "run_ok 0 (if max_message_size < length ?s then take max_message_size ?s else ?s)"
    by (simp add: run_ok_squeezed run_ok_take)
  then show ?thesis
    unfolding clean_message_def Let_def
    by (intro run_ok_blotted [where n = 0 and k = 0, OF replaceInvalidUtf8_blotted]) simp_all
qed

lemma clean_message_length: "length (clean_message E msg) \<le> max_message_size"
  using list_all2_lengthD [OF replaceInvalidUtf8_blotted [unfolded blotted_def], symmetric]
  by (simp add: clean_message_def Let_def)

lemma clean_message_valid:
  "find_invalid_laws (e_find_invalid E) \<Longrightarrow> valid_utf8 (e_find_invalid E) (clean_message E msg)"
  by (simp add: clean_message_def Let_def replaceInvalidUtf8_valid)

end
