(* ===== verification/SaveFacts.thy ===== *)
theory SaveFacts
  imports Safety
begin

text \<open>
  Saving and loading: what the code relies on of jsoncpp, and the round trip of the rooms
  through it.
\<close>

subsection \<open>What is relied on of the JSON library\<close>

text \<open>The object that a list of assignments \<open>obj[k] = v\<close> makes of a value.\<close>

definition built :: "'j jsoncpp \<Rightarrow> 'j \<Rightarrow> (string \<times> 'j) list \<Rightarrow> 'j" where
  "built J obj kvs = fold (\<lambda>(k, v) obj. j_set J obj k v) kvs obj"

definition json_laws :: "'j jsoncpp \<Rightarrow> bool" where
  "json_laws J \<longleftrightarrow>
     (\<forall>obj \<in> {j_null J, j_object J}. \<forall>kvs k. j_get J (built J obj kvs) k =
        Inr (case map_of (rev kvs) k of None \<Rightarrow> j_null J | Some v \<Rightarrow> v)) \<and>
     j_elements J (j_null J) = [] \<and>
     (\<forall>vs. j_elements J (j_of_array J vs) = vs) \<and>
     (\<forall>u. j_asUInt J (j_of_uint J u) = Inr u) \<and>
     (\<forall>s. j_asString J (j_of_string J s) = Inr s) \<and>
     (\<forall>b. j_asBool J (j_of_bool J b) = Inr b)"

lemma json_lawsD:
  assumes "json_laws J"
  shows "j_get J (built J (j_null J) kvs) k = Inr (case map_of (rev kvs) k of None \<Rightarrow> j_null J | Some v \<Rightarrow> v)"
    and "j_get J (built J (j_object J) kvs) k = Inr (case map_of (rev kvs) k of None \<Rightarrow> j_null J | Some v \<Rightarrow> v)"
    and "j_elements J (j_null J) = []" and "j_elements J (j_of_array J vs) = vs"
    and "j_asUInt J (j_of_uint J u) = Inr u" and "j_asString J (j_of_string J s) = Inr s"
    and "j_asBool J (j_of_bool J b) = Inr b"
  using assms unfolding json_laws_def by blast+

lemma mapS_inverse: "(\<And>x. x \<in> set xs \<Longrightarrow> f (g x) = Inr x) \<Longrightarrow> mapS f (map g xs) = Inr xs"
  by (induction xs) auto

subsection \<open>One room\<close>

definition room_sets_ok :: "room \<Rightarrow> bool" where
  "room_sets_ok r \<longleftrightarrow> distinct (r_bannedNicks r) \<and> distinct (r_bannedIps r) \<and> distinct (r_bannedUids r)
     \<and> distinct (r_moderators r) \<and> distinct (map fst (r_membersInfo r))
     \<and> (\<forall>p \<in> set (r_membersInfo r). mi_user_id (snd p) = fst p)"

definition room_restored :: "room \<Rightarrow> room" where
  "room_restored r = r\<lparr>r_members := [], r_nextMemberId := 0\<rparr>"

lemma member_info_built:
  "member_info_serialize J mi = built J (j_object J)
     [(''user_id'', j_of_uint J (mi_user_id mi)), (''nick'', j_of_string J (mi_nick mi)),
      (''girl'', j_of_bool J (mi_girl mi)), (''color'', j_of_string J (mi_color mi))]"
  by (simp add: member_info_serialize_def built_def Let_def)

lemma member_info_round_trip:
  "json_laws J \<Longrightarrow> member_info_deserialize J (member_info_serialize J mi) = Inr mi"
  by (simp add: member_info_deserialize_def member_info_built get_uint_def get_string_def get_bool_def
      json_lawsD)

definition room_entries :: "'j jsoncpp \<Rightarrow> room \<Rightarrow> (string \<times> 'j) list" where
  "room_entries J r =
     [(''owner_id'', j_of_uint J (r_ownerId r)), (''name'', j_of_string J (r_name r)),
      (''nextMessageId'', j_of_uint J (r_nextMessageId r)),
      (''history'', j_of_array J (map (j_of_string J) (r_history r))),
      (''members_info'', j_of_array J (map (\<lambda>p. member_info_serialize J (snd p)) (r_membersInfo r))),
      (''bannedNicks'', j_of_array J (map (j_of_string J) (r_bannedNicks r))),
      (''bannedIps'', j_of_array J (map (j_of_string J) (r_bannedIps r))),
      (''bannedUids'', j_of_array J (map (j_of_uint J) (r_bannedUids r))),
      (''moderators'', j_of_array J (map (j_of_uint J) (r_moderators r)))]"

lemma room_built: "room_serialize J r = built J (j_null J) (room_entries J r)"
  by (simp add: room_serialize_def built_def room_entries_def Let_def)

lemma fold_uset_insert: "distinct (ys @ xs) \<Longrightarrow> fold uset_insert xs ys = ys @ xs"
  by (induction xs arbitrary: ys) (auto simp: uset_insert_def)

lemma AList_update_new: "k \<notin> fst ` set kvs \<Longrightarrow> AList.update k v kvs = kvs @ [(k, v)]"
  by (induction kvs) auto

lemma fold_infos:
  "distinct (map fst (kvs @ ps)) \<Longrightarrow> \<forall>p \<in> set ps. mi_user_id (snd p) = fst p \<Longrightarrow>
     fold (\<lambda>i. AList.update (mi_user_id i) i) (map snd ps) kvs = kvs @ ps"
proof (induction ps arbitrary: kvs)
  case (Cons p ps)
  have "AList.update (mi_user_id (snd p)) (snd p) kvs = kvs @ [p]"
    using Cons.prems by (subst AList_update_new) auto
  with Cons show ?case by simp
qed simp

lemma room_round_trip:
  assumes J: "json_laws J" and ok: "room_sets_ok r"
  shows "room_deserialize J (room_serialize J r) room_new = Inr (room_restored r)"
proof -
  have get: "j_get J (room_serialize J r) k =
      Inr (case map_of (rev (room_entries J r)) k of None \<Rightarrow> j_null J | Some v \<Rightarrow> v)" for k
    unfolding room_built by (rule json_lawsD(1) [OF J])
  have strings: "mapS (j_asString J) (map (j_of_string J) ss) = Inr ss" for ss
    by (rule mapS_inverse) (rule json_lawsD(6) [OF J])
  have uints: "mapS (j_asUInt J) (map (j_of_uint J) us) = Inr us" for us
    by (rule mapS_inverse) (rule json_lawsD(5) [OF J])
  have infos: "mapS (member_info_deserialize J) (map (\<lambda>p. member_info_serialize J (snd p)) ps) = Inr (map snd ps)"
    for ps :: "(u32 \<times> member_info) list"
    using mapS_inverse [of "map snd ps" "member_info_deserialize J" "member_info_serialize J"]
      member_info_round_trip [OF J] by (simp add: comp_def)
  have "fold (\<lambda>i. AList.update (mi_user_id i) i) (map snd (r_membersInfo r)) [] = r_membersInfo r"
    using ok fold_infos [of "[]" "r_membersInfo r"] by (simp add: room_sets_ok_def)
  moreover have "fold uset_insert (r_bannedNicks r) [] = r_bannedNicks r"
    "fold uset_insert (r_bannedIps r) [] = r_bannedIps r" "fold uset_insert (r_bannedUids r) [] = r_bannedUids r"
    "fold uset_insert (r_moderators r) [] = r_moderators r"
    using ok by (simp_all add: room_sets_ok_def fold_uset_insert [of "[]", simplified])
  ultimately show ?thesis
    by (simp add: room_deserialize_def get_uint_def get_string_def get_list_def get room_entries_def
        strings uints infos json_lawsD [OF J] room_restored_def room_new_def)
qed

subsection \<open>All rooms\<close>

lemma load_rooms_saved:
  assumes J: "json_laws (e_json E)" and "\<forall>rm \<in> set rms. room_sets_ok rm"
    and "\<forall>r \<in> set (w_rooms w). r < w_nextRoom w"
  shows "\<exists>f. load_rooms E (map (room_serialize (e_json E)) rms) w =
      (Inr (), w\<lparr>w_room := f, w_rooms := w_rooms w @ [w_nextRoom w ..< w_nextRoom w + length rms],
          w_nextRoom := w_nextRoom w + length rms\<rparr>)
    \<and> map f [w_nextRoom w ..< w_nextRoom w + length rms] = map room_restored rms
    \<and> (\<forall>r. r < w_nextRoom w \<or> w_nextRoom w + length rms \<le> r \<longrightarrow> f r = w_room w r)"
  using assms(2,3)
proof (induction rms arbitrary: w)
  case Nil
  show ?case by (intro exI [of _ "w_room w"]) simp
next
  case (Cons rm rms)
  let ?n = "w_nextRoom w"
  let ?w1 = "w\<lparr>w_room := (w_room w)(?n := room_restored rm), w_rooms := w_rooms w @ [?n], w_nextRoom := Suc ?n\<rparr>"
  have fresh: "?n \<notin> set (w_rooms w)" using Cons.prems(2) by auto
  have step: "load_rooms E (map (room_serialize (e_json E)) (rm # rms)) w =
      load_rooms E (map (room_serialize (e_json E)) rms) ?w1"
    using Cons.prems(1) fresh by (simp add: room_round_trip [OF J] uset_insert_def)
  have bound: "\<forall>r \<in> set (w_rooms ?w1). r < w_nextRoom ?w1" using Cons.prems(2) by auto
  obtain f where f: "load_rooms E (map (room_serialize (e_json E)) rms) ?w1 =
      (Inr (), ?w1\<lparr>w_room := f, w_rooms := w_rooms ?w1 @ [Suc ?n ..< Suc ?n + length rms],
          w_nextRoom := Suc ?n + length rms\<rparr>)"
    "map f [Suc ?n ..< Suc ?n + length rms] = map room_restored rms"
    "\<forall>r. r < Suc ?n \<or> Suc ?n + length rms \<le> r \<longrightarrow> f r = w_room ?w1 r"
    using Cons.IH [OF _ bound] Cons.prems(1) by auto
  have upt: "[?n ..< ?n + length (rm # rms)] = ?n # [Suc ?n ..< Suc ?n + length rms]"
    by (subst upt_conv_Cons) simp_all
  show ?case
    unfolding step f(1) upt
    using f(2,3) by (intro exI [of _ f]) simp
qed

lemma server_round_trip:
  assumes J: "json_laws (e_json E)" and ok: "\<forall>r \<in> set (w_rooms w). room_sets_ok (w_room w r)"
    and names: "names_ok w" and fresh: "started v" "w_rooms v = []"
  shows "\<exists>v'. server_deserialize E (server_serialize E w) v = (Inr (), v') \<and> started v'
    \<and> map (w_room v') (w_rooms v') = map (\<lambda>r. room_restored (w_room w r)) (w_rooms w)
    \<and> (\<forall>r. w_room v' r = w_room v r \<or> w_room v' r \<in> (\<lambda>r. room_restored (w_room w r)) ` set (w_rooms w))"
proof -
  let ?J = "e_json E" and ?rms = "map (w_room w) (w_rooms w)"
  let ?val = "if w_rooms w = [] then j_null ?J else j_of_array ?J (map (room_serialize ?J) ?rms)"
  have "server_serialize E w = built ?J (j_null ?J) [(''rooms'', ?val)]"
    by (simp add: server_serialize_def built_def comp_def)
  then have "j_get ?J (server_serialize E w) ''rooms'' = Inr ?val"
    by (simp add: json_lawsD(1) [OF J])
  moreover have "j_elements ?J ?val = map (room_serialize ?J) ?rms"
    by (simp add: json_lawsD [OF J])
  ultimately have load: "server_deserialize E (server_serialize E w) v =
      load_rooms E (map (room_serialize ?J) ?rms) (v\<lparr>w_rooms := []\<rparr>)"
    by (simp add: server_deserialize_def)
  let ?n = "w_nextRoom v" and ?k = "length (w_rooms w)"
  obtain f where f: "load_rooms E (map (room_serialize ?J) ?rms) (v\<lparr>w_rooms := []\<rparr>) =
      (Inr (), v\<lparr>w_room := f, w_rooms := [?n ..< ?n + ?k], w_nextRoom := ?n + ?k\<rparr>)"
    "map f [?n ..< ?n + ?k] = map room_restored ?rms"
    "\<forall>r. r < ?n \<or> ?n + ?k \<le> r \<longrightarrow> f r = w_room v r"
    using load_rooms_saved [OF J, of ?rms "v\<lparr>w_rooms := []\<rparr>"] ok by auto
  let ?v' = "v\<lparr>w_room := f, w_rooms := [?n ..< ?n + ?k], w_nextRoom := ?n + ?k\<rparr>"
  have room: "f r = room_restored (w_room w (w_rooms w ! (r - ?n)))" and index: "r - ?n < ?k"
    if "?n \<le> r" "r < ?n + ?k" for r
    using arg_cong [OF f(2), of "\<lambda>xs. xs ! (r - ?n)"] that by auto
  have members: "r_members (f r) = []" for r
  proof (cases "?n \<le> r \<and> r < ?n + ?k")
    case True
    then show ?thesis using room [of r] by (simp add: room_restored_def)
  next
    case False
    then have "f r = w_room v r" using f(3) by auto
    then show ?thesis using fresh(1) by (simp add: started_def)
  qed
  have "inj_on (\<lambda>r. r_name (f r)) {?n ..< ?n + ?k}"
  proof (rule inj_onI)
    fix a b
    assume a: "a \<in> {?n ..< ?n + ?k}" and b: "b \<in> {?n ..< ?n + ?k}" and eq: "r_name (f a) = r_name (f b)"
    then have "r_name (w_room w (w_rooms w ! (a - ?n))) = r_name (w_room w (w_rooms w ! (b - ?n)))"
      using room [of a] room [of b] by (simp add: room_restored_def)
    then have "w_rooms w ! (a - ?n) = w_rooms w ! (b - ?n)"
      using names a b index by (auto simp: names_ok_def dest: inj_onD)
    then have "a - ?n = b - ?n"
      using names a b index nth_eq_iff_index_eq [of "w_rooms w" "a - ?n" "b - ?n"] by (simp add: names_ok_def)
    then show "a = b" using a b by (simp add: eq_diff_iff)
  qed
  then have "names_ok ?v'" by (simp add: names_ok_def)
  then have "started ?v'" using fresh(1) members by (simp add: started_def)
  moreover have "map f [?n ..< ?n + ?k] = map (\<lambda>r. room_restored (w_room w r)) (w_rooms w)"
    using f(2) by (simp add: comp_def)
  moreover have "f r = w_room v r \<or> f r \<in> (\<lambda>r. room_restored (w_room w r)) ` set (w_rooms w)" for r
    using f(3) [rule_format, of r] room [of r] index [of r] nth_mem [of "r - ?n" "w_rooms w"]
    by (cases "?n \<le> r \<and> r < ?n + ?k") auto
  ultimately show ?thesis using load f(1) by (intro exI [of _ ?v']) simp
qed

end
