(* ===== verification/WireFacts.thy ===== *)
theory WireFacts
  imports SaveFacts
begin

text \<open>
  What the server writes to a socket it could read itself: the packet is the one written,
  but for the fields that no client may set.
\<close>

subsection \<open>The laws of the JSON library\<close>

text \<open>
  Besides \<open>json_laws\<close>: members are found, numbers in range come back, a member that is not
  there converts to the empty string and to \<open>false\<close>, and the parser reads what was written.
\<close>

definition wire_laws :: "('j, 'x) env \<Rightarrow> bool" where
  "wire_laws E \<longleftrightarrow> (let J = e_json E in
     json_laws J \<and>
     (\<forall>kvs k. j_isMember J (built J (j_null J) kvs) k \<longleftrightarrow> k \<in> fst ` set kvs) \<and>
     (\<forall>i. - (2 ^ 31) \<le> i \<and> i < 2 ^ 31 \<longrightarrow> j_asInt J (j_of_int J i) = Inr i) \<and>
     (\<forall>i. 0 \<le> i \<and> i < 2 ^ 64 \<longrightarrow> j_asUInt64 J (j_of_uint64 J i) = Inr i) \<and>
     j_asString J (j_null J) = Inr [] \<and> j_asBool J (j_null J) = Inr False \<and>
     (\<forall>v. j_parse J (j_write J v) = Some v))"

lemma wire_lawsD:
  assumes "wire_laws E"
  shows "json_laws (e_json E)"
    and "j_isMember (e_json E) (built (e_json E) (j_null (e_json E)) kvs) k \<longleftrightarrow> k \<in> fst ` set kvs"
    and "- (2 ^ 31) \<le> i \<Longrightarrow> i < 2 ^ 31 \<Longrightarrow> j_asInt (e_json E) (j_of_int (e_json E) i) = Inr i"
    and "0 \<le> t \<Longrightarrow> t < 2 ^ 64 \<Longrightarrow> j_asUInt64 (e_json E) (j_of_uint64 (e_json E) t) = Inr t"
    and "j_asString (e_json E) (j_null (e_json E)) = Inr []"
    and "j_asBool (e_json E) (j_null (e_json E)) = Inr False"
    and "j_parse (e_json E) (j_write (e_json E) v) = Some v"
  using assms by (auto simp: wire_laws_def Let_def)

subsection \<open>Packets as lists of members\<close>

definition seq_entries :: "'j jsoncpp \<Rightarrow> u32 option \<Rightarrow> (string \<times> 'j) list" where
  "seq_entries J seq = (case seq of None \<Rightarrow> [] | Some n \<Rightarrow> [(''sequenceId'', j_of_uint J n)])"

lemma built_append: "built J obj (xs @ ys) = built J (built J obj xs) ys"
  by (simp add: built_def)

lemma built_Cons: "j_set J (built J obj xs) k v = built J obj (xs @ [(k, v)])"
  by (simp add: built_def)

lemma base_built: "packet_serialize_base J seq = built J (j_null J) (seq_entries J seq)"
  by (simp add: packet_serialize_base_def seq_entries_def built_def split: option.split)

primrec type_of_packet :: "packet \<Rightarrow> packet_type" where
  "type_of_packet (Packet_Error p) = PT_error"
| "type_of_packet (Packet_System p) = PT_system"
| "type_of_packet (Packet_Message p) = PT_message"
| "type_of_packet (Packet_OnlineList p) = PT_online_list"
| "type_of_packet (Packet_Auth p) = PT_auth"
| "type_of_packet (Packet_Status p) = PT_status"
| "type_of_packet (Packet_Join p) = PT_join"
| "type_of_packet (Packet_Leave p) = PT_leave"
| "type_of_packet (Packet_CreateRoom p) = PT_create_room"
| "type_of_packet (Packet_RemoveRoom p) = PT_remove_room"
| "type_of_packet (Packet_Ping q) = PT_ping"

primrec packet_seq :: "packet \<Rightarrow> u32 option" where
  "packet_seq (Packet_Error p) = pe_sequenceId p"
| "packet_seq (Packet_System p) = ps_sequenceId p"
| "packet_seq (Packet_Message p) = pm_sequenceId p"
| "packet_seq (Packet_OnlineList p) = po_sequenceId p"
| "packet_seq (Packet_Auth p) = pa_sequenceId p"
| "packet_seq (Packet_Status p) = pt_sequenceId p"
| "packet_seq (Packet_Join p) = pj_sequenceId p"
| "packet_seq (Packet_Leave p) = pl_sequenceId p"
| "packet_seq (Packet_CreateRoom p) = pc_sequenceId p"
| "packet_seq (Packet_RemoveRoom p) = pr_sequenceId p"
| "packet_seq (Packet_Ping q) = q"

primrec packet_target :: "packet \<Rightarrow> string" where
  "packet_target (Packet_Error p) = pe_target p"
| "packet_target (Packet_System p) = ps_target p"
| "packet_target (Packet_Message p) = pm_target p"
| "packet_target (Packet_OnlineList p) = po_target p"
| "packet_target (Packet_Auth p) = []"
| "packet_target (Packet_Status p) = pt_target p"
| "packet_target (Packet_Join p) = pj_target p"
| "packet_target (Packet_Leave p) = pl_target p"
| "packet_target (Packet_CreateRoom p) = pc_target p"
| "packet_target (Packet_RemoveRoom p) = pr_target p"
| "packet_target (Packet_Ping q) = []"

text \<open>The members after the sequence id; the type comes second for messages.\<close>

primrec fields :: "'j jsoncpp \<Rightarrow> packet \<Rightarrow> (string \<times> 'j) list" where
  "fields J (Packet_Error p) = [(''type'', j_of_int J 0),
     (''source'', j_of_uint J (word_of_int (packet_type_code (pe_source p)))), (''target'', j_of_string J (pe_target p)),
     (''code'', j_of_uint J (error_code_num (pe_code p))), (''info'', j_of_string J (pe_info p))]"
| "fields J (Packet_System p) = [(''type'', j_of_int J 1), (''message'', j_of_string J (ps_message p)),
     (''target'', j_of_string J (ps_target p))]"
| "fields J (Packet_Message p) = [(''id'', j_of_string J (pm_id p)), (''type'', j_of_int J 2),
     (''target'', j_of_string J (pm_target p)), (''time'', j_of_uint64 J (pm_msgtime p)),
     (''color'', j_of_string J (pm_color p)), (''from_login'', j_of_string J (pm_from_login p)),
     (''from'', j_of_uint J (pm_from_id p)), (''to'', j_of_uint J (pm_to_id p)),
     (''style'', j_of_uint J (style_code (pm_style p))), (''message'', j_of_string J (pm_message p))]"
| "fields J (Packet_OnlineList p) = [(''type'', j_of_int J 3), (''target'', j_of_string J (po_target p)),
     (''list'', j_of_array J (map (status_serialize J) (po_list p)))]"
| "fields J (Packet_Auth p) = [(''type'', j_of_int J 4), (''user_id'', j_of_uint J (pa_user_id p)),
     (''name'', j_of_string J (pa_name p)), (''token'', j_of_string J (pa_token p))]"
| "fields J (Packet_Status p) = [(''type'', j_of_int J 5), (''target'', j_of_string J (pt_target p)),
     (''name'', j_of_string J (pt_name p)), (''status'', j_of_int J (status_code (pt_status p))),
     (''member_id'', j_of_uint J (pt_member_id p)), (''user_id'', j_of_uint J (pt_user_id p)),
     (''girl'', j_of_bool J (pt_girl p)), (''color'', j_of_string J (pt_color p)), (''data'', j_of_string J (pt_data p)),
     (''is_owner'', j_of_bool J (pt_is_owner p)), (''is_moder'', j_of_bool J (pt_is_moder p)),
     (''last_seen_time'', j_of_uint64 J (pt_last_seen_time p))]"
| "fields J (Packet_Join p) = [(''type'', j_of_int J 6), (''target'', j_of_string J (pj_target p)),
     (''member_id'', j_of_uint J (pj_member_id p)), (''login'', j_of_string J (pj_login p))]"
| "fields J (Packet_Leave p) = [(''type'', j_of_int J 7), (''target'', j_of_string J (pl_target p))]"
| "fields J (Packet_CreateRoom p) = [(''type'', j_of_int J 8), (''target'', j_of_string J (pc_target p))]"
| "fields J (Packet_RemoveRoom p) = [(''type'', j_of_int J 9), (''target'', j_of_string J (pr_target p))]"
| "fields J (Packet_Ping q) = [(''type'', j_of_int J 10)]"

lemmas serialize_defs = error_serialize_def system_serialize_def message_serialize_def online_list_serialize_def
  auth_serialize_def status_serialize_def join_serialize_def leave_serialize_def create_room_serialize_def
  remove_room_serialize_def ping_serialize_def set_type_def

lemma packet_built: "packet_serialize J p = built J (j_null J) (seq_entries J (packet_seq p) @ fields J p)"
  by (cases p) (simp_all add: serialize_defs base_built Let_def built_Cons)

subsection \<open>Reading\<close>

text \<open>What is read of a packet that the server has written.\<close>

primrec received :: "('j, 'x) env \<Rightarrow> packet \<Rightarrow> packet" where
  "received E (Packet_Error p) = Packet_Error
     \<lparr>pe_sequenceId = pe_sequenceId p, pe_source = PT_error, pe_target = [], pe_code = EC_unknown, pe_info = []\<rparr>"
| "received E (Packet_System p) = Packet_System \<lparr>ps_sequenceId = ps_sequenceId p, ps_target = [], ps_message = []\<rparr>"
| "received E (Packet_Message p) = Packet_Message (p\<lparr>pm_id := [], pm_message := clean_message E (pm_message p),
     pm_color := [], pm_from_login := [], pm_from_id := 0, pm_style := Sty_message\<rparr>)"
| "received E (Packet_OnlineList p) = Packet_OnlineList \<lparr>po_sequenceId = None, po_target = po_target p, po_list = []\<rparr>"
| "received E (Packet_Auth p) = Packet_Auth \<lparr>pa_sequenceId = pa_sequenceId p, pa_ukey = [], pa_api_key = [],
     pa_user_id = 0, pa_name = [], pa_password = [], pa_token = pa_token p\<rparr>"
| "received E (Packet_Status p) = Packet_Status \<lparr>pt_sequenceId = pt_sequenceId p, pt_target = pt_target p,
     pt_status = status_of_int (status_code (pt_status p)), pt_member_id = 0, pt_user_id = 0, pt_girl = False,
     pt_color = [], pt_name = [], pt_data = [], pt_is_owner = False, pt_is_moder = False, pt_last_seen_time = 0\<rparr>"
| "received E (Packet_Join p) = Packet_Join \<lparr>pj_sequenceId = pj_sequenceId p, pj_target = pj_target p,
     pj_member_id = 0, pj_login = [], pj_auto_login = False, pj_load_history = False\<rparr>"
| "received E (Packet_Leave p) = Packet_Leave p"
| "received E (Packet_CreateRoom p) = Packet_CreateRoom p"
| "received E (Packet_RemoveRoom p) = Packet_RemoveRoom p"
| "received E (Packet_Ping q) = Packet_Ping q"

text \<open>Times are 64-bit numbers and statuses \<open>int\<close>s, as in the code.\<close>

primrec in_range :: "packet \<Rightarrow> bool" where
  "in_range (Packet_Error p) = True"
| "in_range (Packet_System p) = True"
| "in_range (Packet_Message p) = (0 \<le> pm_msgtime p \<and> pm_msgtime p < 2 ^ 64)"
| "in_range (Packet_OnlineList p) = True"
| "in_range (Packet_Auth p) = True"
| "in_range (Packet_Status p) = (- (2 ^ 31) \<le> status_code (pt_status p) \<and> status_code (pt_status p) < 2 ^ 31)"
| "in_range (Packet_Join p) = True"
| "in_range (Packet_Leave p) = True"
| "in_range (Packet_CreateRoom p) = True"
| "in_range (Packet_RemoveRoom p) = True"
| "in_range (Packet_Ping q) = True"

lemma packet_type_found: "packet_type_of_int (packet_type_code t) = Some t"
  by (cases t) (simp_all add: packet_type_of_int_def packet_types_def)

lemma type_found: "map_of (rev (seq_entries J seq @ fields J p)) ''type'' = Some (j_of_int J (packet_type_code (type_of_packet p)))"
  by (cases p) (simp_all add: seq_entries_def split: option.split)

lemma packet_round_trip:
  fixes E :: "('j, 'x) env"
  assumes E: "wire_laws E" and p: "in_range p"
  shows "packet_read E (wire E p) = Inr (Some (received E p))"
proof -
  let ?J = "e_json E" and ?obj = "packet_serialize (e_json E) p"
  note laws = wire_lawsD [OF E]
  note json = json_lawsD [OF laws(1)]
  have get: "j_get ?J ?obj k = Inr (case map_of (rev (seq_entries ?J (packet_seq p) @ fields ?J p)) k of
      None \<Rightarrow> j_null ?J | Some v \<Rightarrow> v)" for k
    unfolding packet_built by (rule json(1))
  have "packet_type_code (type_of_packet p) \<in> {0..10}" by (cases p) simp_all
  then have type: "get_int ?J ?obj ''type'' = Inr (packet_type_code (type_of_packet p))"
    by (simp only: get_int_def get type_found option.case bindS_simps) (simp add: laws(3))
  have "''sequenceId'' \<notin> fst ` set (fields ?J p)" by (cases p) simp_all
  then have member: "j_isMember ?J ?obj ''sequenceId'' \<longleftrightarrow> packet_seq p \<noteq> None"
    unfolding packet_built laws(2) by (auto simp: seq_entries_def split: option.split)
  have seq: "packet_deserialize_base ?J ?obj = Inr (packet_seq p)"
  proof (cases "packet_seq p")
    case (Some n)
    have "map_of (rev (seq_entries ?J (packet_seq p) @ fields ?J p)) ''sequenceId'' = Some (j_of_uint ?J n)"
      using Some by (cases p) (simp_all add: seq_entries_def)
    then show ?thesis
      using member by (simp add: packet_deserialize_base_def get_uint_def get json(5) Some)
  qed (use member in \<open>simp add: packet_deserialize_base_def\<close>)
  note defs = message_deserialize_def online_list_deserialize_def auth_deserialize_def status_deserialize_def
    join_deserialize_def leave_deserialize_def create_room_deserialize_def remove_room_deserialize_def
  have "packet_deserialize E (type_of_packet p) ?obj = Inr (received E p)"
    using p seq get by (cases p) (simp_all add: defs get_string_def get_uint_def get_uint64_def get_int_def get_bool_def
        json laws seq_entries_def split: option.split)
  then show ?thesis
    by (simp add: packet_read_def wire_def laws(7) type packet_type_found)
qed

end
