(* ===== verification/ServiceFacts.thy ===== *)
theory ServiceFacts
  imports Safety
begin

text \<open>
  What the wrappers of the outside services promise, and what a login can change.
\<close>

subsection \<open>Retrying\<close>

text \<open>\<open>ticks f n\<close>: one run of \<open>f\<close> adds between zero and \<open>n\<close> to the measure.\<close>

definition ticks :: "('x \<Rightarrow> nat) \<Rightarrow> nat \<Rightarrow> ('a, 'x) ext \<Rightarrow> bool" where
  "ticks \<mu> n f \<longleftrightarrow> (\<forall>x. \<mu> (snd (f x)) = \<mu> x + n)"

lemma retry_bound:
  assumes f: "ticks \<mu> 1 f" and rec: "ticks \<mu> 0 reconnect" and "tries < count"
  shows "\<mu> x < \<mu> (snd (retryWithReconnect reconnect count tries f x)) \<and>
    \<mu> (snd (retryWithReconnect reconnect count tries f x)) \<le> \<mu> x + nat (count - tries)"
  using assms(3)
proof (induction "nat (count - tries)" arbitrary: tries x rule: less_induct)
  case less
  obtain r x1 where fx: "f x = (r, x1)" by (cases "f x")
  have x1: "\<mu> x1 = \<mu> x + 1" using f fx unfolding ticks_def by (metis snd_conv)
  show ?case
  proof (cases "\<exists>x2. r = Inl Sql_exception \<and> tries + 1 < count \<and> reconnect x1 = (Inr (), x2)")
    case True
    then obtain x2 where r: "r = Inl Sql_exception" and lt: "tries + 1 < count"
      and x2: "reconnect x1 = (Inr (), x2)" by blast
    have "\<mu> x2 = \<mu> x1" using rec x2 unfolding ticks_def by (metis add_0_right snd_conv)
    moreover have "retryWithReconnect reconnect count tries f x
        = retryWithReconnect reconnect count (tries + 1) f x2"
      using fx r lt x2 by (subst retryWithReconnect.simps) simp
    moreover have "nat (count - tries) = Suc (nat (count - (tries + 1)))" using lt by linarith
    ultimately show ?thesis
      using less.hyps [of "tries + 1" x2] lt x1 by simp
  next
    case False
    have rec1: "\<mu> (snd (reconnect x1)) = \<mu> x1" using rec unfolding ticks_def by simp
    have "snd (retryWithReconnect reconnect count tries f x) \<in> {x1, snd (reconnect x1)}"
      using False fx
      by (subst retryWithReconnect.simps) (auto split: sum.splits prod.splits)
    then have "\<mu> (snd (retryWithReconnect reconnect count tries f x)) = \<mu> x + 1" using x1 rec1 by auto
    then show ?thesis using less.prems by simp
  qed
qed

lemma retry_first_success:
  "f x = (Inr a, y) \<Longrightarrow> retryWithReconnect reconnect count tries f x = (Inr a, y)"
  by (simp add: retryWithReconnect.simps)

lemma retry_recovers:
  assumes "f x = (Inl Sql_exception, x1)" and "reconnect x1 = (Inr (), x2)" and "f x2 = (Inr a, y)"
    and "tries + 1 < count"
  shows "retryWithReconnect reconnect count tries f x = (Inr a, y)"
  using assms by (subst retryWithReconnect.simps) (simp add: retry_first_success)

subsection \<open>The gate\<close>

text \<open>
  Redis answers a command with the wrong number of arguments with an error and does
  nothing; \<open>SETEX\<close> takes three.
\<close>

definition setex_arity :: "('j, 'x) env \<Rightarrow> bool" where
  "setex_arity E \<longleftrightarrow> (\<forall>args x. length args \<noteq> 3 \<longrightarrow> e_redis_command E ''SETEX'' args x = (Inr Reply_error, x))"

definition gate_key :: "string \<Rightarrow> string" where
  "gate_key ip = ''gate-auth-'' @ ip"

lemma gate_open:
  assumes "setex_arity E" and "e_redis_command E ''GET'' [gate_key ip] x = (Inr Reply_null, x)"
  shows "gate_auth E ip False x = (Inr True, x)"
proof -
  have get: "redis_get E istream_int (gate_key ip) x = (Inr None, x)"
    using assms(2) by (simp add: redis_get_def bindX_def retX_def)
  have set: "redis_set E (gate_key ip) 1 (5 * 60) x = (Inr False, x)"
    using assms(1) by (simp add: redis_set_def bindX_def retX_def setex_arity_def)
  show ?thesis
    using get set by (simp add: gate_auth_def gate_tries_def bindX_def retX_def gate_key_def Let_def)
qed

lemma gate_closed:
  assumes "e_redis_command E ''GET'' [gate_key ip] x = (Inr (Reply_ok s), y)" and "istream_int s \<ge> 4"
  shows "gate_auth E ip False x = (Inr False, y)"
  using assms
  by (simp add: gate_auth_def gate_tries_def redis_get_def bindX_def retX_def gate_key_def Let_def)

subsection \<open>Who a client is\<close>

definition identity :: "'x world \<Rightarrow> client_ptr \<Rightarrow> u32 \<times> string" where
  "identity w d = (c_uid (w_client w d), c_name (w_client w d))"

lemma identity_cong: "w_client w' = w_client w \<Longrightarrow> identity w' = identity w"
  by (simp add: identity_def fun_eq_iff)

lemma identity_setConnection: "identity (client_setConnection E c cno w) = identity w"
  by (auto simp: client_setConnection_def identity_def fun_eq_iff Let_def split: option.split)

lemma identity_simps [simp]:
  "identity (client_sendPacket E c p w) = identity w"
  "identity (client_sendRawData c d w) = identity w"
  "identity (closeConnection cn w) = identity w"
  "identity (member_setStatus m st w) = identity w"
  "identity (sendPacketToAll E r p w) = identity w"
  "identity (upd_room r f w) = identity w"
  "identity (decrementForIp ip fld w) = identity w"
  "identity (eraseConnection cn w) = identity w"
  "identity (snd (removeFromClients c w)) = identity w"
  "identity (w\<lparr>w_connectionToClient := x\<rparr>) = identity w"
  "identity (w\<lparr>w_ext := y\<rparr>) = identity w"
  "identity (room_eraseMember r m w) = identity w"
  by (auto intro!: identity_cong simp: member_setStatus_def decrementForIp_def eraseConnection_def
      removeFromClients_def room_eraseMember_def)

lemma identity_upd_rooms: "identity (upd_client c (\<lambda>cl. cl\<lparr>c_rooms := f cl\<rparr>) w) = identity w"
  by (simp add: identity_def fun_eq_iff)

lemma identity_removeMember: "room_removeMember E r c w = Inr w' \<Longrightarrow> identity w' = identity w"
  by (auto simp: room_removeMember_def bindS_Inr_iff Let_def)

lemma identity_onRemove:
  assumes "client_onRemove E c w = Inr w'"
  shows "identity w' = identity w"
proof -
  obtain w1 where w1: "foldR (\<lambda>r. room_removeMember E r c) (c_rooms (w_client w c)) w = Inr w1"
    and w': "w' = client_setConnection E c None (upd_client c (\<lambda>cl. cl\<lparr>c_rooms := []\<rparr>) w1)"
    using assms by (auto simp: client_onRemove_eq bindS_Inr_iff Let_def)
  have "identity w1 = identity w"
    by (rule foldR_invariant [OF _ w1]) (rule identity_removeMember)
  with w' show ?thesis by (simp add: identity_setConnection identity_upd_rooms)
qed

lemma identity_send_history: "identity (send_history c r w) = identity w"
  unfolding send_history_def by (rule fold_invariant_view) simp

lemma identity_onRevive:
  assumes "client_onRevive E c w = Inr w'"
  shows "identity w' = identity w"
proof -
  have step: "identity v' = identity v" if "revive_in_room E c r v = Inr v'" for r and v v' :: "'a world"
    using that by (auto simp: revive_in_room_def bindS_Inr_iff Let_def identity_send_history)
  have "identity w' = identity (upd_client c (\<lambda>cl. cl\<lparr>c_lastPacketTime := w_now w\<rparr>) w)"
    using assms unfolding client_onRevive_eq Let_def
    by (rule foldR_invariant [rotated]) (rule step)
  then show ?thesis by (simp add: identity_def fun_eq_iff)
qed

lemma identity_revive:
  assumes "server_reviveClient E cur targ w = Inr (b, w')"
  shows "identity w' = identity w"
  using assms
  by (auto simp: server_reviveClient_def manager_reviveClient_def bindS_Inr_iff Let_def
      dest!: identity_onRemove identity_onRevive split: option.splits if_splits)
    (simp_all add: identity_setConnection)

lemma identity_reply [simp]:
  "identity (auth_reply E c src p w) = identity w"
  "identity (auth_refuse E c p cod txt w) = identity w"
  "identity (auth_finish E c p w) = identity w"
  by (simp_all add: auth_reply_def auth_refuse_def auth_finish_def Let_def)

lemma identity_lift_ext: "lift_ext f w = (r, w') \<Longrightarrow> identity w' = identity w"
  by (auto simp: lift_ext_def split: prod.splits)

lemma identity_auth_failed: "identity (auth_failed E c p e w) = identity w"
  by (auto simp: auth_failed_def identity_lift_ext split: prod.split sum.split)

lemma identity_auth_uid: "auth_uid E c p cookie w = (r, w') \<Longrightarrow> identity w' = identity w"
  by (auto simp: auth_uid_def identity_lift_ext split: if_splits prod.splits sum.splits bool.splits option.splits)

lemma identity_initUser:
  "initUser c uid gid nm w = Inr w' \<Longrightarrow> identity w' = (identity w)(c := (word_of_int uid, nm))"
  by (auto simp: initUser_def identity_def fun_eq_iff Let_def split: if_splits)

end
