(* ===== verification/Login.thy ===== *)
theory Login
  imports ServiceFacts
begin

text \<open>
  Who a login makes of a client. The credentials of a request are taken in order: a one-time key, an
  API key, and, when there is no login with a password, the session of the cookie name an account; the
  row of this account, or else the row for the login and the password, is who the client becomes.
  Each step starts in the state of the outside services that the step before has left.
\<close>

subsection \<open>The account that the credentials name\<close>

inductive names_account :: "('j, 'x) env \<Rightarrow> string \<Rightarrow> string option \<Rightarrow> packet_auth \<Rightarrow> 'x \<Rightarrow> int \<Rightarrow> 'x \<Rightarrow> bool"
  for E ip hdr p where
  token: "pa_token p \<noteq> [] \<Longrightarrow> names_account E ip hdr p x 0 x"
| key: "pa_token p = [] \<Longrightarrow> pa_ukey p \<noteq> [] \<Longrightarrow>
    redis_get E istream_int (''chat-key-'' @ pa_ukey p) x = (Inr (Some n), y) \<Longrightarrow> names_account E ip hdr p x n y"
| no_key: "pa_token p = [] \<Longrightarrow> pa_ukey p \<noteq> [] \<Longrightarrow>
    redis_get E istream_int (''chat-key-'' @ pa_ukey p) x = (Inr None, y) \<Longrightarrow> names_account E ip hdr p x 0 y"
| api_key: "pa_token p = [] \<Longrightarrow> pa_ukey p = [] \<Longrightarrow> pa_api_key p \<noteq> [] \<Longrightarrow>
    gate_auth E ip False x = (Inr True, x1) \<Longrightarrow> db_getUserIdByApiKey E (pa_api_key p) x1 = (Inr (Some n), x2) \<Longrightarrow>
    gate_auth E ip True x2 = (Inr b, y) \<Longrightarrow> names_account E ip hdr p x n y"
| no_api_key: "pa_token p = [] \<Longrightarrow> pa_ukey p = [] \<Longrightarrow> pa_api_key p \<noteq> [] \<Longrightarrow>
    gate_auth E ip False x = (Inr True, x1) \<Longrightarrow> db_getUserIdByApiKey E (pa_api_key p) x1 = (Inr None, y) \<Longrightarrow>
    names_account E ip hdr p x 0 y"
| login: "pa_token p = [] \<Longrightarrow> pa_ukey p = [] \<Longrightarrow> pa_api_key p = [] \<Longrightarrow> pa_name p \<noteq> [] \<Longrightarrow> pa_password p \<noteq> [] \<Longrightarrow>
    names_account E ip hdr p x 0 x"
| session: "pa_token p = [] \<Longrightarrow> pa_ukey p = [] \<Longrightarrow> pa_api_key p = [] \<Longrightarrow> pa_name p = [] \<or> pa_password p = [] \<Longrightarrow>
    hdr = Some ck \<Longrightarrow> e_cookie E ck ''sinid'' = Some sid \<Longrightarrow>
    redis_getJson E (''session:'' @ sid) x = (Inr (Some js), y) \<Longrightarrow> j_isMember (e_json E) js ''user_id'' \<Longrightarrow>
    get_string (e_json E) js ''user_id'' = Inr s \<Longrightarrow> e_stoi E s = Inr n \<Longrightarrow> names_account E ip hdr p x n y"

text \<open>The row that the client becomes.\<close>

inductive proves :: "('j, 'x) env \<Rightarrow> string \<Rightarrow> string option \<Rightarrow> packet_auth \<Rightarrow> 'x \<Rightarrow> db_user_info \<Rightarrow> bool"
  for E ip hdr p where
  account: "names_account E ip hdr p x n y \<Longrightarrow> n \<noteq> 0 \<Longrightarrow> db_getUserByUid E n y = (Inr (Some u), z) \<Longrightarrow>
    proves E ip hdr p x u"
| password: "names_account E ip hdr p x 0 y \<Longrightarrow> pa_name p \<noteq> [] \<Longrightarrow> pa_password p \<noteq> [] \<Longrightarrow>
    gate_auth E ip False y = (Inr True, y1) \<Longrightarrow>
    db_getUserByLoginAndPassword E (pa_name p) (pa_password p) y1 = (Inr (Some u), z) \<Longrightarrow> proves E ip hdr p x u"

text \<open>
  A login with Redis at hand and without a client to take up: the row its credentials prove,
  from the address of the client and the cookies of its connection.
\<close>

definition logs_in :: "('j, 'x) env \<Rightarrow> client_ptr \<Rightarrow> packet_auth \<Rightarrow> 'x world \<Rightarrow> db_user_info \<Rightarrow> bool" where
  "logs_in E c p w u \<longleftrightarrow> (\<exists>x. bindX (redis_new E) (\<lambda>_. redis_new E) (w_ext w) = (Inr (), x)
     \<and> revive_target w c p = None
     \<and> proves E (c_lastClientIP (w_client w c))
         (case c_connection (w_client w c) of None \<Rightarrow> None | Some cn \<Rightarrow> e_header E cn ''Cookie'') p x u)"

subsection \<open>The code names this account\<close>

lemma lift_ext_eq: "f (w_ext w) = (r, x) \<Longrightarrow> lift_ext f w = (r, w\<lparr>w_ext := x\<rparr>)"
  by (simp add: lift_ext_def)

lemma bindX_eq: "bindX f g x = (case f x of (Inl e, y) \<Rightarrow> (Inl e, y) | (Inr a, y) \<Rightarrow> g a y)"
  by (simp add: bindX_def)

definition needs_cookie :: "packet_auth \<Rightarrow> bool" where
  "needs_cookie p \<longleftrightarrow> pa_token p = [] \<and> pa_ukey p = [] \<and> pa_api_key p = [] \<and> (pa_name p = [] \<or> pa_password p = [])"

lemma auth_uid_names:
  assumes "names_account E (c_lastClientIP (w_client w c)) hdr p (w_ext w) n y"
    and "needs_cookie p \<Longrightarrow> cookie = hdr"
  shows "auth_uid E c p cookie w = (Inr (Some n), w\<lparr>w_ext := y\<rparr>)"
  using assms
  by (cases rule: names_account.cases)
    (auto simp: auth_uid_def lift_ext_def bindX_eq retX_def session_uid_def needs_cookie_def)

lemma auth_uid_named:
  assumes "auth_uid E c p cookie w = (Inr (Some n), w1)" and "needs_cookie p \<Longrightarrow> cookie = hdr"
  shows "(\<exists>y. w1 = w\<lparr>w_ext := y\<rparr> \<and> names_account E (c_lastClientIP (w_client w c)) hdr p (w_ext w) n y)
    \<or> n = 0 \<and> needs_cookie p"
proof -
  let ?N = "names_account E (c_lastClientIP (w_client w c)) hdr p (w_ext w)"
  consider "pa_token p \<noteq> []" | "pa_token p = []" "pa_ukey p \<noteq> []" | "pa_token p = []" "pa_ukey p = []" "pa_api_key p \<noteq> []"
    | "pa_token p = []" "pa_ukey p = []" "pa_api_key p = []" "pa_name p \<noteq> []" "pa_password p \<noteq> []" | "needs_cookie p"
    unfolding needs_cookie_def by blast
  then show ?thesis
  proof cases
    case 1
    then show ?thesis
      using assms(1) names_account.token [OF 1, of E _ hdr "w_ext w"]
      by (intro disjI1 exI [of _ "w_ext w"]) (auto simp: auth_uid_def)
  next
    case 2
    then show ?thesis
      using assms(1) names_account.key [OF 2] names_account.no_key [OF 2]
      by (intro disjI1 exI [of _ "w_ext w1"]) (auto simp: auth_uid_def lift_ext_def bindX_eq retX_def split: prod.splits sum.splits option.splits)
  next
    case 3
    then show ?thesis
      using assms(1) names_account.api_key [OF 3] names_account.no_api_key [OF 3]
      by (intro disjI1 exI [of _ "w_ext w1"]) (auto simp: auth_uid_def lift_ext_def bindX_eq retX_def split: prod.splits sum.splits option.splits bool.splits)
  next
    case 4
    then show ?thesis
      using assms(1) names_account.login [OF 4, of E _ hdr "w_ext w"]
      by (intro disjI1 exI [of _ "w_ext w"]) (auto simp: auth_uid_def)
  next
    case 5
    then have c: "pa_token p = []" "pa_ukey p = []" "pa_api_key p = []" "pa_name p = [] \<or> pa_password p = []"
      by (simp_all add: needs_cookie_def)
    have "cookie = hdr" by (rule assms(2) [OF 5])
    with assms(1) c names_account.session [OF c] 5 show ?thesis
      by (cases "n = 0", simp, intro disjI1 exI [of _ "w_ext w1"])
        (auto simp: auth_uid_def lift_ext_def bindX_eq retX_def throwX_def session_uid_def bindS_Inr_iff
          split: prod.splits sum.splits option.splits if_splits)
  qed
qed

subsection \<open>The code looks its row up\<close>

lemma db_getUserByUid_uid:
  assumes "db_getUserByUid E uid x = (Inr (Some u), y)"
  shows "du_uid u = uid"
  using assms
  by (auto simp: db_getUserByUid_def postgres_getUserByUid_def mysql_getUserByUid_def retX_def
      split: if_splits list.splits dest!: bindX_Inr one_row_Some)

lemma initUser_index: "initUser c uid gid nm w = (if gid < 0 then Inl BadIndex else
    Inr (upd_client c (\<lambda>cl. cl\<lparr>c_uid := word_of_int uid, c_name := nm, c_isGirl := (gid = 4),
      c_color := colors ! nat (if gid < 5 then gid else 2)\<rparr>) w))"
  by (simp add: initUser_def Let_def colors_def)

definition becomes :: "client_ptr \<Rightarrow> db_user_info \<Rightarrow> 'x world \<Rightarrow> 'x world \<Rightarrow> bool" where
  "becomes c u w w' \<longleftrightarrow> identity w' = (identity w)(c := (word_of_int (du_uid u), du_login u))"

text \<open>What \<open>auth_login\<close> does with the row, and without one.\<close>

definition login_outcome :: "client_ptr \<Rightarrow> db_user_info option \<Rightarrow> 'x world \<Rightarrow> ((exn + bool) \<times> 'x world) result \<Rightarrow> bool" where
  "login_outcome c r w res \<longleftrightarrow> (case r of
     None \<Rightarrow> \<exists>q w'. res = Inr (q, w') \<and> identity w' = identity w
   | Some u \<Rightarrow> if du_gid u < 0 then res = Inl BadIndex else \<exists>q w'. res = Inr (q, w') \<and> becomes c u w w')"

lemma becomes_initUser:
  "initUser c (du_uid u) gid (du_login u) w1 = Inr w2 \<Longrightarrow> identity w1 = identity w \<Longrightarrow> identity w3 = identity w2 \<Longrightarrow> becomes c u w w3"
  by (simp add: becomes_def identity_initUser)

lemma login_outcome_account:
  assumes "n \<noteq> 0"
  shows "\<exists>r. login_outcome c r w (auth_login E c p n w) \<and> (\<forall>u. r = Some u \<longleftrightarrow> (\<exists>z. db_getUserByUid E n (w_ext w) = (Inr (Some u), z)))"
proof -
  obtain q x where q: "db_getUserByUid E n (w_ext w) = (q, x)" by fastforce
  have l: "lift_ext (db_getUserByUid E n) w = (q, w\<lparr>w_ext := x\<rparr>)" by (rule lift_ext_eq) (rule q)
  show ?thesis
  proof (cases "\<exists>u. q = Inr (Some u)")
    case True
    then obtain u where u: "q = Inr (Some u)" by blast
    have n: "du_uid u = n" using db_getUserByUid_uid [OF q [unfolded u]] .
    have "login_outcome c (Some u) w (auth_login E c p n w)"
      using assms l u n
      by (cases "initUser c (du_uid u) (du_gid u) (du_login u) (w\<lparr>w_ext := x\<rparr>)")
        (auto simp: login_outcome_def auth_login_def initUser_index becomes_initUser [OF _ _ refl] split: if_splits)
    then show ?thesis using q u by (intro exI [of _ "Some u"]) auto
  next
    case False
    then have "login_outcome c None w (auth_login E c p n w)"
      using assms l by (auto simp: login_outcome_def auth_login_def split: sum.splits option.splits)
    then show ?thesis using q False by (intro exI [of _ None]) auto
  qed
qed

lemma login_outcome_password:
  assumes "pa_name p \<noteq> []" and "pa_password p \<noteq> []"
  shows "\<exists>r. login_outcome c r w (auth_login E c p 0 w) \<and> (\<forall>u. r = Some u \<longleftrightarrow>
    (\<exists>y z. gate_auth E (c_lastClientIP (w_client w c)) False (w_ext w) = (Inr True, y)
       \<and> db_getUserByLoginAndPassword E (pa_name p) (pa_password p) y = (Inr (Some u), z)))"
proof -
  let ?gate = "gate_auth E (c_lastClientIP (w_client w c))" and ?db = "db_getUserByLoginAndPassword E (pa_name p) (pa_password p)"
  obtain g y where g: "?gate False (w_ext w) = (g, y)" by fastforce
  have lg: "lift_ext (?gate False) w = (g, w\<lparr>w_ext := y\<rparr>)" by (rule lift_ext_eq) (rule g)
  obtain q x where q: "?db y = (q, x)" by fastforce
  have lq: "lift_ext ?db (w\<lparr>w_ext := y\<rparr>) = (q, w\<lparr>w_ext := x\<rparr>)" using lift_ext_eq [of ?db "w\<lparr>w_ext := y\<rparr>"] q by simp
  show ?thesis
  proof (cases "g = Inr True \<and> (\<exists>u. q = Inr (Some u))")
    case True
    then obtain u where u: "g = Inr True" "q = Inr (Some u)" by blast
    let ?i = "initUser c (du_uid u) (du_gid u) (du_login u) (w\<lparr>w_ext := x\<rparr>)"
    have run: "auth_login E c p 0 w = bindS ?i (\<lambda>w. Inr (case lift_ext (?gate True) w of
        (Inl e, w) \<Rightarrow> (Inl e, w) | (Inr _, w) \<Rightarrow> (Inr False, w)))"
      using assms lg lq u by (simp add: auth_login_def Let_def)
    have "login_outcome c (Some u) w (auth_login E c p 0 w)"
    proof (cases ?i)
      case (Inl f)
      then show ?thesis by (simp add: run login_outcome_def initUser_index split: if_splits)
    next
      case (Inr v)
      obtain b v' where b: "lift_ext (?gate True) v = (b, v')" by fastforce
      have "becomes c u w v'" by (rule becomes_initUser [OF Inr]) (simp_all add: identity_lift_ext [OF b])
      moreover have "\<not> du_gid u < 0" using Inr by (simp add: initUser_index split: if_splits)
      ultimately show ?thesis by (auto simp: run Inr b login_outcome_def split: sum.split)
    qed
    then show ?thesis using g q u by (intro exI [of _ "Some u"]) auto
  next
    case False
    then have "login_outcome c None w (auth_login E c p 0 w)"
      using assms lg lq by (auto simp: login_outcome_def auth_login_def Let_def split: sum.splits option.splits bool.splits)
    then show ?thesis using g q False by (intro exI [of _ None]) auto
  qed
qed

lemma login_row:
  assumes uid: "auth_uid E c p cookie w = (Inr (Some n), w1)" and cookie: "needs_cookie p \<Longrightarrow> cookie = hdr"
  shows "\<exists>r. login_outcome c r w1 (auth_login E c p n w1)
    \<and> (\<forall>u. r = Some u \<longleftrightarrow> proves E (c_lastClientIP (w_client w c)) hdr p (w_ext w) u)"
proof -
  let ?ip = "c_lastClientIP (w_client w c)"
  have only: "k = n \<and> y = w_ext w1" if "names_account E ?ip hdr p (w_ext w) k y" for k y
    using auth_uid_names [OF that cookie] uid by simp
  consider (account) y where "n \<noteq> 0" "w1 = w\<lparr>w_ext := y\<rparr>" "names_account E ?ip hdr p (w_ext w) n y"
    | (password) y where "n = 0" "pa_name p \<noteq> []" "pa_password p \<noteq> []" "w1 = w\<lparr>w_ext := y\<rparr>" "names_account E ?ip hdr p (w_ext w) 0 y"
    | (nobody) "n = 0" "pa_name p = [] \<or> pa_password p = []"
    using auth_uid_named [OF uid cookie] by (auto simp: needs_cookie_def)
  then show ?thesis
  proof cases
    case (account y)
    from login_outcome_account [OF this(1), of c w1 E p] obtain r where
      r: "login_outcome c r w1 (auth_login E c p n w1)" "\<And>u. r = Some u \<longleftrightarrow> (\<exists>z. db_getUserByUid E n y = (Inr (Some u), z))"
      using account(2) by auto
    have "r = Some u \<longleftrightarrow> proves E ?ip hdr p (w_ext w) u" for u
    proof
      show "r = Some u" if "proves E ?ip hdr p (w_ext w) u"
        using that account(1,2) r(2) only by cases auto
    qed (use account(1,3) r(2) in \<open>auto intro: proves.account\<close>)
    with r(1) show ?thesis by blast
  next
    case (password y)
    from login_outcome_password [OF this(2,3), of c w1 E] obtain r where
      r: "login_outcome c r w1 (auth_login E c p n w1)" "\<And>u. r = Some u \<longleftrightarrow> (\<exists>y1 z. gate_auth E ?ip False y = (Inr True, y1)
         \<and> db_getUserByLoginAndPassword E (pa_name p) (pa_password p) y1 = (Inr (Some u), z))"
      using password(1,4) by auto
    have "r = Some u \<longleftrightarrow> proves E ?ip hdr p (w_ext w) u" for u
    proof
      show "r = Some u" if "proves E ?ip hdr p (w_ext w) u"
        using that password(1,4) r(2) only by cases auto
    qed (use password(2,3,5) r(2) in \<open>auto intro: proves.password\<close>)
    with r(1) show ?thesis by blast
  next
    case nobody
    then have "\<not> proves E ?ip hdr p (w_ext w) u" for u using only by (auto elim!: proves.cases)
    moreover have "login_outcome c None w1 (auth_login E c p n w1)"
      using nobody by (auto simp: login_outcome_def auth_login_def)
    ultimately show ?thesis by (intro exI [of _ None]) simp
  qed
qed

subsection \<open>The outcome of a login\<close>

lemma proves_nobody:
  assumes "needs_cookie p"
  shows "\<not> proves E ip None p x u"
  using assms by (auto simp: needs_cookie_def elim!: proves.cases names_account.cases)

lemma auth_outcome:
  fixes w :: "'x world"
  shows "(\<exists>u. (\<forall>v. logs_in E c p w v \<longleftrightarrow> v = u) \<and> (if du_gid u < 0 then auth_process E c p w = Inl BadIndex
        else \<exists>w'. auth_process E c p w = Inr w' \<and> becomes c u w w'))
    \<or> (\<forall>u. \<not> logs_in E c p w u) \<and> ((\<exists>w'. auth_process E c p w = Inr w' \<and> identity w' = identity w)
        \<or> auth_process E c p w = Inl NullDeref \<or> (\<exists>t v. revive_target w c p = Some t \<and> view v = view w \<and> identity v = identity w
             \<and> auth_process E c p w = bindS (server_reviveClient E c t v) (\<lambda>(_, w). Inr w)))"
proof -
  obtain a x where a: "bindX (redis_new E) (\<lambda>_. redis_new E) (w_ext w) = (a, x)" by fastforce
  let ?w1 = "w\<lparr>w_ext := x\<rparr>"
  let ?hdr = "case c_connection (w_client w c) of None \<Rightarrow> None | Some cn \<Rightarrow> e_header E cn ''Cookie''"
  have l: "lift_ext (bindX (redis_new E) (\<lambda>_. redis_new E)) w = (a, ?w1)" by (rule lift_ext_eq) (rule a)
  have target: "revive_target ?w1 c p = revive_target w c p" by (simp add: revive_target_def findClientByToken_def)
  show ?thesis
  proof (cases "(\<exists>e. a = Inl e) \<or> revive_target w c p \<noteq> None")
    case True
    then have "\<not> logs_in E c p w u" for u using a by (auto simp: logs_in_def)
    moreover have "(\<exists>w'. auth_process E c p w = Inr w' \<and> identity w' = identity w)
        \<or> (\<exists>t v. revive_target w c p = Some t \<and> view v = view w \<and> identity v = identity w
             \<and> auth_process E c p w = bindS (server_reviveClient E c t v) (\<lambda>(_, w). Inr w))"
    proof (cases a)
      case (Inl e)
      then show ?thesis by (simp add: auth_process_def l)
    next
      case (Inr b)
      then obtain t where t: "revive_target w c p = Some t" using True by auto
      have "view (auth_reply E c t p ?w1) = view w" "identity (auth_reply E c t p ?w1) = identity w"
        using lift_ext_view [OF l] by (simp_all add: view_simps)
      then show ?thesis using t target by (auto simp: auth_process_def l Inr)
    qed
    ultimately show ?thesis by blast
  next
    case False
    then have a: "a = Inr ()" and none: "revive_target w c p = None" by (cases a; simp)+
    then have logs: "logs_in E c p w u \<longleftrightarrow> proves E (c_lastClientIP (w_client ?w1 c)) ?hdr p (w_ext ?w1) u" for u
      using \<open>bindX _ _ _ = _\<close> by (simp add: logs_in_def)
    have run: "auth_process E c p w = bindS (auth_cookie E c p ?w1) (\<lambda>cookie. case auth_uid E c p cookie ?w1 of
                 (Inl e, w) \<Rightarrow> Inr (auth_failed E c p e w)
               | (Inr None, w) \<Rightarrow> Inr w
               | (Inr (Some uid), w) \<Rightarrow> bindS (auth_login E c p uid w) (\<lambda>(r, w).
                   Inr (case r of Inl e \<Rightarrow> auth_failed E c p e w | Inr True \<Rightarrow> w | Inr False \<Rightarrow> auth_finish E c p w)))"
      by (simp add: auth_process_def l a target none)
    show ?thesis
    proof (cases "auth_cookie E c p ?w1")
      case (Inl f)
      then have "needs_cookie p" "f = NullDeref" "?hdr = None"
        by (auto simp: auth_cookie_def needs_cookie_def deref_def split: if_splits option.splits)
      moreover from this(1) have "\<not> proves E (c_lastClientIP (w_client w c)) None p x u" for u by (rule proves_nobody)
      ultimately show ?thesis by (simp add: run Inl logs)
    next
      case (Inr cookie)
      then have cookie: "needs_cookie p \<Longrightarrow> cookie = ?hdr"
        by (auto simp: auth_cookie_def needs_cookie_def deref_def split: if_splits option.splits)
      obtain q w2 where q: "auth_uid E c p cookie ?w1 = (q, w2)" by fastforce
      note same = identity_auth_uid [OF q]
      show ?thesis
      proof (cases "\<exists>n. q = Inr (Some n)")
        case True
        then obtain n where n: "q = Inr (Some n)" by blast
        obtain r where r: "login_outcome c r w2 (auth_login E c p n w2)" "\<And>u. r = Some u \<longleftrightarrow> logs_in E c p w u"
          using login_row [OF q [unfolded n] cookie] unfolding logs by blast
        have ran: "\<exists>v. auth_process E c p w = Inr v \<and> identity v = identity w'"
          if "auth_login E c p n w2 = Inr (b, w')" for b w'
          using that by (simp add: run Inr q n identity_auth_failed split: sum.split bool.split)
        show ?thesis
        proof (cases r)
          case None
          then obtain b w' where "auth_login E c p n w2 = Inr (b, w')" "identity w' = identity w2"
            using r(1) by (auto simp: login_outcome_def)
          then show ?thesis using ran r(2) None same by fastforce
        next
          case (Some u)
          have u: "\<forall>v. logs_in E c p w v \<longleftrightarrow> v = u" unfolding r(2) [symmetric] Some by auto
          have "if du_gid u < 0 then auth_process E c p w = Inl BadIndex
              else \<exists>w'. auth_process E c p w = Inr w' \<and> becomes c u w w'"
          proof (cases "du_gid u < 0")
            case True
            then have "auth_login E c p n w2 = Inl BadIndex" using r(1) Some by (simp add: login_outcome_def)
            then show ?thesis using True by (simp add: run Inr q n)
          next
            case False
            then obtain b w' where "auth_login E c p n w2 = Inr (b, w')" and u': "becomes c u w2 w'"
              using r(1) Some by (auto simp: login_outcome_def)
            with ran obtain v where "auth_process E c p w = Inr v" "identity v = identity w'" by blast
            with u' same False show ?thesis by (auto simp: becomes_def)
          qed
          with u show ?thesis by blast
        qed
      next
        case False
        have "\<not> names_account E (c_lastClientIP (w_client ?w1 c)) ?hdr p (w_ext ?w1) n y" for n y
          using False q auth_uid_names [of E ?w1 c ?hdr p n y cookie, OF _ cookie] by auto
        then have "\<not> logs_in E c p w u" for u unfolding logs by (auto elim: proves.cases)
        then show ?thesis
          using False q same by (auto simp: run Inr identity_auth_failed split: sum.splits option.splits)
      qed
    qed
  qed
qed

lemma logs_in_unique: "logs_in E c p w u \<Longrightarrow> logs_in E c p w v \<Longrightarrow> u = v"
  using auth_outcome [of E c p w] by (elim disjE exE conjE) simp_all

lemma logs_in_runs: "logs_in E c p w u \<Longrightarrow> \<not> du_gid u < 0 \<Longrightarrow> \<exists>w'. auth_process E c p w = Inr w'"
  using auth_outcome [of E c p w] by (elim disjE exE conjE) auto

lemma auth_identity:
  assumes run: "auth_process E c p w = Inr w'"
  shows "logs_in E c p w u \<Longrightarrow> becomes c u w w'" and "(\<And>u. \<not> logs_in E c p w u) \<Longrightarrow> identity w' = identity w"
proof -
  have "(\<forall>u. logs_in E c p w u \<longrightarrow> becomes c u w w') \<and> ((\<forall>u. \<not> logs_in E c p w u) \<longrightarrow> identity w' = identity w)"
    using auth_outcome [of E c p w] run
    by (elim disjE exE conjE) (auto simp: bindS_Inr_iff dest: identity_revive split: if_splits)
  then show "logs_in E c p w u \<Longrightarrow> becomes c u w w'" and "(\<And>u. \<not> logs_in E c p w u) \<Longrightarrow> identity w' = identity w"
    by blast+
qed

text \<open>In a consistent state a login goes wrong only by the group of the row, and then it does.\<close>

lemma auth_bad_index:
  assumes ok: "server_ok E w" and c: "c \<in> set (w_clients w)" and cn: "c_connection (w_client w c) = Some cn"
  shows "auth_process E c p w = Inl BadIndex \<longleftrightarrow> (\<exists>u. logs_in E c p w u \<and> du_gid u < 0)"
proof -
  have revived: "bindS (server_reviveClient E c t v) (\<lambda>(_, w). Inr w) \<noteq> Inl BadIndex"
    if t: "revive_target w c p = Some t" and v: "view v = view w" for t v
  proof -
    have "t \<in> set (w_clients w)"
      using revive_target_Some(1) [OF t] tables_okD(4) [OF server_okD(2) [OF ok]] by blast
    then have "c \<in> set (w_clients v)" "t \<in> set (w_clients v)" "c_connection (w_client v c) = Some cn"
      using c cn by (simp_all add: view_eqD [OF v])
    from server_reviveClient_ok [OF server_ok_view [OF v ok] this(1,2) revive_target_Some(2) [OF t, symmetric] this(3)]
    show ?thesis by auto
  qed
  from auth_outcome [of E c p w] show ?thesis
  proof (elim disjE exE conjE)
    fix u assume "\<forall>v. logs_in E c p w v \<longleftrightarrow> v = u" and "if du_gid u < 0 then auth_process E c p w = Inl BadIndex
        else \<exists>w'. auth_process E c p w = Inr w' \<and> becomes c u w w'"
    then show ?thesis by (auto split: if_splits)
  qed (use revived in auto)
qed

lemma packet_bad_index:
  assumes ok: "server_ok E w" and c: "c \<in> set (w_clients w)" and cn: "c_connection (w_client w c) = Some cn"
  shows "packet_process E c p w = Inl BadIndex \<longleftrightarrow> (\<exists>q u. p = Packet_Auth q \<and> logs_in E c q w u \<and> du_gid u < 0)"
proof -
  note cok = server_okD(1) [OF ok]
  have fine: "res \<noteq> Inl BadIndex" if "okR P res" for P :: "'b world \<Rightarrow> bool" and res
    using that by auto
  show ?thesis
    using fine [OF message_process_ok [OF cok]] fine [OF join_process_ok [OF cok c]] fine [OF leave_process_ok [OF cok]]
      fine [OF remove_room_process_ok [OF cok]] auth_bad_index [OF assms]
    by (cases p) simp_all
qed

definition bad_login :: "('j, 'x) env \<Rightarrow> 'x world \<Rightarrow> 'x event \<Rightarrow> bool" where
  "bad_login E w ev \<longleftrightarrow> (\<exists>cn msg c p u. ev = Message cn msg \<and> w_connectionToClient w cn = Some c
     \<and> packet_read E msg = Inr (Some (Packet_Auth p)) \<and> logs_in E c p w u \<and> du_gid u < 0)"

lemma on_message_bad_index:
  assumes inv: "server_inv E w"
  shows "on_message E cn msg w = Inl BadIndex \<longleftrightarrow> bad_login E w (Message cn msg)"
proof (cases "w_connectionToClient w cn")
  case None
  then show ?thesis by (simp add: on_message_def findClientByConnection_def bad_login_def)
next
  case (Some c)
  let ?w = "upd_client c (\<lambda>cl. cl\<lparr>c_lastPacketTime := w_now w\<rparr>) w"
  have v: "view ?w = view w" by (simp add: view_upd_client client_view_def)
  have mem: "c \<in> set (w_clients ?w)" "c_connection (w_client ?w c) = Some cn"
    using connection_client [OF inv Some] by simp_all
  note idx = packet_bad_index [OF server_ok_view [OF v invD(1) [OF inv]] mem]
  have same: "logs_in E c p ?w u = logs_in E c p w u" for p u
    by (simp add: logs_in_def revive_target_def findClientByToken_def)
  have run: "on_message E cn msg w = Inl BadIndex \<longleftrightarrow> (\<exists>p. packet_read E msg = Inr (Some p) \<and> packet_process E c p ?w = Inl BadIndex)"
  proof (cases "packet_read E msg")
    case (Inr po)
    then show ?thesis
      by (cases po; cases "packet_process E c (the po) ?w")
        (auto simp: on_message_def findClientByConnection_def Some client_onPacket_def)
  qed (simp add: on_message_def findClientByConnection_def Some client_onPacket_def)
  show ?thesis unfolding run idx same using Some by (auto simp: bad_login_def)
qed

lemma handle_bad_index:
  assumes inv: "server_inv E w" and "admissible w ev"
  shows "handle E ev w = Inl BadIndex \<longleftrightarrow> bad_login E w ev"
proof (cases ev)
  case (Opened cn)
  with assms(2) on_open_inv [OF inv, of cn] show ?thesis by (cases "handle E ev w") (auto simp: bad_login_def)
next
  case (Closed cn stat)
  with on_close_inv [OF inv, of cn stat] show ?thesis by (auto simp: bad_login_def)
next
  case (Failed cn)
  with on_error_inv [OF inv, of cn] show ?thesis by (auto simp: bad_login_def)
next
  case Timer
  with on_tick_inv [OF inv] show ?thesis by (auto simp: bad_login_def)
qed (use on_message_bad_index [OF inv] in \<open>simp_all add: bad_login_def\<close>)

end
