(* ===== verification/ConnectionFacts.thy ===== *)
theory ConnectionFacts
  imports Safety
begin

text \<open>
  Connections from the outside: who is accepted, what a closed connection leaves behind, and
  how a returning client takes its place again.
\<close>

subsection \<open>Opening\<close>

text \<open>
  The random source keeps to its bounds and never gets stuck: wherever it is, a later key is not
  the token of a client.
\<close>

definition fresh_tokens :: "('j, 'x) env \<Rightarrow> 'x world \<Rightarrow> bool" where
  "fresh_tokens E w \<longleftrightarrow> random_laws E \<and>
     (\<forall>pos. \<exists>k. w_tokenToClient w (keygen_generate E tokenLength (pos + k * tokenLength)) = None)"

lemma open_refused:
  assumes "server_inv E w" and "connections_at w (getRealClientIp E cn) \<ge> 5"
  shows "on_open E cn w = Inr (closeConnection cn w)"
  using assms(2) by (simp add: on_open_eq [OF invD(1) [OF assms(1)]] maxConnectionsFromIp_def Let_def)

definition accepted :: "('j, 'x) env \<Rightarrow> conn \<Rightarrow> 'x world \<Rightarrow> 'x world \<Rightarrow> bool" where
  "accepted E cn w w' \<longleftrightarrow>
     (let c = w_nextClient w; tok = c_token (w_client w' c)
      in c \<in> set (w_clients w') \<and> findClientByConnection w' cn = Some c \<and> c_connection (w_client w' c) = Some cn
         \<and> c_lastClientIP (w_client w' c) = getRealClientIp E cn
         \<and> c_rooms (w_client w' c) = [] \<and> client_isGuest (w_client w' c)
         \<and> length tok = 64 \<and> set tok \<subseteq> set key_alphabet \<and> findClientByToken w' tok = Some c)"

lemma connect_accepted:
  assumes inv: "server_inv E w" and cn: "w_connectionToClient w cn = None" and fresh: "fresh_tokens E w"
  shows "\<exists>w'. manager_connect E cn w = Inr w' \<and> accepted E cn w w'
    \<and> set (w_clients w') = insert (w_nextClient w) (set (w_clients w))"
proof -
  obtain k where "w_tokenToClient w (keygen_generate E tokenLength (w_random w + k * tokenLength)) = None"
    using fresh unfolding fresh_tokens_def by blast
  then obtain w' where w': "manager_connect E cn w = Inr w'" using manager_connect_total by blast
  from manager_connect_ok [OF invD(1) [OF inv] cn w'] obtain tok p where
    con: "w' = connected E cn tok p w" "length tok = tokenLength" "\<exists>k. tok = keygen_generate E tokenLength k" by blast
  have "set tok \<subseteq> set key_alphabet"
    using con(3) fresh keygen_in_alphabet [of E] by (auto simp: fresh_tokens_def)
  then have "accepted E cn w w'"
    using con(2)
    by (simp add: accepted_def con(1) connected_sel findClientByConnection_def findClientByToken_def
        client_new_def client_isGuest_def tokenLength_def)
  moreover have "set (w_clients w') = insert (w_nextClient w) (set (w_clients w))"
    by (simp add: con(1) connected_sel)
  ultimately show ?thesis using w' by blast
qed

lemma removeClient_tokens:
  assumes inv: "server_inv E w" and c: "c \<in> set (w_clients w)"
  shows "\<exists>w'. removeClient E c w = Inr w' \<and> server_inv E w' \<and> set (w_clients w') = set (w_clients w) - {c}
    \<and> w_nextClient w' = w_nextClient w
    \<and> (\<forall>cn. w_connectionToClient w cn = None \<longrightarrow> w_connectionToClient w' cn = None)
    \<and> (\<forall>t. w_tokenToClient w t = None \<longrightarrow> w_tokenToClient w' t = None)"
proof -
  obtain w' where w': "removeClient E c w = Inr w'" "server_inv E w'" "set (w_clients w') = set (w_clients w) - {c}"
    "\<forall>cn. w_connectionToClient w cn = None \<longrightarrow> w_connectionToClient w' cn = None"
    using removeClient_inv [OF inv c] by metis
  have "mgr_view w' = mgr_view (client_setConnection E c None (discard c (detach c w)))"
    using removeClient_total [OF invD(1) [OF inv] c] w'(1) by auto
  note m = mgr_view_eqD [OF this]
  have c': "c \<in> set (w_clients (detach c w))" using c by (simp add: detach_sel)
  have "w_nextClient w' = w_nextClient w" "w_tokenToClient w' = (w_tokenToClient w)(c_token (w_client w c) := None)"
    by (simp_all add: m client_setConnection_sel discard_sel [OF c'] detach_sel)
  with w' show ?thesis by auto
qed

definition evicted :: "('j, 'x) env \<Rightarrow> conn \<Rightarrow> 'x world \<Rightarrow> client_ptr set" where
  "evicted E cn w = (if clients_at w (getRealClientIp E cn) \<ge> 5
     then {c. oldest_orphan w (getRealClientIp E cn) = Some c} else {})"

lemma evicted_orphan:
  "c \<in> evicted E cn w \<Longrightarrow> c \<in> set (w_clients w) \<and> c_connection (w_client w c) = None
     \<and> c_lastClientIP (w_client w c) = getRealClientIp E cn"
  using oldest_orphan_Some [of w "getRealClientIp E cn" c] by (auto simp: evicted_def at_ip_def split: if_splits)

lemma open_accepted:
  assumes inv: "server_inv E w" and cn: "w_connectionToClient w cn = None" and fresh: "fresh_tokens E w"
    and few: "connections_at w (getRealClientIp E cn) < 5"
  shows "\<exists>w'. on_open E cn w = Inr w' \<and> accepted E cn w w'
    \<and> set (w_clients w') = insert (w_nextClient w) (set (w_clients w) - evicted E cn w)
    \<and> (clients_at w (getRealClientIp E cn) \<ge> 5 \<longrightarrow> evicted E cn w \<noteq> {})"
proof (cases "clients_at w (getRealClientIp E cn) \<ge> 5")
  case True
  then obtain o' where o': "oldest_orphan w (getRealClientIp E cn) = Some o'"
    using oldest_orphan_exists [of w "getRealClientIp E cn"] few by fastforce
  obtain w1 where w1: "removeClient E o' w = Inr w1" "server_inv E w1" "set (w_clients w1) = set (w_clients w) - {o'}"
    "w_nextClient w1 = w_nextClient w" "w_connectionToClient w1 cn = None"
    "\<forall>t. w_tokenToClient w t = None \<longrightarrow> w_tokenToClient w1 t = None"
    using removeClient_tokens [OF inv oldest_orphan_Some(1) [OF o']] cn by blast
  have "fresh_tokens E w1" using fresh w1(6) unfolding fresh_tokens_def by blast
  from connect_accepted [OF w1(2,5) this] obtain w' where w': "manager_connect E cn w1 = Inr w'"
    "accepted E cn w1 w'" "set (w_clients w') = insert (w_nextClient w1) (set (w_clients w1))" by blast
  have "on_open E cn w = Inr w'"
    using few True o' w1(1) w'(1)
    by (simp add: on_open_eq [OF invD(1) [OF inv]] maxConnectionsFromIp_def maxClientsFromIp_def Let_def)
  moreover have "accepted E cn w w'" using w'(2) w1(4) by (simp add: accepted_def)
  moreover have "evicted E cn w = {o'}" using True o' by (simp add: evicted_def)
  ultimately show ?thesis using w'(3) w1(3,4) by auto
next
  case False
  from connect_accepted [OF inv cn fresh] obtain w' where w': "manager_connect E cn w = Inr w'"
    "accepted E cn w w'" "set (w_clients w') = insert (w_nextClient w) (set (w_clients w))" by blast
  have "on_open E cn w = Inr w'"
    using few False w'(1)
    by (simp add: on_open_eq [OF invD(1) [OF inv]] maxConnectionsFromIp_def maxClientsFromIp_def Let_def)
  with w' False show ?thesis by (auto simp: evicted_def)
qed

subsection \<open>Closing\<close>

lemma no_members_left:
  assumes "members_ok w" and "c_rooms (w_client w c) = []" and "m \<in> set (r_members (w_room w r))"
  shows "m_client (w_member w m) \<noteq> c"
  using members_okD(4) [OF assms(1,3)] assms(2) by auto

lemma close_leaves:
  assumes inv: "server_inv E w" and c: "w_connectionToClient w cn = Some c" and "stat = 1000 \<or> stat = 1001"
  shows "\<exists>w'. on_close E cn stat w = Inr w' \<and> server_inv E w' \<and> set (w_clients w') = set (w_clients w) - {c}
    \<and> c_rooms (w_client w' c) = [] \<and> (\<forall>r. \<forall>m \<in> set (r_members (w_room w' r)). m_client (w_member w' m) \<noteq> c)"
proof -
  obtain w' where w': "removeClient E c w = Inr w'" "server_inv E w'" "set (w_clients w') = set (w_clients w) - {c}"
    "c_rooms (w_client w' c) = []"
    using removeClient_inv [OF inv connection_client(1) [OF inv c]] by metis
  have "members_ok w'" by (rule chat_okD(1) [OF server_okD(1) [OF invD(1) [OF w'(2)]]])
  from no_members_left [OF this w'(4)] w' show ?thesis
    using assms(3) c by (auto simp: on_close_def removeConnection_def findClientByConnection_def)
qed

lemma close_orphans:
  assumes inv: "server_inv E w" and c: "w_connectionToClient w cn = Some c" and "stat \<noteq> 1000" "stat \<noteq> 1001"
  shows "\<exists>w'. on_close E cn stat w = Inr w' \<and> on_error E cn w = Inr w' \<and> server_inv E w'
    \<and> c \<in> set (w_clients w') \<and> c_connection (w_client w' c) = None
    \<and> findClientByConnection w' cn = None \<and> findClientByToken w' (c_token (w_client w c)) = Some c
    \<and> (\<forall>d. c_rooms (w_client w' d) = c_rooms (w_client w d))
    \<and> (\<forall>r. r_members (w_room w' r) = r_members (w_room w r))"
proof -
  note mem = connection_client [OF inv c]
  obtain w' where w': "makeOrphan E c w = Inr w'" "view w' = view (client_setConnection E c None (detach c w))"
    using makeOrphan_attached [OF invD(1) [OF inv] mem] by blast
  have inv': "server_inv E w'" "w_clients w' = w_clients w"
    "\<forall>d. c_connection (w_client w' d) = (if d = c then None else c_connection (w_client w d))"
    using makeOrphan_inv [OF inv mem(1)] w'(1) by auto
  note v = view_eqD [OF w'(2)]
  note tab = tables_okD [OF server_okD(2) [OF invD(1) [OF inv'(1)]]]
  have rooms: "c_rooms (w_client w' d) = c_rooms (w_client w d)" "c_token (w_client w' d) = c_token (w_client w d)" for d
    by (simp_all add: v client_setConnection_sel detach_sel)
  have members: "r_members (w_room w' r) = r_members (w_room w r)" for r
    by (simp add: v client_setConnection_sel detach_sel)
  have "w_connectionToClient w' cn = None"
  proof (rule ccontr)
    assume "w_connectionToClient w' cn \<noteq> None"
    then obtain d where "w_connectionToClient w' cn = Some d" by blast
    with tab(3) [of cn d] inv'(2,3) have d: "d \<noteq> c" "d \<in> set (w_clients w)" "c_connection (w_client w d) = Some cn"
      by (auto split: if_splits)
    then have "w_connectionToClient w cn = Some d"
      using tables_okD(3) [OF server_okD(2) [OF invD(1) [OF inv]], of cn d] by blast
    with c d(1) show False by simp
  qed
  moreover have "w_tokenToClient w' (c_token (w_client w c)) = Some c"
    using tab(4) [of "c_token (w_client w c)" c] mem(1) inv'(2) rooms(2) by simp
  ultimately show ?thesis
    using w'(1) inv' mem c assms(3,4) rooms(1) members
    by (simp add: on_close_def on_error_def makeOrphanConnection_def findClientByConnection_def
        findClientByToken_def)
qed

subsection \<open>Coming back\<close>

lemma revive_effect:
  assumes ok: "server_ok E w" and c: "c \<in> set (w_clients w)" and cn: "c_connection (w_client w c) = Some cn"
    and t: "revive_target w c p = Some t"
    and redis: "bindX (redis_new E) (\<lambda>_. redis_new E) (w_ext w) = (Inr (), x)"
  shows "\<exists>w'. auth_process E c p w = Inr w' \<and> server_ok E w'
    \<and> findClientByConnection w' cn = Some t \<and> c_connection (w_client w' t) = Some cn
    \<and> set (w_clients w') = set (w_clients w) - {c} \<and> c_rooms (w_client w' c) = []
    \<and> c_rooms (w_client w' t) = c_rooms (w_client w t)
    \<and> c_lastClientIP (w_client w' t) = getRealClientIp E cn"
proof -
  let ?w1 = "w\<lparr>w_ext := x\<rparr>"
  have lift: "lift_ext (bindX (redis_new E) (\<lambda>_. redis_new E)) w = (Inr (), ?w1)"
    by (simp add: lift_ext_def redis)
  have t1: "revive_target ?w1 c p = Some t" using t by (simp add: revive_target_def findClientByToken_def split: if_splits)
  let ?w2 = "auth_reply E c t p ?w1"
  have v2: "view ?w2 = view w" by (simp add: view_simps)
  have ok2: "server_ok E ?w2" by (rule server_ok_view [OF v2 ok])
  have tc: "w_tokenToClient w (pa_token p) = Some t" "t \<noteq> c" using revive_target_Some [OF t] by blast+
  have t2: "t \<in> set (w_clients w)" using tables_okD(4) [OF server_okD(2) [OF ok]] tc(1) by blast
  have in2: "c \<in> set (w_clients ?w2)" "t \<in> set (w_clients ?w2)" "c_connection (w_client ?w2 c) = Some cn"
    using c t2 cn view_eqD [OF v2] by simp_all
  obtain w3 where w3: "manager_reviveClient E c t ?w2 = Inr (True, w3)" "server_ok E w3"
    "mgr_view w3 = mgr_view (handover E cn c t ?w2)"
    "\<forall>d. c_rooms (w_client w3 d) = (if d = c then [] else c_rooms (w_client ?w2 d))"
    using manager_reviveClient_total [OF ok2 in2(1,2) tc(2) [symmetric] in2(3)] by blast
  note m = mgr_view_eqD [OF w3(3)]
  note h = handover_sel [OF in2(1), of E cn t]
  let ?w4 = "case c_connection (w_client ?w2 t) of None \<Rightarrow> w3
      | Some cn' \<Rightarrow> if c_connection (w_client ?w2 c) \<noteq> Some cn' then closeConnection cn' w3 else w3"
  have "server_reviveClient E c t ?w2 = Inr (True, ?w4)" by (simp add: server_reviveClient_def w3(1) Let_def)
  then have run: "auth_process E c p w = Inr ?w4" by (simp add: auth_process_def lift t1)
  have v4: "view ?w4 = view w3" by (simp add: view_simps split: option.split)
  have "server_ok E ?w4" by (rule server_ok_view [OF v4 w3(2)])
  moreover note v = view_eqD [OF v4] and u = view_eqD [OF v2]
  have "findClientByConnection ?w4 cn = Some t" "c_connection (w_client ?w4 t) = Some cn"
    "c_rooms (w_client ?w4 c) = []" "c_rooms (w_client ?w4 t) = c_rooms (w_client w t)"
    "c_lastClientIP (w_client ?w4 t) = getRealClientIp E cn"
    unfolding findClientByConnection_def v m h using w3(4) tc(2) u by auto
  moreover have "w_clients ?w4 = remove1 c (w_clients w)"
    by (rule trans [OF v(15)]) (simp add: m h u)
  then have "set (w_clients ?w4) = set (w_clients w) - {c}"
    using tables_okD(1) [OF server_okD(2) [OF ok]] by simp
  ultimately show ?thesis using run by blast
qed

end
