(* ===== verification/Resuming.thy ===== *)
theory Resuming
  imports ConnectionFacts ServiceFacts
begin

text \<open>
  A session over a lost connection, from the socket that fails to the new one that logs in with
  the token: three events of the server, put together.
\<close>

text \<open>What a session has in its rooms: the members of the rooms with their ids, nicks and clients.\<close>

definition membership :: "'x world \<Rightarrow> (room_ptr \<Rightarrow> member_ptr list) \<times> (member_ptr \<Rightarrow> u32 \<times> string \<times> client_ptr)" where
  "membership w = ((\<lambda>r. r_members (w_room w r)),
     (\<lambda>m. (m_id (w_member w m), m_nick (w_member w m), m_client (w_member w m))))"

lemma membership_view:
  assumes "view w' = view w"
  shows "membership w' = membership w"
  by (simp add: membership_def fun_eq_iff view_eqD [OF assms])

lemma membership_simps:
  "membership (upd_client c f w) = membership w"
  "membership (client_setConnection E c cno w) = membership w"
  "membership (detach c w) = membership w"
  "membership (connected E cn tok p w) = membership w"
  "membership (decrementForIp ip fld w) = membership w"
  "membership (snd (removeFromClients c w)) = membership w"
  "membership (w\<lparr>w_connectionToClient := t\<rparr>) = membership w"
  by (simp_all add: membership_def client_setConnection_sel detach_sel connected_sel decrementForIp_def removeFromClients_def)

subsection \<open>Losing the connection\<close>

lemma identity_onDisconnect:
  assumes "client_onDisconnect E c w = Inr w'"
  shows "identity w' = identity w"
proof -
  have step: "identity v' = identity v" if "orphan_in_room E c r v = Inr v'" for r and v v' :: "'a world"
    using that by (auto simp: orphan_in_room_def bindS_Inr_iff Let_def)
  have "identity w' = identity (client_setConnection E c None w)"
    using assms unfolding client_onDisconnect_eq Let_def
    by (rule foldR_invariant [rotated]) (rule step)
  then show ?thesis by (simp add: identity_setConnection)
qed

lemma lost_connection:
  assumes inv: "server_inv E w" and c: "w_connectionToClient w cn = Some c" and "stat \<noteq> 1000" "stat \<noteq> 1001"
  shows "\<exists>w'. on_close E cn stat w = Inr w' \<and> server_inv E w' \<and> w_clients w' = w_clients w
    \<and> c_connection (w_client w' c) = None \<and> w_connectionToClient w' = (w_connectionToClient w)(cn := None)
    \<and> w_tokenToClient w' = w_tokenToClient w \<and> w_nextClient w' = w_nextClient w
    \<and> clients_at w' = clients_at w \<and> membership w' = membership w \<and> identity w' = identity w
    \<and> (\<forall>d. c_rooms (w_client w' d) = c_rooms (w_client w d) \<and> c_token (w_client w' d) = c_token (w_client w d))"
proof -
  note mem = connection_client [OF inv c]
  obtain w' where w': "makeOrphan E c w = Inr w'" "view w' = view (client_setConnection E c None (detach c w))"
    using makeOrphan_attached [OF invD(1) [OF inv] mem] by blast
  note v = view_eqD [OF w'(2)]
  have "w_connectionToClient (detach c w) = (w_connectionToClient w)(cn := None)"
    using mem(2) c by (simp add: detach_def decrementForIp_def eraseConnection_def)
  moreover have "server_inv E w'" using makeOrphan_inv [OF inv mem(1)] w'(1) by auto
  moreover have "identity w' = identity w"
    using w'(1) mem(2) c by (auto simp: makeOrphan_def dest!: identity_onDisconnect)
  moreover have "clients_at w' = clients_at w"
    by (simp add: fun_eq_iff clients_at_def at_ip_def [abs_def] v client_setConnection_sel detach_sel)
  moreover have "membership w' = membership w"
    by (simp add: membership_view [OF w'(2)] membership_simps)
  moreover have "on_close E cn stat w = Inr w'"
    using w'(1) c assms(3,4) by (simp add: on_close_def makeOrphanConnection_def findClientByConnection_def)
  ultimately show ?thesis by (auto simp: v client_setConnection_sel detach_sel)
qed

subsection \<open>The new connection\<close>

lemma new_connection:
  assumes inv: "server_inv E w" and cn: "w_connectionToClient w cn = None" and fresh: "fresh_tokens E w"
    and few: "clients_at w (getRealClientIp E cn) < 5"
  shows "\<exists>w' tok pos. on_open E cn w = Inr w' \<and> w' = connected E cn tok pos w \<and> server_inv E w'
    \<and> w_tokenToClient w tok = None"
proof -
  have "int (connections_at w (getRealClientIp E cn)) < maxConnectionsFromIp"
    using connections_le_clients [of w "getRealClientIp E cn"] few by (simp add: maxConnectionsFromIp_def)
  then have eq: "on_open E cn w = manager_connect E cn w"
    using few by (simp add: on_open_eq [OF invD(1) [OF inv]] maxClientsFromIp_def Let_def)
  obtain k where "w_tokenToClient w (keygen_generate E tokenLength (w_random w + k * tokenLength)) = None"
    using fresh unfolding fresh_tokens_def by blast
  then obtain w' where w': "manager_connect E cn w = Inr w'" using manager_connect_total by blast
  with manager_connect_ok [OF invD(1) [OF inv] cn w'] obtain tok pos where
    "w' = connected E cn tok pos w" "w_tokenToClient w tok = None" by blast
  moreover have "server_inv E w'" using on_open_inv [OF inv cn] w' eq by simp
  ultimately show ?thesis using w' eq by auto
qed

subsection \<open>The login\<close>

lemma revive_keeps_members:
  assumes ok: "server_ok E w" and cur: "cur \<in> set (w_clients w)" and targ: "targ \<in> set (w_clients w)"
    and ne: "cur \<noteq> targ" and ccn: "c_connection (w_client w cur) = Some ccn" and none: "c_rooms (w_client w cur) = []"
    and run: "manager_reviveClient E cur targ w = Inr (True, w')"
  shows "membership w' = membership w"
proof -
  let ?w3 = "handover1 cur targ w"
  have d: "(case c_connection (w_client w targ) of None \<Rightarrow> w
      | Some cn \<Rightarrow> if w_connectionToClient w cn = None then w
          else decrementForIp (c_lastClientIP (w_client w targ)) Connections (eraseConnection cn w))
      = detach targ w"
    by (simp add: detach_def)
  define w4 where "w4 = client_setConnection E cur None (upd_client cur (\<lambda>cl. cl\<lparr>c_rooms := []\<rparr>) ?w3)"
  have w4: "client_onRemove E cur ?w3 = Inr w4"
    by (simp add: client_onRemove_eq handover1_sel [OF cur] none w4_def Let_def)
  define w6 where "w6 = client_setConnection E targ (Some ccn)
     (w4\<lparr>w_connectionToClient := (w_connectionToClient w4)(ccn \<mapsto> targ)\<rparr>)"
  have run6: "client_onRevive E targ w6 = Inr w'"
    using run unfolding manager_reviveClient_def Let_def d
    by (simp add: ccn handover1_def [symmetric] w4 w6_def bindS_Inr_iff)
  have rooms: "c_rooms (w_client w6 d) = c_rooms (w_client w d)" for d
    by (simp add: w6_def w4_def client_setConnection_sel handover1_sel [OF cur] none)
  have "members_ok w6 = members_ok w"
    by (simp only: members_ok_def rooms) (simp add: w6_def w4_def client_setConnection_sel handover1_sel [OF cur])
  moreover have "members_ok w" by (rule chat_okD(1) [OF server_okD(1) [OF ok]])
  ultimately have "view w' = view w6" using client_onRevive_total [of w6 E targ] run6 by auto
  then have "membership w' = membership w6" by (rule membership_view)
  then show ?thesis by (simp add: w6_def w4_def handover1_def membership_simps)
qed

lemma login_keeps_members:
  assumes ok: "server_ok E w" and c: "c \<in> set (w_clients w)" and cn: "c_connection (w_client w c) = Some cn"
    and none: "c_rooms (w_client w c) = []" and t: "revive_target w c p = Some t"
    and redis: "bindX (redis_new E) (\<lambda>_. redis_new E) (w_ext w) = (Inr (), x)"
    and run: "auth_process E c p w = Inr w'"
  shows "membership w' = membership w" and "identity w' = identity w"
proof -
  let ?w1 = "w\<lparr>w_ext := x\<rparr>"
  have lift: "lift_ext (bindX (redis_new E) (\<lambda>_. redis_new E)) w = (Inr (), ?w1)" by (simp add: lift_ext_def redis)
  have t1: "revive_target ?w1 c p = Some t" using t by (simp add: revive_target_def findClientByToken_def split: if_splits)
  let ?w2 = "auth_reply E c t p ?w1"
  have v2: "view ?w2 = view w" by (simp add: view_simps)
  note u = view_eqD [OF v2]
  have tc: "w_tokenToClient w (pa_token p) = Some t" "t \<noteq> c" using revive_target_Some [OF t] by blast+
  have t2: "t \<in> set (w_clients w)" using tables_okD(4) [OF server_okD(2) [OF ok]] tc(1) by blast
  obtain b where rev: "server_reviveClient E c t ?w2 = Inr (b, w')"
    using run by (auto simp: auth_process_def lift t1 bindS_Inr_iff)
  then obtain w3 where w3: "manager_reviveClient E c t ?w2 = Inr (b, w3)" "view w' = view w3"
    by (auto simp: server_reviveClient_def bindS_Inr_iff Let_def view_simps split: option.splits if_splits)
  have in2: "c \<in> set (w_clients ?w2)" "t \<in> set (w_clients ?w2)" "c_connection (w_client ?w2 c) = Some cn"
    "c_rooms (w_client ?w2 c) = []"
    using c t2 cn none u by simp_all
  have "b" using manager_reviveClient_total [OF server_ok_view [OF v2 ok] in2(1,2) tc(2) [symmetric] in2(3)] w3(1) by auto
  then have "membership w3 = membership ?w2"
    using revive_keeps_members [OF server_ok_view [OF v2 ok] in2(1,2) tc(2) [symmetric] in2(3,4)] w3(1) by simp
  then show "membership w' = membership w" by (simp add: membership_view [OF w3(2)] membership_view [OF v2])
  show "identity w' = identity w" using identity_revive [OF rev] by simp
qed

subsection \<open>All together\<close>

definition redis_up :: "('j, 'x) env \<Rightarrow> bool" where
  "redis_up E \<longleftrightarrow> (\<forall>x. fst (bindX (redis_new E) (\<lambda>_. redis_new E) x) = Inr ())"

text \<open>The frame with the token, on a connection whose client is in no room.\<close>

lemma token_frame:
  assumes inv: "server_inv E w" and c: "w_connectionToClient w cn = Some c" and none: "c_rooms (w_client w c) = []"
    and msg: "packet_read E msg = Inr (Some (Packet_Auth p))" and redis: "redis_up E"
    and t: "w_tokenToClient w (pa_token p) = Some t" "t \<noteq> c" "pa_token p \<noteq> []"
  shows "\<exists>w'. on_message E cn msg w = Inr w' \<and> w_connectionToClient w' cn = Some t
    \<and> c_connection (w_client w' t) = Some cn \<and> set (w_clients w') = set (w_clients w) - {c}
    \<and> c_rooms (w_client w' t) = c_rooms (w_client w t) \<and> membership w' = membership w \<and> identity w' = identity w"
proof -
  let ?w = "upd_client c (\<lambda>cl. cl\<lparr>c_lastPacketTime := w_now w\<rparr>) w"
  have v: "view ?w = view w" by (simp add: view_upd_client client_view_def)
  note u = view_eqD [OF v]
  note ok = server_ok_view [OF v invD(1) [OF inv]] and mem = connection_client [OF inv c]
  have in1: "c \<in> set (w_clients ?w)" "c_connection (w_client ?w c) = Some cn" "c_rooms (w_client ?w c) = []"
    using mem none by simp_all
  have target: "revive_target ?w c p = Some t" using t by (simp add: revive_target_def findClientByToken_def)
  obtain x where x: "bindX (redis_new E) (\<lambda>_. redis_new E) (w_ext ?w) = (Inr (), x)"
    using redis by (metis redis_up_def prod.collapse)
  obtain w' where w': "auth_process E c p ?w = Inr w'" "findClientByConnection w' cn = Some t"
    "c_connection (w_client w' t) = Some cn" "set (w_clients w') = set (w_clients ?w) - {c}"
    "c_rooms (w_client w' t) = c_rooms (w_client ?w t)"
    using revive_effect [OF ok in1(1,2) target x] by blast
  have "membership w' = membership w" "identity w' = identity ?w"
    using login_keeps_members [OF ok in1 target x w'(1)] membership_view [OF v] by simp_all
  moreover have "identity ?w = identity w" by (simp add: identity_def fun_eq_iff)
  moreover have "on_message E cn msg w = Inr w'"
    using w'(1) c msg by (simp add: on_message_def client_onPacket_def findClientByConnection_def)
  ultimately show ?thesis using w' by (auto simp: findClientByConnection_def)
qed

lemma resume_session:
  assumes inv: "server_inv E w" and t: "w_connectionToClient w cn = Some t"
    and stat: "stat \<noteq> 1000" "stat \<noteq> 1001"
    and cn2: "w_connectionToClient w cn2 = None" and fresh: "fresh_tokens E w"
    and few: "clients_at w (getRealClientIp E cn2) < 5"
    and msg: "packet_read E msg = Inr (Some (Packet_Auth p))" and redis: "redis_up E"
    and tok: "pa_token p = c_token (w_client w t)" "pa_token p \<noteq> []"
  shows "\<exists>w1 w2 w3. handle E (Closed cn stat) w = Inr w1 \<and> handle E (Opened cn2) w1 = Inr w2
    \<and> handle E (Message cn2 msg) w2 = Inr w3 \<and> server_inv E w3
    \<and> c_connection (w_client w1 t) = None \<and> findClientByConnection w3 cn2 = Some t
    \<and> c_connection (w_client w3 t) = Some cn2 \<and> set (w_clients w3) = set (w_clients w)
    \<and> c_rooms (w_client w3 t) = c_rooms (w_client w t) \<and> membership w3 = membership w \<and> identity w3 t = identity w t"
proof -
  note mem = connection_client [OF inv t]
  obtain w1 where w1: "on_close E cn stat w = Inr w1" "server_inv E w1" "w_clients w1 = w_clients w"
    "c_connection (w_client w1 t) = None" "w_connectionToClient w1 = (w_connectionToClient w)(cn := None)"
    "w_tokenToClient w1 = w_tokenToClient w" "clients_at w1 = clients_at w" "membership w1 = membership w"
    "identity w1 = identity w" "\<And>d. c_rooms (w_client w1 d) = c_rooms (w_client w d)"
    using lost_connection [OF inv t stat] by blast
  have "w_connectionToClient w1 cn2 = None" "fresh_tokens E w1" "clients_at w1 (getRealClientIp E cn2) < 5"
    using cn2 fresh few w1(5-7) by (simp_all add: fresh_tokens_def)
  from new_connection [OF w1(2) this] obtain w2 tk pos where
    w2: "on_open E cn2 w1 = Inr w2" "w2 = connected E cn2 tk pos w1" "server_inv E w2" "w_tokenToClient w1 tk = None"
    by blast
  let ?c = "w_nextClient w1"
  note new = fresh_client_no_rooms(1) [OF invD(1) [OF w1(2)]]
  have t1: "t \<in> set (w_clients w1)" using mem w1(3) by simp
  then have ne: "t \<noteq> ?c" using new by blast
  have "w_tokenToClient w (pa_token p) = Some t"
    using tables_okD(4) [OF server_okD(2) [OF invD(1) [OF inv]], of "pa_token p" t] mem(1) tok(1) by simp
  then have "w_tokenToClient w2 (pa_token p) = Some t" using w1(6) w2(2,4) by (auto simp: connected_sel)
  moreover have "w_connectionToClient w2 cn2 = Some ?c" "c_rooms (w_client w2 ?c) = []"
    by (simp_all add: w2(2) connected_sel client_new_def)
  ultimately obtain w3 where w3: "on_message E cn2 msg w2 = Inr w3" "w_connectionToClient w3 cn2 = Some t"
    "c_connection (w_client w3 t) = Some cn2" "set (w_clients w3) = set (w_clients w2) - {?c}"
    "c_rooms (w_client w3 t) = c_rooms (w_client w2 t)" "membership w3 = membership w2" "identity w3 = identity w2"
    using token_frame [OF w2(3) _ _ msg redis _ ne tok(2)] by blast
  have "set (w_clients w3) = set (w_clients w)" using w3(4) w1(3) new by (simp add: w2(2) connected_sel)
  moreover have "c_rooms (w_client w3 t) = c_rooms (w_client w t)"
    unfolding w3(5) using ne by (simp add: w2(2) connected_sel w1(10))
  moreover have "membership w3 = membership w" unfolding w3(6) w1(8) [symmetric] by (simp add: w2(2) membership_simps)
  moreover have "identity w3 t = identity w t"
    unfolding w3(7) w1(9) [symmetric] using ne by (simp add: w2(2) connected_sel identity_def)
  moreover have "server_inv E w3" using handle_inv [OF w2(3), of "Message cn2 msg"] w3(1) by simp
  ultimately show ?thesis using w1(1,4) w2(1) w3(1-3) by (auto simp: findClientByConnection_def)
qed

end
