(* ===== verification/Traversal.thy ===== *)
theory Traversal
  imports SaveFacts Safety CommandEffects RoomFacts
begin

text \<open>
  What every operation of the server is made of, seen from the rooms and the sockets: steps of
  a single room, new rooms, packets to clients, replays of a room's history and closed
  connections. A property of the world that survives these is kept by every operation and every
  event; \<open>world_keeper\<close> is the contract and its lemmas walk through the whole program once. The
  operations that leave the bans and moderators of the rooms alone are walked through under a
  weaker contract, \<open>quiet_keeper\<close>. A contract may speak of a set of connections that the clients keep to; without this restriction
  (\<open>eternal_keeper\<close>) the property holds of every reachable state.
\<close>

subsection \<open>Postconditions of results\<close>

definition yields :: "('a \<Rightarrow> bool) \<Rightarrow> 'e + 'a \<Rightarrow> bool" where
  "yields P r \<longleftrightarrow> (\<forall>x. r = Inr x \<longrightarrow> P x)"

lemma yields_simps [simp]:
  "yields P (Inr x) = P x" "yields P (Inl e)"
  by (simp_all add: yields_def)

lemma yieldsD: "yields P r \<Longrightarrow> r = Inr x \<Longrightarrow> P x"
  by (simp add: yields_def)

lemma yields_mono: "yields P r \<Longrightarrow> (\<And>x. P x \<Longrightarrow> Q x) \<Longrightarrow> yields Q r"
  by (simp add: yields_def)

lemma yields_bindS: "yields (\<lambda>x. yields P (f x)) r \<Longrightarrow> yields P (bindS r f)"
  by (cases r) simp_all

lemma yields_after: "yields P r \<Longrightarrow> (\<And>x. P x \<Longrightarrow> yields Q (f x)) \<Longrightarrow> yields Q (bindS r f)"
  by (cases r) simp_all

lemma yields_any: "(\<And>x. yields P (f x)) \<Longrightarrow> yields P (bindS r f)"
  by (cases r) simp_all

lemma yields_foldR:
  "(\<And>x s. P s \<Longrightarrow> yields P (f x s)) \<Longrightarrow> P s \<Longrightarrow> yields P (foldR f xs s)"
proof (induction xs arbitrary: s)
  case (Cons x xs)
  have "yields (\<lambda>s. yields P (foldR f xs s)) (f x s)"
    using Cons.prems by (rule_tac yields_mono [of P]) (auto intro: Cons.IH)
  then show ?case by (simp add: yields_bindS)
qed simp

lemma fold_keeps: "(\<And>x v. P v \<Longrightarrow> P (f x v)) \<Longrightarrow> P w \<Longrightarrow> P (fold f xs w)"
  by (induction xs arbitrary: w) simp_all

subsection \<open>The steps of a room\<close>

text \<open>
  The updates of a room that the program makes once it is in place. Only public messages enter a history; guests
  (account 0) are never moderators and no data of theirs are kept.
\<close>

inductive room_step :: "('j, 'x) env \<Rightarrow> room \<Rightarrow> room \<Rightarrow> bool" for E rm where
  speak: "pm_to_id pm = 0 \<Longrightarrow> room_step E rm (rm\<lparr>r_history :=
    trim_history (history_limit E) (r_history rm @ [wire E (Packet_Message pm)])\<rparr>)"
| members: "room_step E rm (rm\<lparr>r_members := ms\<rparr>)"
| next_member: "room_step E rm (rm\<lparr>r_nextMemberId := i\<rparr>)"
| next_message: "room_step E rm (snd (room_newMessageId rm))"
| info: "mi_user_id mi \<noteq> 0 \<Longrightarrow>
    room_step E rm (rm\<lparr>r_membersInfo := AList.update (mi_user_id mi) mi (r_membersInfo rm)\<rparr>)"
| ban_nick: "room_step E rm (snd (room_banNick nk rm))"
| ban_ip: "room_step E rm (snd (room_banIp ip rm))"
| ban_uid: "room_step E rm (snd (room_banUid u rm))"
| unban_nick: "room_step E rm (snd (room_unbanNick nk rm))"
| unban_ip: "room_step E rm (snd (room_unbanIp ip rm))"
| unban_uid: "room_step E rm (snd (room_unbanUid u rm))"
| add_moder: "u \<noteq> 0 \<Longrightarrow> room_step E rm (snd (room_addModerator u rm))"
| del_moder: "room_step E rm (snd (room_removeModerator u rm))"

lemmas room_steps = room_step.intros

text \<open>The steps that leave the name, the owner, the bans and the moderators of a room alone.\<close>

definition quiet_step :: "('j, 'x) env \<Rightarrow> room \<Rightarrow> room \<Rightarrow> bool" where
  "quiet_step E rm rm' \<longleftrightarrow> room_step E rm rm' \<and> room_lists rm' = room_lists rm"

lemma quiet_steps:
  "pm_to_id pm = 0 \<Longrightarrow> quiet_step E rm (rm\<lparr>r_history :=
     trim_history (history_limit E) (r_history rm @ [wire E (Packet_Message pm)])\<rparr>)"
  "quiet_step E rm (rm\<lparr>r_members := ms\<rparr>)"
  "quiet_step E rm (rm\<lparr>r_nextMemberId := i\<rparr>)"
  "quiet_step E rm (snd (room_newMessageId rm))"
  "mi_user_id mi \<noteq> 0 \<Longrightarrow>
     quiet_step E rm (rm\<lparr>r_membersInfo := AList.update (mi_user_id mi) mi (r_membersInfo rm)\<rparr>)"
  by (simp_all add: quiet_step_def room_steps room_lists_newMessageId) (simp_all add: room_lists_def)

subsection \<open>Walking through the program\<close>

text \<open>The connection that an event brings.\<close>

primrec opened :: "'x event \<Rightarrow> conn set" where
  "opened (Opened cn) = {cn}"
| "opened (Message cn msg) = {}"
| "opened (Closed cn stat) = {}"
| "opened (Failed cn) = {}"
| "opened Timer = {}"
| "opened (Clock t) = {}"
| "opened (Services x) = {}"

text \<open>The commands that change the bans or the moderators.\<close>

definition regulating :: "command \<Rightarrow> bool" where
  "regulating c \<longleftrightarrow> c \<in> {CommandBanNick, CommandBanUid, CommandBanIp, CommandUnbanNick, CommandUnbanUid,
     CommandUnbanIp, CommandAddModer, CommandDelModer}"

text \<open>When the clients were last heard of, and the time.\<close>

definition times :: "'x world \<Rightarrow> (client_ptr \<Rightarrow> time) \<times> time" where
  "times w = (seen w, w_now w)"

lemma times_eqI: "(\<And>c. c_lastPacketTime (w_client v c) = c_lastPacketTime (w_client w c)) \<Longrightarrow> w_now v = w_now w \<Longrightarrow> times v = times w"
  by (simp add: times_def seen_def fun_eq_iff)

locale steady_keeper =
  fixes E :: "('j, 'x) env" and K :: "conn set" and I :: "'x world \<Rightarrow> bool"
  assumes known: "I w \<Longrightarrow> c_connection (w_client w c) = Some cn \<Longrightarrow> cn \<in> K"
    and same: "I w \<Longrightarrow> (\<And>c cn. c_connection (w_client v c) = Some cn \<Longrightarrow> cn \<in> K) \<Longrightarrow> w_room v = w_room w
      \<Longrightarrow> w_out v = w_out w \<Longrightarrow> w_nextRoom v = w_nextRoom w \<Longrightarrow> times v = times w \<Longrightarrow> I v"
    and packet: "I w \<Longrightarrow> I (client_sendPacket E c p w)"
    and close: "I w \<Longrightarrow> cn \<in> K \<Longrightarrow> I (closeConnection cn w)"
    and replay: "I w \<Longrightarrow> h \<in> set (r_history (w_room w r)) \<Longrightarrow> I (client_sendRawData c h w)"
    and quiet: "I w \<Longrightarrow> quiet_step E (w_room w r) (f (w_room w r)) \<Longrightarrow> I (upd_room r f w)"
begin

lemma keep_same:
  "I w \<Longrightarrow> (\<And>c. c_connection (w_client v c) = c_connection (w_client w c)) \<Longrightarrow> w_room v = w_room w
     \<Longrightarrow> w_out v = w_out w \<Longrightarrow> w_nextRoom v = w_nextRoom w
     \<Longrightarrow> (\<And>c. c_lastPacketTime (w_client v c) = c_lastPacketTime (w_client w c)) \<Longrightarrow> w_now v = w_now w \<Longrightarrow> I v"
  by (rule same [where w = w and v = v]) (auto dest: known intro: times_eqI)

lemma keep_upd:
  "I w \<Longrightarrow> I (upd_member m h w)" "I w \<Longrightarrow> I (w\<lparr>w_rooms := rs\<rparr>)"
  "I w \<Longrightarrow> I (w\<lparr>w_ext := x\<rparr>)"
  "I w \<Longrightarrow> c_connection (g (w_client w c)) = c_connection (w_client w c)
     \<Longrightarrow> c_lastPacketTime (g (w_client w c)) = c_lastPacketTime (w_client w c) \<Longrightarrow> I (upd_client c g w)"
  by (erule keep_same; simp)+

lemma keep_connection: "I w \<Longrightarrow> set_option cno \<subseteq> K \<Longrightarrow> I (client_setConnection E c cno w)"
  by (rule same) (auto simp: client_setConnection_sel times_def dest: known split: if_splits, simp_all add: client_setConnection_def)

lemma keep_member:
  "I w \<Longrightarrow> I (member_sendPacket E m p w)" "I w \<Longrightarrow> I (member_setStatus m st w)"
  "I w \<Longrightarrow> I (member_setGirl m g w)" "I w \<Longrightarrow> I (member_setColor m clr w)"
  "I w \<Longrightarrow> I (client_onKick c r w)"
  "I w \<Longrightarrow> I (reply E m msg w)" "I w \<Longrightarrow> I (send_private E m k msg w)"
  by (simp_all add: member_sendPacket_def member_setStatus_def member_setGirl_def member_setColor_def
      client_onKick_def reply_def send_private_def Let_def packet keep_upd)

lemma keep_manager:
  "I w \<Longrightarrow> I (decrementForIp ip fld w)" "I w \<Longrightarrow> I (eraseConnection cn w)"
  "I w \<Longrightarrow> I (snd (removeFromClients c w))" "I w \<Longrightarrow> I (snd (getCounterFromIp ip w))"
  by (erule keep_same; simp add: decrementForIp_def eraseConnection_def removeFromClients_def getCounterFromIp_def
      split: option.split)+

lemma keep_history:
  assumes "I w"
  shows "I (send_history c r w)"
proof -
  have "I (fold (client_sendRawData c) hs v) \<and> w_room (fold (client_sendRawData c) hs v) = w_room v"
    if "I v" "set hs \<subseteq> set (r_history (w_room v r))" for hs v
    using that
  proof (induction hs arbitrary: v)
    case (Cons h hs)
    then have "I (client_sendRawData c h v)" by (intro replay [where r = r]) simp_all
    with Cons show ?case by simp
  qed simp
  with assms show ?thesis by (simp add: send_history_def)
qed

lemma keep_broadcast:
  assumes "I w"
  shows "I (sendPacketToAll E r p w)"
proof -
  have "I (addToHistory E r p w)"
    using assms by (auto simp: addToHistory_def intro!: quiet quiet_steps split: packet.split)
  then show ?thesis by (auto simp: sendPacketToAll_def Let_def intro!: fold_keeps [where P = I] packet)
qed

lemmas keep_basic = packet close keep_upd keep_connection keep_member keep_manager keep_history keep_broadcast

lemma keep_setNick: "I w \<Longrightarrow> I (member_setNick E m n w)"
  by (auto simp: member_setNick_def Let_def intro!: keep_basic)

lemma keep_eraseMember: "I w \<Longrightarrow> I (room_eraseMember r m w)"
  unfolding room_eraseMember_def by (erule quiet) (rule quiet_steps)

lemma keep_removeMember:
  assumes "I w"
  shows "yields I (room_removeMember E r c w)"
proof (cases "findMemberByClient w r c")
  case (Some m)
  define w1 where "w1 = (if m_nick (w_member w m) \<noteq> []
    then sendPacketToAll E r (Packet_Status (status_packet w m St_offline [])) w else w)"
  have w1: "I w1" using assms by (simp add: w1_def keep_broadcast)
  have info: "I (upd_room r (\<lambda>rm. rm\<lparr>r_membersInfo :=
      AList.update (c_uid (w_client v (m_client (w_member v m)))) (member_info_of v m) (r_membersInfo rm)\<rparr>) v)"
    if "I v" "\<not> client_isGuest (w_client v (m_client (w_member v m)))" for v
    using that quiet_steps(5) [of "member_info_of v m" E "w_room v r"]
    by (intro quiet) (simp_all add: member_info_of_def Let_def client_isGuest_def)
  show ?thesis
    unfolding room_removeMember_def Some deref_simps bindS_simps w1_def [symmetric] Let_def
    using w1 info [OF w1] by (auto intro!: keep_eraseMember)
qed (simp add: room_removeMember_def)

lemma keep_kickMember: "I w \<Longrightarrow> I (room_kickMember E r m w)"
  by (auto simp: room_kickMember_def Let_def intro!: keep_eraseMember keep_basic)

subsection \<open>Commands\<close>

lemma keep_announce: "I w \<Longrightarrow> I (announce E m st w)"
  by (auto simp: announce_def intro!: keep_basic)

lemma keep_message_id: "I w \<Longrightarrow> I (upd_room r (\<lambda>_. snd (room_newMessageId (w_room w r))) w)"
  by (erule quiet) (rule quiet_steps)

lemmas keep_intros = keep_basic keep_announce keep_setNick keep_kickMember keep_message_id

lemma keep_plain_command:
  assumes w: "I w" and c: "\<not> regulating c"
  shows "I (command_process E c m p w)"
proof -
  note intro = keep_intros w
  have "I (cmd_nick_process E m p w)" "I (cmd_gender_process E m p w)" "I (cmd_color_process E m p w)"
    by (auto simp: cmd_nick_process_def cmd_gender_process_def cmd_color_process_def Let_def split_beta intro!: intro)
  moreover have "I (cmd_styled_process E sty m p w)" for sty
    by (auto simp: cmd_styled_process_def Let_def split_beta intro!: intro)
  moreover have "I (cmd_msg_process E m p w)" "I (cmd_umsg_process E m p w)"
    by (auto simp: cmd_msg_process_def cmd_umsg_process_def Let_def split_beta intro!: intro split: option.split)
  moreover have "I (cmd_kick_process E m p w)"
    by (auto simp: cmd_kick_process_def Let_def intro!: intro split: option.split)
  moreover have "I (cmd_help_process E m w)" "I (cmd_moderlist_process E m w)" "I (cmd_banlist_process E m w)"
    "I (cmd_myrooms_process E m w)" "I (cmd_userlist_process E m w)" "I (cmd_roomlist_process E m w)"
    "I (cmd_ipcounter_process E m w)"
    by (simp_all add: cmd_help_process_def cmd_moderlist_process_def cmd_banlist_process_def cmd_myrooms_process_def
        cmd_userlist_process_def cmd_roomlist_process_def cmd_ipcounter_process_def Let_def keep_basic w)
  ultimately show ?thesis using c by (cases c) (simp_all add: regulating_def)
qed

subsection \<open>The outside world\<close>

lemma keep_lift_ext: "I w \<Longrightarrow> I (snd (lift_ext f w))"
  by (erule keep_same) (simp_all add: lift_ext_def Let_def split: prod.split)

lemma keep_lift_extD: "lift_ext f w = (r, v) \<Longrightarrow> I w \<Longrightarrow> I v"
  using keep_lift_ext [of w f] by simp

lemma keep_lift_case: "I w \<Longrightarrow> (\<And>r v. I v \<Longrightarrow> Q (g r v)) \<Longrightarrow> Q (case lift_ext f w of (r, v) \<Rightarrow> g r v)"
  using keep_lift_ext [of w f] by (cases "lift_ext f w") simp

lemma keep_auth_replies:
  "I w \<Longrightarrow> I (auth_reply E c src p w)" "I w \<Longrightarrow> I (auth_refuse E c p cod t w)" "I w \<Longrightarrow> I (auth_finish E c p w)"
  by (simp_all add: auth_reply_def auth_refuse_def auth_finish_def Let_def packet)

lemma keep_auth_failed: "I w \<Longrightarrow> I (auth_failed E c p e w)"
  by (auto simp: auth_failed_def intro!: keep_auth_replies dest: keep_lift_extD split: prod.split sum.split)

lemma keep_initUser: "I w \<Longrightarrow> yields I (initUser c uid gid nm w)"
  by (auto simp: initUser_def Let_def intro!: keep_upd)

lemma keep_auth_uid: "auth_uid E c p cookie w = (r, w') \<Longrightarrow> I w \<Longrightarrow> I w'"
  by (auto simp: auth_uid_def keep_auth_replies dest!: keep_lift_extD
      split: if_splits prod.splits sum.splits bool.splits option.splits)

lemma keep_auth_login: "I w \<Longrightarrow> yields (\<lambda>(r, w'). I w') (auth_login E c p uid w)"
  unfolding auth_login_def Let_def
  by (auto intro!: keep_auth_replies keep_lift_case [of _ "yields _"] yields_after [OF keep_initUser]
      split: sum.split option.split bool.split sum.split_asm prod.split_asm)
    (drule (1) keep_lift_extD, simp)+

subsection \<open>Clients, rooms and the manager\<close>

lemma keep_joinRoom:
  assumes w: "I w"
  shows "yields (\<lambda>(res, w'). I w') (client_joinRoom c r w)"
proof -
  have fresh: "I (w\<lparr>w_member := ms, w_nextMember := m\<rparr>)" for ms m
    by (rule keep_same [OF w]) simp_all
  have next_id: "yields (\<lambda>(i, v). I v) (genNextMemberId r v)" if "I v" for v
    using that unfolding genNextMemberId_def
    by (auto intro!: yields_any quiet quiet_steps)
  have "yields (\<lambda>(res, w'). I w') (room_addMember r c w)"
    unfolding room_addMember_def Let_def
    by (rule yields_after [OF next_id [OF fresh]]) (auto intro!: keep_upd quiet quiet_steps)
  then show ?thesis
    unfolding client_joinRoom_def
    by (rule yields_after) (auto simp: Let_def intro!: keep_basic split: sum.split option.split)
qed

lemma keep_leaveRoom: "I w \<Longrightarrow> yields I (client_leaveRoom E c r w)"
  unfolding client_leaveRoom_def by (auto intro!: yields_after [OF keep_removeMember] keep_removeMember keep_basic)

lemma keep_onRemove: "I w \<Longrightarrow> yields I (client_onRemove E c w)"
  unfolding client_onRemove_eq
  by (rule yields_after [OF yields_foldR [OF keep_removeMember]]) (auto simp: Let_def intro!: keep_basic)

lemma keep_onDisconnect:
  assumes "I w"
  shows "yields I (client_onDisconnect E c w)"
proof -
  have "yields I (orphan_in_room E c r v)" if "I v" for r v
    using that by (auto simp: orphan_in_room_def Let_def deref_def intro!: keep_basic split: option.split)
  then show ?thesis
    unfolding client_onDisconnect_eq Let_def by (intro yields_foldR) (auto intro: keep_connection [OF assms])
qed

lemma keep_revive_in_room: "I w \<Longrightarrow> yields I (revive_in_room E c r w)"
  unfolding revive_in_room_def Let_def
  by (cases "findMemberByClient w r c") (auto intro!: keep_basic)

lemma keep_removeClient: "I w \<Longrightarrow> yields I (removeClient E c w)"
  unfolding removeClient_def Let_def split_beta
  by (rule keep_onRemove) (auto intro!: keep_basic split: option.split)

lemma keep_makeOrphan: "I w \<Longrightarrow> yields I (makeOrphan E c w)"
  unfolding makeOrphan_def by (auto intro!: keep_onDisconnect keep_basic split: option.split)

lemma keep_removeConnection:
  assumes "I w"
  shows "yields (\<lambda>(b, w'). I w') (removeConnection E cn w)"
    and "yields (\<lambda>(b, w'). I w') (makeOrphanConnection E cn w)"
  unfolding removeConnection_def makeOrphanConnection_def
  using assms by (auto intro!: yields_after [OF keep_removeClient] yields_after [OF keep_makeOrphan] split: option.split)

lemma keep_removeRoom:
  assumes "I w"
  shows "yields (\<lambda>(b, w'). I w') (server_removeRoom E nm w)"
proof -
  have "yields I (room_onDestroy E r v)" if "I v" for r v
    using that unfolding room_onDestroy_def Let_def
    by (auto intro!: yields_foldR yields_after [OF keep_leaveRoom] keep_basic)
  then show ?thesis
    using assms by (auto simp: server_removeRoom_def intro!: yields_after keep_upd split: option.split)
qed

subsection \<open>Packets and events\<close>

lemma keep_status: "I w \<Longrightarrow> I (status_process E c p w)"
  by (auto simp: status_process_def away_in_room_def Let_def intro!: fold_keeps [where P = I] keep_basic split: option.split)

lemma keep_auto_login: "I w \<Longrightarrow> I (snd (auto_login E r c m w))"
  by (auto simp: auto_login_def Let_def intro!: keep_basic split: option.split)

lemma keep_join: "I w \<Longrightarrow> yields I (join_process E c p w)"
  unfolding join_process_def after_join_def ban_reply_def Let_def split_beta
  by (auto intro!: yields_after [OF keep_joinRoom] keep_basic keep_setNick keep_auto_login
      split: option.split sum.split)

lemma keep_leave: "I w \<Longrightarrow> yields I (leave_process E c p w)"
  unfolding leave_process_def by (auto intro!: yields_after [OF keep_leaveRoom] keep_basic split: option.split)

lemma keep_remove: "I w \<Longrightarrow> yields I (remove_room_process E c p w)"
  unfolding remove_room_process_def Let_def
  by (auto intro!: yields_after [OF keep_removeRoom] keep_basic split: option.split)

text \<open>A login that takes no client up.\<close>

lemma keep_login:
  assumes "I w"
  shows "yields I (bindS (auth_cookie E c p w) (\<lambda>cookie. case auth_uid E c p cookie w of
        (Inl e, w) \<Rightarrow> Inr (auth_failed E c p e w) | (Inr None, w) \<Rightarrow> Inr w
      | (Inr (Some uid), w) \<Rightarrow> bindS (auth_login E c p uid w) (\<lambda>(r, w). Inr (case r of
          Inl e \<Rightarrow> auth_failed E c p e w | Inr True \<Rightarrow> w | Inr False \<Rightarrow> auth_finish E c p w))))"
proof (rule yields_any)
  fix cookie
  show "yields I (case auth_uid E c p cookie w of
        (Inl e, w) \<Rightarrow> Inr (auth_failed E c p e w) | (Inr None, w) \<Rightarrow> Inr w
      | (Inr (Some uid), w) \<Rightarrow> bindS (auth_login E c p uid w) (\<lambda>(r, w). Inr (case r of
          Inl e \<Rightarrow> auth_failed E c p e w | Inr True \<Rightarrow> w | Inr False \<Rightarrow> auth_finish E c p w)))"
    using keep_auth_uid [of c p cookie w, OF _ assms]
    by (auto intro!: keep_auth_replies keep_auth_failed yields_after [OF keep_auth_login]
        split: prod.split sum.split option.split bool.split)
qed

lemma keep_auth_alone:
  assumes "I w" and "takes_up E c p w = None"
  shows "yields I (auth_process E c p w)"
proof -
  obtain r w1 where l: "lift_ext (bindX (redis_new E) (\<lambda>_. redis_new E)) w = (r, w1)" by fastforce
  have "revive_target w1 c p = None" if "r = Inr u" for u
    using assms(2) l that
    by (auto simp: takes_up_def lift_ext_def revive_target_def findClientByToken_def split: prod.splits sum.splits)
  then show ?thesis
    using keep_lift_extD [OF l assms(1)]
    by (cases r) (auto simp: auth_process_def l intro!: keep_auth_replies keep_login)
qed

lemma keep_on_close: "I w \<Longrightarrow> yields I (on_close E cn stat w)" "I w \<Longrightarrow> yields I (on_error E cn w)"
  unfolding on_close_def on_error_def
  by (auto intro!: yields_after [OF keep_removeConnection(1)] yields_after [OF keep_removeConnection(2)])

lemma keep_on_tick:
  assumes "I w"
  shows "yields I (on_tick E w)"
proof -
  have tick: "yields (\<lambda>(tk, v). I v) (tick_client E cur c s)" if "case s of (tk, v) \<Rightarrow> I v" for cur c s
    using that
    by (auto simp: tick_client_def Let_def intro!: keep_basic yields_after [OF keep_makeOrphan] dest: known
        split: prod.split option.split)
  have kick: "yields I (kick_outdated E c v)" if "I v" for c v
    using that unfolding kick_outdated_def
    by (auto intro!: keep_removeClient close dest: known split: option.split)
  show ?thesis
    unfolding on_tick_eq
    by (rule yields_after [OF yields_foldR [OF tick]]) (auto simp: assms intro!: yields_foldR kick)
qed

end

subsection \<open>With the clock running\<close>

locale quiet_keeper = steady_keeper E K I
  for E :: "('j, 'x) env" and K :: "conn set" and I :: "'x world \<Rightarrow> bool" +
  assumes timed: "I w \<Longrightarrow> (\<And>c cn. c_connection (w_client v c) = Some cn \<Longrightarrow> cn \<in> K) \<Longrightarrow> w_room v = w_room w
      \<Longrightarrow> w_out v = w_out w \<Longrightarrow> w_nextRoom v = w_nextRoom w \<Longrightarrow> I v"
begin

lemma keep_times:
  "I w \<Longrightarrow> I (w\<lparr>w_now := t\<rparr>)" "I w \<Longrightarrow> I (upd_client c (\<lambda>cl. cl\<lparr>c_lastPacketTime := t\<rparr>) w)"
proof -
  assume w: "I w"
  show "I (w\<lparr>w_now := t\<rparr>)" by (rule timed [OF w]) (auto dest: known [OF w])
  show "I (upd_client c (\<lambda>cl. cl\<lparr>c_lastPacketTime := t\<rparr>) w)"
    by (rule timed [OF w]) (auto dest: known [OF w] split: if_splits)
qed

lemma keep_connected: "I w \<Longrightarrow> cn \<in> K \<Longrightarrow> I (connected E cn tok pos w)"
  by (rule timed) (auto simp: connected_sel dest: known split: if_splits)

lemma keep_onRevive:
  assumes "I w"
  shows "yields I (client_onRevive E c w)"
  unfolding client_onRevive_eq Let_def
  by (intro yields_foldR keep_revive_in_room) (auto intro: keep_times(2) [OF assms])

lemma keep_revive:
  assumes w: "I w"
  shows "yields (\<lambda>(b, w'). I w') (server_reviveClient E cur targ w)"
proof -
  have moved: "I (v\<lparr>w_connectionToClient := m\<rparr>)" if "I v" for v m
    by (rule keep_same [OF that]) simp_all
  have "yields (\<lambda>(b, w'). I w') (manager_reviveClient E cur targ w)"
    unfolding manager_reviveClient_def Let_def
    using w by (auto intro!: yields_after [OF keep_onRemove] yields_after [OF keep_onRevive] moved keep_basic
        dest: known [OF w] split: option.split)
  then show ?thesis
    unfolding server_reviveClient_def Let_def
    by (rule yields_after) (auto intro!: close known [OF w] split: option.split)
qed

lemma keep_auth:
  assumes "I w"
  shows "yields I (auth_process E c p w)"
  unfolding auth_process_def
  by (intro keep_lift_case [of _ "yields _"] assms)
    (auto intro!: keep_auth_replies yields_after [OF keep_revive] keep_login split: sum.split option.split)

lemma keep_on_open:
  assumes "I w" and "cn \<in> K"
  shows "yields I (on_open E cn w)"
proof -
  have connect: "yields I (manager_connect E cn v)" if "I v" for v
    using that unfolding manager_connect_eq by (auto intro!: yields_any keep_connected assms(2))
  show ?thesis
    unfolding on_open_def Let_def split_beta
    using assms by (auto intro!: yields_after connect keep_removeClient keep_basic split: option.split)
qed

end

subsection \<open>The whole program\<close>

locale ruling_keeper = steady_keeper E K I
  for E :: "('j, 'x) env" and K :: "conn set" and I :: "'x world \<Rightarrow> bool" +
  assumes step: "I w \<Longrightarrow> room_step E (w_room w r) (f (w_room w r)) \<Longrightarrow> I (upd_room r f w)"
    and new: "I w \<Longrightarrow> I (w\<lparr>w_room := (w_room w)(w_nextRoom w := room_setOwner u (room_setName nm room_new)),
      w_nextRoom := Suc (w_nextRoom w)\<rparr>)"
begin

lemma keep_room_set:
  assumes "I w" and "\<And>rm. room_step E rm (snd (f rm))"
  shows "I (on_room_set E m f yes no w)"
  using assms by (auto simp: on_room_set_def Let_def intro!: keep_basic step)

lemma keep_command:
  assumes w: "I w"
  shows "I (command_process E c m p w)"
proof (cases "regulating c")
  case True
  note intro = keep_intros keep_room_set step w room_steps
  have "I (cmd_bannick_process E m p w)"
    by (auto simp: cmd_bannick_process_def Let_def intro!: intro split: option.split)
  moreover have "I (cmd_banuid_process E m p w)" "I (cmd_banip_process E m p w)"
    "I (cmd_unbannick_process E m p w)" "I (cmd_unbanuid_process E m p w)" "I (cmd_unbanip_process E m p w)"
    by (auto simp: cmd_banuid_process_def cmd_banip_process_def cmd_unbannick_process_def
        cmd_unbanuid_process_def cmd_unbanip_process_def Let_def split_beta intro!: intro)
  moreover have "I (cmd_addmoder_process E m p w)" "I (cmd_delmoder_process E m p w)"
    by (auto simp: cmd_addmoder_process_def cmd_delmoder_process_def Let_def split_beta intro!: intro)
  ultimately show ?thesis using True by (auto simp: regulating_def)
next
  case False
  then show ?thesis by (rule keep_plain_command [OF w])
qed

lemma keep_processCommand:
  assumes "I w" and "processCommand E m r msg w = Some w'"
  shows "I w'"
proof (cases "msg \<noteq> [] \<and> hd msg = CHR ''/''")
  case True
  then obtain s where s: "msg = CHR ''/'' # s" by (cases msg) auto
  show ?thesis
    using assms(2) keep_command [OF assms(1)] keep_member(1) [OF assms(1)] processCommand_words(1) [OF s, of E m r w]
    by (auto simp: Let_def split: option.splits if_splits)
next
  case False
  then show ?thesis using assms(2) by (auto simp: processCommand_def)
qed

lemma keep_createRoom:
  assumes "I w"
  shows "server_createRoom nm w = (Some r, v) \<Longrightarrow> I (upd_room r (room_setOwner u) v)"
  by (auto simp: server_createRoom_def Let_def split: option.splits
      intro!: keep_same [OF new [OF assms]])

lemma keep_message:
  assumes "I w"
  shows "yields I (message_process E c p w)"
proof -
  have say: "yields I (say_in_room E c r targ msg v)" if v: "I v" for r targ msg v
    unfolding say_in_room_def
    using keep_processCommand [OF v] v
    by (cases "findMemberByClient v r c")
      (auto simp: Let_def split_beta intro!: keep_basic keep_message_id split: option.split)
  show ?thesis
    using assms unfolding message_process_def flood_window_def Let_def
    by (auto intro!: say keep_basic split: option.split)
qed

lemma keep_create: "I w \<Longrightarrow> I (create_room_process E c p w)"
  by (auto simp: create_room_process_def Let_def intro!: keep_basic intro: keep_createRoom split: option.split prod.split)

lemma keep_plain_packet: "I w \<Longrightarrow> (\<And>q. p \<noteq> Packet_Auth q) \<Longrightarrow> yields I (packet_process E c p w)"
  by (cases p) (auto simp: online_list_process_def keep_message keep_status keep_join keep_leave keep_create keep_remove
      packet split: option.split)

end

locale world_keeper = quiet_keeper E K I + ruling_keeper E K I
  for E :: "('j, 'x) env" and K :: "conn set" and I :: "'x world \<Rightarrow> bool"
begin

lemma keep_packet: "I w \<Longrightarrow> yields I (packet_process E c p w)"
  using keep_plain_packet [of w p c] keep_auth by (cases p) auto

lemma keep_on_message:
  assumes "I w"
  shows "yields I (on_message E cn msg w)"
proof -
  have "yields (\<lambda>r. case r of Inl e \<Rightarrow> True | Inr v \<Rightarrow> I v) (client_onPacket E c msg w)" for c
    unfolding client_onPacket_def
    using assms by (auto intro!: yields_after [OF keep_packet] keep_times split: sum.split option.split)
  then show ?thesis
    unfolding on_message_def
    using assms by (auto intro!: yields_after split: option.split sum.split sum.split_asm)
qed

theorem keep_handle: "I w \<Longrightarrow> opened ev \<subseteq> K \<Longrightarrow> yields I (handle E ev w)"
  by (cases ev) (auto intro: keep_on_open keep_on_message keep_on_close keep_on_tick keep_upd keep_times)

end

text \<open>A property that does not speak of connections holds for ever.\<close>

locale eternal_keeper = world_keeper E UNIV I
  for E :: "('j, 'x) env" and I :: "'x world \<Rightarrow> bool"
begin

theorem keep_reachable:
  assumes "reachable E w0 w" and "I w0"
  shows "I w"
  using assms
proof (induction rule: reachable.induct)
  case (step w w')
  from step.hyps(2) obtain ev where "handle E ev w = Inr w'" by (rule server_stepE)
  with keep_handle [OF step.IH [OF step.prems], of ev] show ?case by (auto dest: yieldsD)
qed

end

end
