(* ===== verification/RoomInvariants.thy ===== *)
theory RoomInvariants
  imports Traversal
begin

text \<open>
  Invariants of single rooms: whatever holds of a new room and is kept by the steps of a room
  holds of every room, whatever events the server handles. A room contract gives a world
  contract; invariants of everything that was ever sent are world contracts of their own.
\<close>

definition all_rooms :: "(room \<Rightarrow> bool) \<Rightarrow> 'x world \<Rightarrow> bool" where
  "all_rooms P w \<longleftrightarrow> (\<forall>r. P (w_room w r))"

locale room_keeper =
  fixes E :: "('j, 'x) env" and P :: "room \<Rightarrow> bool"
  assumes P_new: "P (room_setOwner u (room_setName nm room_new))"
    and P_step: "room_step E rm rm' \<Longrightarrow> P rm \<Longrightarrow> P rm'"

sublocale room_keeper \<subseteq> eternal_keeper E "all_rooms P"
  by unfold_locales (auto simp: all_rooms_def P_new quiet_step_def intro: P_step)

subsection \<open>What holds of every room\<close>

lemma AList_update_keys: "fst ` set (AList.update k v xs) = insert k (fst ` set xs)"
  using dom_update [of k v xs] by (simp add: dom_map_of_conv_image_fst)

lemma AList_update_key_in:
  "p \<in> set (AList.update k v xs) \<Longrightarrow> p = (k, v) \<or> p \<in> set xs"
  by (induction xs) (auto split: if_splits)

lemma room_sets_ok_info:
  assumes "room_sets_ok rm"
  shows "room_sets_ok (rm\<lparr>r_membersInfo := AList.update (mi_user_id info) info (r_membersInfo rm)\<rparr>)"
  using assms by (auto simp: room_sets_ok_def distinct_update dest: AList_update_key_in)

lemma distinct_uset: "distinct xs \<Longrightarrow> distinct (uset_insert x xs)" "distinct xs \<Longrightarrow> distinct (uset_erase x xs)"
  by (auto simp: uset_insert_def uset_erase_def)

lemmas room_update_defs = room_setName_def room_new_def room_setOwner_def room_newMessageId_def room_set_defs Let_def

text \<open>The sets are sets and the data of the members are those of their accounts.\<close>

lemma room_sets_ok_step: "room_step E rm rm' \<Longrightarrow> room_sets_ok rm \<Longrightarrow> room_sets_ok rm'"
proof (induction rule: room_step.induct)
  case (info mi)
  then show ?case by (intro room_sets_ok_info)
qed (auto simp: room_sets_ok_def room_update_defs intro: distinct_uset)

interpretation sets: room_keeper E room_sets_ok for E
  by unfold_locales (simp add: room_sets_ok_def room_update_defs, rule room_sets_ok_step)

text \<open>The history has at most as many messages as its limit.\<close>

interpretation history: room_keeper E "\<lambda>rm. length (r_history rm) \<le> history_limit E" for E
  by unfold_locales (simp add: room_update_defs,
    (erule room_step.cases; auto simp: room_update_defs trim_history_drop))

text \<open>Guests are no moderators, and nothing is remembered about them.\<close>

definition no_guests :: "room \<Rightarrow> bool" where
  "no_guests rm \<longleftrightarrow> 0 \<notin> set (r_moderators rm) \<and> 0 \<notin> fst ` set (r_membersInfo rm)"

interpretation guests: room_keeper E no_guests for E
  by unfold_locales (simp add: no_guests_def room_update_defs,
    (erule room_step.cases; auto simp: no_guests_def room_update_defs uset_insert_def uset_erase_def AList_update_keys))

text \<open>A history holds nothing but the frames of messages to everybody.\<close>

definition public_history :: "('j, 'x) env \<Rightarrow> room \<Rightarrow> bool" where
  "public_history E rm \<longleftrightarrow>
     (\<forall>h \<in> set (r_history rm). \<exists>pm. pm_to_id pm = 0 \<and> h = wire E (Packet_Message pm))"

lemma set_trim_history: "set (trim_history n hs) \<subseteq> set hs"
  by (simp add: trim_history_drop set_drop_subset)

lemma public_history_step: "room_step E rm rm' \<Longrightarrow> public_history E rm \<Longrightarrow> public_history E rm'"
proof (induction rule: room_step.induct)
  case (speak pm)
  then show ?case using set_trim_history [of "history_limit E" "r_history rm @ [wire E (Packet_Message pm)]"]
    by (fastforce simp: public_history_def)
qed (auto simp: public_history_def room_update_defs)

interpretation public: room_keeper E "public_history E" for E
  by unfold_locales (simp add: public_history_def room_update_defs, rule public_history_step)

subsection \<open>What was ever sent\<close>

text \<open>Every frame is the text of a packet, and of one that holds no credentials.\<close>

definition without_credentials :: "packet \<Rightarrow> packet" where
  "without_credentials p = (case p of
       Packet_Auth a \<Rightarrow> Packet_Auth (a\<lparr>pa_ukey := [], pa_api_key := [], pa_password := []\<rparr>)
     | _ \<Rightarrow> p)"

lemma without_credentials_idem: "without_credentials (without_credentials p) = without_credentials p"
  by (cases p) (simp_all add: without_credentials_def)

lemma wire_without_credentials: "wire E (without_credentials p) = wire E p"
  by (cases p) (simp_all add: without_credentials_def wire_def auth_serialize_def)

primrec packet_frame :: "('j, 'x) env \<Rightarrow> sent \<Rightarrow> bool" where
  "packet_frame E (Send cn d) = (\<exists>p. without_credentials p = p \<and> d = wire E p)"
| "packet_frame E (Send_close cn) = True"

definition frames_ok :: "('j, 'x) env \<Rightarrow> 'x world \<Rightarrow> bool" where
  "frames_ok E w \<longleftrightarrow> all_rooms (public_history E) w \<and> (\<forall>f \<in> set (w_out w). packet_frame E f)"

lemma delivery_frame: "f \<in> set (delivery w c (wire E p)) \<Longrightarrow> packet_frame E f"
  using without_credentials_idem [of p] wire_without_credentials [of E p]
  by (auto simp: delivery_def split: option.splits intro!: exI [of _ "without_credentials p"])

lemma replayed_frame:
  "public_history E (w_room w r) \<Longrightarrow> h \<in> set (r_history (w_room w r)) \<Longrightarrow> f \<in> set (delivery w c h) \<Longrightarrow> packet_frame E f"
  by (auto simp: public_history_def intro: delivery_frame)

interpretation frames: eternal_keeper E "frames_ok E" for E
proof unfold_locales
  fix w :: "'b world" and h r c
  assume "frames_ok E w" "h \<in> set (r_history (w_room w r))"
  then show "frames_ok E (client_sendRawData c h w)"
    using replayed_frame [of E w r h] by (auto simp: frames_ok_def all_rooms_def)
qed (auto simp: frames_ok_def all_rooms_def public.P_new quiet_step_def intro: public.P_step delivery_frame)

text \<open>What was sent stays sent, in its order.\<close>

interpretation sent: eternal_keeper E "\<lambda>v. prefix out (w_out v)" for E out
  by unfold_locales (simp_all add: prefix_prefix)

text \<open>What is sent goes to the connections that the clients keep to.\<close>

primrec sent_to :: "sent \<Rightarrow> conn" where
  "sent_to (Send cn d) = cn"
| "sent_to (Send_close cn) = cn"

definition sends_within :: "conn set \<Rightarrow> sent list \<Rightarrow> 'x world \<Rightarrow> bool" where
  "sends_within K out w \<longleftrightarrow> (\<forall>c cn. c_connection (w_client w c) = Some cn \<longrightarrow> cn \<in> K)
     \<and> (\<exists>new. w_out w = out @ new \<and> sent_to ` set new \<subseteq> K)"

lemma sends_within_more:
  "sends_within K out w \<Longrightarrow> w_client w' = w_client w \<Longrightarrow> w_out w' = w_out w @ fs \<Longrightarrow> sent_to ` set fs \<subseteq> K
     \<Longrightarrow> sends_within K out w'"
  by (auto simp: sends_within_def image_subset_iff)

lemma delivery_within: "sends_within K out w \<Longrightarrow> sent_to ` set (delivery w c d) \<subseteq> K"
  by (auto simp: sends_within_def delivery_def split: option.splits)

interpretation within: world_keeper E K "sends_within K out" for E K out
proof unfold_locales
  fix w :: "'b world" and c p
  assume w: "sends_within K out w"
  show "sends_within K out (client_sendPacket E c p w)"
    by (rule sends_within_more [OF w _ _ delivery_within [OF w]]) simp_all
next
  fix w :: "'b world" and c r h
  assume w: "sends_within K out w"
  show "sends_within K out (client_sendRawData c h w)"
    by (rule sends_within_more [OF w _ _ delivery_within [OF w]]) simp_all
next
  fix w :: "'b world" and cn
  assume "sends_within K out w" "cn \<in> K"
  then show "sends_within K out (closeConnection cn w)"
    by (elim sends_within_more [where fs = "[Send_close cn]"]) (simp_all add: closeConnection_def)
qed (auto simp: sends_within_def)

lemma handle_sends:
  assumes inv: "server_inv E w" and w': "handle E ev w = Inr w'"
  shows "\<exists>new. w_out w' = w_out w @ new \<and> sent_to ` set new \<subseteq> dom (w_connectionToClient w) \<union> opened ev"
proof -
  let ?K = "dom (w_connectionToClient w) \<union> opened ev"
  have tab: "tables_ok E w" by (rule server_okD(2) [OF invD(1) [OF inv]])
  have "cn \<in> ?K" if "c_connection (w_client w c) = Some cn" for c cn
    using that tables_okD(6) [OF tab, of c] tables_okD(3) [OF tab, of cn c] by fastforce
  then have "sends_within ?K (w_out w) w" by (auto simp: sends_within_def)
  from within.keep_handle [OF this, of ev E] w' show ?thesis by (simp add: sends_within_def)
qed

text \<open>A room keeps its name and its owner.\<close>

definition same_room :: "room \<Rightarrow> room \<Rightarrow> bool" where
  "same_room rm rm' \<longleftrightarrow> r_name rm' = r_name rm \<and> r_ownerId rm' = r_ownerId rm"

lemma same_room_step: "room_step E rm rm' \<Longrightarrow> same_room rm0 rm \<Longrightarrow> same_room rm0 rm'"
  by (erule room_step.cases) (simp_all add: same_room_def room_update_defs)

definition rooms_kept :: "nat \<Rightarrow> (nat \<Rightarrow> room) \<Rightarrow> 'x world \<Rightarrow> bool" where
  "rooms_kept n rooms w \<longleftrightarrow> n \<le> w_nextRoom w \<and> (\<forall>r < n. same_room (rooms r) (w_room w r))"

interpretation kept: eternal_keeper E "rooms_kept n rooms" for E n rooms
  by unfold_locales (auto simp: rooms_kept_def quiet_step_def intro: same_room_step)

end
