(* ===== verification/Process.thy ===== *)
theory Process
  imports RoomInvariants
begin

text \<open>
  \<open>wsserver.cpp\<close> and \<open>config.cpp\<close>: the life of the process around the server. It
  loads the rooms from a file when it starts, and saves them on a signal and when it ends.
  A signal is taken between two events of the server.
\<close>

subsection \<open>Files\<close>

type_synonym disk = "string \<rightharpoonup> string"

text \<open>
  The stream interface of jsoncpp: what \<open>Reader::parse\<close> leaves in a cleared value, the
  text \<open>StyledStreamWriter\<close> writes, and the files that can be opened for writing.
\<close>

record 'j streams =
  s_read :: "string \<Rightarrow> 'j"
  s_write :: "'j \<Rightarrow> string"
  s_writable :: "string \<Rightarrow> bool"

text \<open>A file that cannot be opened reads as empty, and writing to it does nothing.\<close>

definition loadFromFile :: "'j streams \<Rightarrow> string \<Rightarrow> disk \<Rightarrow> 'j" where
  "loadFromFile S file d = s_read S (case d file of None \<Rightarrow> [] | Some t \<Rightarrow> t)"

definition writeToFile :: "'j streams \<Rightarrow> string \<Rightarrow> 'j \<Rightarrow> disk \<Rightarrow> disk" where
  "writeToFile S file val d = (if s_writable S file then d(file \<mapsto> s_write S val) else d)"

definition rooms_dat :: string where
  "rooms_dat = ''rooms.dat''"

subsection \<open>The configuration\<close>

text \<open>
  \<open>Config\<close> reads its file once, before \<open>main\<close>; the constructor of \<open>Server\<close> takes the port from
  it, as a 16-bit number, and sets the number of threads and the endpoint.
\<close>

definition config_file :: string where
  "config_file = ''wsserver.conf.json''"

definition config_new :: "'j streams \<Rightarrow> disk \<Rightarrow> 'j" where
  "config_new S d = loadFromFile S config_file d"

definition config_at :: "'j jsoncpp \<Rightarrow> 'j \<Rightarrow> string \<Rightarrow> exn + 'j" where
  "config_at J conf key = j_get J conf key"

record listen =
  l_port :: "16 word"
  l_thread_pool_size :: nat
  l_endpoint :: string

definition server_listen :: "'j jsoncpp \<Rightarrow> 'j \<Rightarrow> exn + listen" where
  "server_listen J conf = bindS (bindS (config_at J conf ''port'') (j_asInt J)) (\<lambda>port.
     Inr \<lparr>l_port = word_of_int port, l_thread_pool_size = 1, l_endpoint = ''^/chat/?$''\<rparr>)"

text \<open>The port is the configured one just when it fits in 16 bits.\<close>

lemma server_listen_port:
  assumes "config_at J conf ''port'' = Inr v" and "j_asInt J v = Inr p"
  shows "\<exists>l. server_listen J conf = Inr l \<and> uint (l_port l) = p mod 2 ^ 16"
  using assms by (simp add: server_listen_def unsigned_of_int take_bit_eq_mod)

subsection \<open>The timer\<close>

text \<open>
  The completion handler that \<open>runWithInterval\<close> installs (\<open>server_ws_ex.hpp\<close>), at
  \<open>now\<close> in milliseconds: unless the wait failed (\<open>ec\<close>) it runs the function and arms
  the timer again. The result has the next expiry, if any.
\<close>

definition runWithInterval_handler ::
    "int \<Rightarrow> ('s \<Rightarrow> 's result) \<Rightarrow> bool \<Rightarrow> int \<Rightarrow> 's \<Rightarrow> (int option \<times> 's) result" where
  "runWithInterval_handler msec func ec now s =
     (if \<not> ec then bindS (func s) (\<lambda>s. Inr (Some (now + msec), s)) else Inr (None, s))"

text \<open>The handler of \<open>runWithTimeout\<close>, which runs the function once; nothing calls it.\<close>

definition runWithTimeout_handler ::
    "('s \<Rightarrow> 's result) \<Rightarrow> bool \<Rightarrow> 's \<Rightarrow> 's result" where
  "runWithTimeout_handler func ec s = (if \<not> ec then func s else Inr s)"

definition pingInterval :: int where
  "pingInterval = 30000"

definition on_timer :: "('j, 'x) env \<Rightarrow> bool \<Rightarrow> int \<Rightarrow> 'x world \<Rightarrow> (int option \<times> 'x world) result" where
  "on_timer E = runWithInterval_handler pingInterval (on_tick E)"

subsection \<open>The process\<close>

datatype signal = SIGTERM | SIGINT | SIGABRT | SIGUSR1

primrec signum :: "signal \<Rightarrow> int" where
  "signum SIGTERM = 15"
| "signum SIGINT = 2"
| "signum SIGABRT = 6"
| "signum SIGUSR1 = 10"

text \<open>\<open>Broken\<close> is a process that ran into undefined behaviour: it used the server before it had one.\<close>

datatype 'x process = Running "'x world" disk | Exited int disk | Broken

definition save_state :: "('j, 'x) env \<Rightarrow> 'j streams \<Rightarrow> 'x world \<Rightarrow> disk \<Rightarrow> disk" where
  "save_state E S w d = writeToFile S rooms_dat (server_serialize E w) d"

definition sigShutdown :: "('j, 'x) env \<Rightarrow> 'j streams \<Rightarrow> signal \<Rightarrow> 'x world \<Rightarrow> disk \<Rightarrow> 'x process" where
  "sigShutdown E S sg w d = Exited (if sg \<noteq> SIGTERM then signum sg else 0) (save_state E S w d)"

definition sigSave :: "('j, 'x) env \<Rightarrow> 'j streams \<Rightarrow> 'x world \<Rightarrow> disk \<Rightarrow> 'x process" where
  "sigSave E S w d = Running w (save_state E S w d)"

text \<open>The server as its constructor leaves it, at a time and with the outside services.\<close>

definition server_new :: "time \<Rightarrow> 'x \<Rightarrow> 'x world" where
  "server_new t x =
     \<lparr>w_client = (\<lambda>_. client_new [] 0), w_member = (\<lambda>_. member_new 0 0 0), w_room = (\<lambda>_. room_new),
      w_nextClient = 0, w_nextMember = 0, w_nextRoom = 0, w_rooms = [], w_clients = [],
      w_connectionToClient = Map.empty, w_tokenToClient = Map.empty, w_countersFromIp = [],
      w_now = t, w_random = 0, w_ext = x, w_out = []\<rparr>"

text \<open>
  \<open>main\<close> up to \<open>server->start()\<close>: install the handlers (\<open>installs\<close> tells for which
  signals that works), construct the server, then load the rooms; an exception on loading is only
  logged. Nobody catches an exception of the constructor, so it aborts the process; the handler
  of \<open>SIGABRT\<close> is \<open>sigShutdown\<close>, which uses the server.
\<close>

definition main_start :: "('j, 'x) env \<Rightarrow> 'j streams \<Rightarrow> (signal \<Rightarrow> bool) \<Rightarrow> time \<Rightarrow> 'x \<Rightarrow> disk \<Rightarrow> 'x process" where
  "main_start E S installs t x d =
     (if \<not> list_all installs [SIGTERM, SIGINT, SIGABRT] then Exited 1 d
      else if \<not> installs SIGUSR1 then Exited 1 d
      else case server_listen (e_json E) (config_new S d) of
             Inl e \<Rightarrow> Broken
           | Inr l \<Rightarrow> Running (snd (server_deserialize E (loadFromFile S rooms_dat d) (server_new t x))) d)"

text \<open>\<open>main\<close> after \<open>server->start()\<close> has returned.\<close>

definition main_end :: "('j, 'x) env \<Rightarrow> 'j streams \<Rightarrow> 'x world \<Rightarrow> disk \<Rightarrow> 'x process" where
  "main_end E S w d = Exited 0 (save_state E S w d)"

inductive process_step :: "('j, 'x) env \<Rightarrow> 'j streams \<Rightarrow> 'x process \<Rightarrow> 'x process \<Rightarrow> bool" for E S where
  event: "server_step E w w' \<Longrightarrow> process_step E S (Running w d) (Running w' d)"
| save: "process_step E S (Running w d) (sigSave E S w d)"
| shutdown: "sg \<noteq> SIGUSR1 \<Longrightarrow> process_step E S (Running w d) (sigShutdown E S sg w d)"
| stopped: "process_step E S (Running w d) (main_end E S w d)"

inductive_cases process_stepE: "process_step E S p p'"
inductive_simps process_exits: "process_step E S (Running w d) (Exited n d')"

text \<open>
  What can be reached from a machine without saved rooms by any number of starts, with
  processes that end as above or are killed.
\<close>

inductive process_run :: "('j, 'x) env \<Rightarrow> 'j streams \<Rightarrow> (signal \<Rightarrow> bool) \<Rightarrow> 'x process \<Rightarrow> bool" for E S installs where
  installed: "d rooms_dat = None \<Longrightarrow> process_run E S installs (Exited 0 d)"
| boot: "process_run E S installs (Exited n d) \<Longrightarrow> process_run E S installs (main_start E S installs t x d)"
| step: "process_run E S installs p \<Longrightarrow> process_step E S p p' \<Longrightarrow> process_run E S installs p'"
| killed: "process_run E S installs (Running w d) \<Longrightarrow> process_run E S installs (Exited 9 d)"

subsection \<open>What is on the disk\<close>

text \<open>The configuration file is one that the server starts with.\<close>

definition configured :: "('j, 'x) env \<Rightarrow> 'j streams \<Rightarrow> disk \<Rightarrow> bool" where
  "configured E S d \<longleftrightarrow> (\<exists>l. server_listen (e_json E) (config_new S d) = Inr l)"

lemma configured_save [simp]: "configured E S (save_state E S w d) = configured E S d"
  by (simp add: configured_def config_new_def loadFromFile_def save_state_def writeToFile_def config_file_def rooms_dat_def)

text \<open>The JSON library reads what it has written, and nothing from an empty file.\<close>

definition stream_laws :: "('j, 'x) env \<Rightarrow> 'j streams \<Rightarrow> bool" where
  "stream_laws E S \<longleftrightarrow> (\<forall>v. s_read S (s_write S v) = v) \<and> s_read S [] = j_null (e_json E)"

definition sound :: "('j, 'x) env \<Rightarrow> 'x world \<Rightarrow> bool" where
  "sound E w \<longleftrightarrow> server_inv E w \<and> all_rooms room_sets_ok w \<and> frames_ok E w"

definition disk_ok :: "('j, 'x) env \<Rightarrow> 'j streams \<Rightarrow> disk \<Rightarrow> bool" where
  "disk_ok E S d \<longleftrightarrow> d rooms_dat = None \<or>
     (\<exists>w :: 'x world. sound E w \<and> d rooms_dat = Some (s_write S (server_serialize E w)))"

lemma room_sets_ok_new: "room_sets_ok room_new"
  by (simp add: room_sets_ok_def room_new_def)

lemma room_sets_ok_restored: "room_sets_ok rm \<Longrightarrow> room_sets_ok (room_restored rm)"
  by (simp add: room_sets_ok_def room_restored_def)

lemma public_history_new: "public_history E room_new"
  by (simp add: public_history_def room_new_def)

lemma public_history_restored: "public_history E rm \<Longrightarrow> public_history E (room_restored rm)"
  by (simp add: public_history_def room_restored_def)

lemma server_new_started: "started (server_new t x)" "w_rooms (server_new t x) = []"
  by (simp_all add: started_def server_new_def client_new_def room_new_def names_ok_def)

lemma server_deserialize_out: "w_out (snd (server_deserialize E val w)) = w_out w"
proof -
  have "w_out (snd (load_rooms E vs v)) = w_out v" for vs v
    by (induction vs arbitrary: v) (auto split: sum.split)
  then show ?thesis by (simp add: server_deserialize_def Let_def split: sum.split)
qed

lemma sound_names: "sound E w \<Longrightarrow> names_ok w"
  by (rule chat_okD(5) [OF server_okD(1) [OF invD(1) [of E]]]) (simp add: sound_def)

lemma sound_rooms: "sound E w \<Longrightarrow> room_sets_ok (w_room w r)" "sound E w \<Longrightarrow> public_history E (w_room w r)"
  by (simp_all add: sound_def all_rooms_def frames_ok_def)

text \<open>Starting on the file that a server has saved gives its rooms again.\<close>

lemma start_saved:
  assumes J: "json_laws (e_json E)" and S: "stream_laws E S" and installs: "\<forall>sg. installs sg"
    and w: "sound E w" and d: "d rooms_dat = Some (s_write S (server_serialize E w))" and conf: "configured E S d"
  shows "\<exists>v. main_start E S installs t x d = Running v d \<and> sound E v
    \<and> map (w_room v) (w_rooms v) = map (\<lambda>r. room_restored (w_room w r)) (w_rooms w)"
proof -
  obtain v where v: "server_deserialize E (server_serialize E w) (server_new t x) = (Inr (), v)" "started v"
    "map (w_room v) (w_rooms v) = map (\<lambda>r. room_restored (w_room w r)) (w_rooms w)"
    and rooms: "\<And>r. w_room v r = w_room (server_new t x) r \<or> w_room v r \<in> (\<lambda>r. room_restored (w_room w r)) ` set (w_rooms w)"
    using server_round_trip [OF J _ sound_names [OF w] server_new_started] sound_rooms [OF w] by blast
  have "room_sets_ok (w_room v r)" "public_history E (w_room v r)" for r
    using rooms [of r] room_sets_ok_new room_sets_ok_restored public_history_new [of E] public_history_restored [of E]
      sound_rooms [OF w] by (auto simp: server_new_def)
  moreover have "w_out v = []"
    using server_deserialize_out [of E "server_serialize E w" "server_new t x"] v(1) by (simp add: server_new_def)
  ultimately have "sound E v" using started_inv [OF v(2)] by (simp add: sound_def all_rooms_def frames_ok_def)
  moreover have "loadFromFile S rooms_dat d = server_serialize E w"
    using S by (simp add: loadFromFile_def d stream_laws_def)
  ultimately show ?thesis using v installs conf by (auto simp: main_start_def configured_def)
qed

lemma start_empty:
  assumes J: "json_laws (e_json E)" and S: "stream_laws E S" and installs: "\<forall>sg. installs sg"
    and d: "d rooms_dat = None" and conf: "configured E S d"
  shows "main_start E S installs t x d = Running (server_new t x) d"
proof -
  have "j_get (e_json E) (built (e_json E) (j_null (e_json E)) []) ''rooms'' = Inr (j_null (e_json E))"
    by (simp add: json_lawsD(1) [OF J])
  then have "j_get (e_json E) (j_null (e_json E)) ''rooms'' = Inr (j_null (e_json E))" by (simp add: built_def)
  then have "snd (server_deserialize E (j_null (e_json E)) (server_new t x)) = server_new t x"
    using json_lawsD(3) [OF J] by (simp add: server_deserialize_def) (simp add: server_new_def)
  moreover have "loadFromFile S rooms_dat d = j_null (e_json E)" using S d by (simp add: loadFromFile_def stream_laws_def)
  ultimately show ?thesis using installs conf by (auto simp: main_start_def configured_def)
qed

lemma sound_new: "sound E (server_new t x)"
  using started_inv [OF server_new_started(1), where E = E] room_sets_ok_new public_history_new [of E]
  by (simp add: sound_def all_rooms_def frames_ok_def) (simp add: server_new_def)

lemma disk_ok_save: "sound E w \<Longrightarrow> disk_ok E S d \<Longrightarrow> disk_ok E S (save_state E S w d)"
  by (auto simp: disk_ok_def save_state_def writeToFile_def)

primrec process_ok :: "('j, 'x) env \<Rightarrow> 'j streams \<Rightarrow> 'x process \<Rightarrow> bool" where
  "process_ok E S (Running w d) = (sound E w \<and> disk_ok E S d \<and> configured E S d)"
| "process_ok E S (Exited n d) = disk_ok E S d"
| "process_ok E S Broken = True"

lemma process_run_ok:
  assumes J: "json_laws (e_json E)" and S: "stream_laws E S"
    and installs: "\<forall>sg. installs sg" and "process_run E S installs p"
  shows "process_ok E S p"
  using assms(4)
proof (induction rule: process_run.induct)
  case (installed d)
  then show ?case by (simp add: disk_ok_def)
next
  case (boot n d t x)
  then have d: "disk_ok E S d" by simp
  consider "\<not> configured E S d" | "configured E S d" "d rooms_dat = None"
    | w where "configured E S d" "sound E w" "d rooms_dat = Some (s_write S (server_serialize E w))"
    using d by (auto simp: disk_ok_def)
  then show ?case
  proof cases
    case 1
    then have "main_start E S installs t x d = Broken"
      using installs by (cases "server_listen (e_json E) (config_new S d)") (simp_all add: main_start_def configured_def)
    then show ?thesis by simp
  next
    case 2
    then show ?thesis using d by (simp add: start_empty [OF J S installs] sound_new)
  next
    case 3
    from start_saved [OF J S installs this(2,3,1), of t x] this(1) d show ?thesis by auto
  qed
next
  case (step p p')
  from step.hyps(2) show ?case
  proof (cases rule: process_step.cases)
    case (event w w' d)
    with step.IH have ok: "sound E w" "disk_ok E S d \<and> configured E S d" by simp_all
    from event(3) obtain ev where "handle E ev w = Inr w'" by (rule server_stepE)
    with sets.keep_handle [of w ev E] frames.keep_handle [of E w ev] ok(1)
    have "all_rooms room_sets_ok w'" "frames_ok E w'" by (simp_all add: sound_def yields_def)
    moreover have "server_inv E w'" using server_step_inv [OF _ event(3)] ok(1) by (simp add: sound_def)
    ultimately show ?thesis using ok(2) event by (simp add: sound_def)
  qed (use step.IH disk_ok_save in \<open>auto simp: sigSave_def sigShutdown_def main_end_def\<close>)
next
  case (killed w d)
  then show ?case by simp
qed

lemma restart_after_exit:
  assumes J: "json_laws (e_json E)" and S: "stream_laws E S"
    and installs: "\<forall>sg. installs sg" and run: "process_run E S installs (Running w d)"
    and exit: "process_step E S (Running w d) (Exited n d')" and "s_writable S rooms_dat"
  shows "\<exists>v. main_start E S installs t x d' = Running v d' \<and> sound E v
    \<and> map (w_room v) (w_rooms v) = map (\<lambda>r. room_restored (w_room w r)) (w_rooms w)"
proof -
  have "sound E w" "configured E S d" using process_run_ok [OF J S installs run] by simp_all
  moreover have d': "d' = save_state E S w d"
    using exit by (auto simp: process_exits sigShutdown_def main_end_def sigSave_def)
  then have "d' rooms_dat = Some (s_write S (server_serialize E w))"
    using assms(6) by (simp add: save_state_def writeToFile_def)
  ultimately show ?thesis using start_saved [OF J S installs, of w d' t x] by (simp add: d')
qed

text \<open>
  What is kept of a room, where the hash sets and the map of the code are sets and a map; and the
  room of a name, if there is one.
\<close>

definition contents :: "room \<Rightarrow> (string \<times> u32 \<times> string list \<times> u32)
    \<times> string set \<times> string set \<times> u32 set \<times> u32 set \<times> (u32 \<rightharpoonup> member_info)" where
  "contents rm = ((r_name rm, r_ownerId rm, r_history rm, r_nextMessageId rm), set (r_bannedNicks rm),
     set (r_bannedIps rm), set (r_bannedUids rm), set (r_moderators rm), map_of (r_membersInfo rm))"

definition room_called :: "'x world \<Rightarrow> string \<Rightarrow> room option" where
  "room_called w nm = map_option (w_room w) (server_getRoomByName w nm)"

lemma find_map_eq: "find P (map f xs) = map_option f (find (\<lambda>x. P (f x)) xs)"
  by (induction xs) simp_all

lemma rooms_restored_by_name:
  assumes "map (w_room v) (w_rooms v) = map (\<lambda>r. room_restored (w_room w r)) (w_rooms w)"
  shows "map_option contents (room_called v nm) = map_option contents (room_called w nm)"
    and "r \<in> set (w_rooms v) \<Longrightarrow> r_members (w_room v r) = []"
proof -
  have "room_called v nm = find (\<lambda>rm. r_name rm = nm) (map (w_room v) (w_rooms v))"
    by (simp add: room_called_def server_getRoomByName_def find_map_eq)
  also have "\<dots> = map_option (\<lambda>r. room_restored (w_room w r)) (server_getRoomByName w nm)"
    unfolding assms by (simp add: server_getRoomByName_def find_map_eq room_restored_def)
  finally have v: "room_called v nm = map_option room_restored (room_called w nm)"
    by (simp add: room_called_def option.map_comp comp_def)
  have "contents (room_restored rm) = contents rm" for rm by (simp add: contents_def room_restored_def)
  then show "map_option contents (room_called v nm) = map_option contents (room_called w nm)"
    unfolding v by (simp add: option.map_comp comp_def)
  show "r_members (w_room v r) = []" if "r \<in> set (w_rooms v)"
  proof -
    have "w_room v r \<in> set (map (w_room v) (w_rooms v))" using that by simp
    then show ?thesis unfolding assms by (auto simp: room_restored_def)
  qed
qed

end
