(* ===== verification/Joining.thy ===== *)
theory Joining
  imports RoomInvariants PacketFacts
begin

text \<open>
  What a client that asks to join a room gets: the world after the numbering of the new member
  (\<open>numbered\<close>), which is all that is left when the client is turned away, the world with the
  member in the room (\<open>joined\<close>), and the frames of the answer.
\<close>

definition numbered :: "room_ptr \<Rightarrow> client_ptr \<Rightarrow> u32 \<Rightarrow> 'x world \<Rightarrow> 'x world" where
  "numbered r c i w = upd_room r (\<lambda>rm. rm\<lparr>r_nextMemberId := i\<rparr>) (alloc r c i w)"

definition joined :: "room_ptr \<Rightarrow> client_ptr \<Rightarrow> u32 \<Rightarrow> 'x world \<Rightarrow> 'x world" where
  "joined r c i w = member_setStatus (w_nextMember w) St_online
     (upd_client c (\<lambda>cl. cl\<lparr>c_rooms := uset_insert r (c_rooms cl)\<rparr>)
       (upd_room r (\<lambda>rm. rm\<lparr>r_members := r_members rm @ [w_nextMember w]\<rparr>) (numbered r c i w)))"

definition ban_of :: "'x world \<Rightarrow> room_ptr \<Rightarrow> client_ptr \<Rightarrow> ban_exception option" where
  "ban_of w r c =
     (if privileged w r c then None
      else if c_lastClientIP (w_client w c) \<in> set (r_bannedIps (w_room w r)) then Some BannedByIPException
      else if c_uid (w_client w c) \<in> set (r_bannedUids (w_room w r)) then Some BannedByIDException
      else None)"

lemma room_addMember_eq:
  assumes ok: "members_ok w" and few: "length (r_members (w_room w r)) < 2 ^ 32 - 1"
  obtains i where "fresh_id r i w" and "room_addMember r c w = Inr (case ban_of w r c of
      Some e \<Rightarrow> (Inl e, numbered r c i w)
    | None \<Rightarrow> (Inr (Some (w_nextMember w)),
        upd_room r (\<lambda>rm. rm\<lparr>r_members := r_members rm @ [w_nextMember w]\<rparr>) (numbered r c i w)))"
proof -
  let ?m = "w_nextMember w"
  let ?w0 = "w\<lparr>w_member := (w_member w)(?m := member_new r c (w_now w)), w_nextMember := Suc ?m\<rparr>"
  have notin: "?m \<notin> set (r_members (w_room w r))" using members_okD(5) [OF ok] by blast
  obtain i where gen: "genNextMemberId r ?w0 = Inr (i, upd_room r (\<lambda>rm. rm\<lparr>r_nextMemberId := i\<rparr>) ?w0)"
    using genNextMemberId_total [of ?w0 r] few by auto
  have fresh: "fresh_id r i w"
    using genNextMemberId_fresh(1,2) [OF gen] notin by (auto simp: fresh_id_def split: if_splits)
  let ?w1 = "upd_member ?m (\<lambda>mb. mb\<lparr>m_id := i\<rparr>) (upd_room r (\<lambda>rm. rm\<lparr>r_nextMemberId := i\<rparr>) ?w0)"
  have w1: "?w1 = numbered r c i w" by (simp add: numbered_def alloc_def)
  have "privileged ?w1 r c = privileged w r c" by (simp add: privileged_def Let_def)
  then have mod: "member_isModer (numbered r c i w) ?m = privileged w r c"
    unfolding w1 [symmetric] by (simp add: member_isModer_privileged member_new_def)
  have sel: "w_client (numbered r c i w) = w_client w" "r_bannedIps (w_room (numbered r c i w) r) = r_bannedIps (w_room w r)"
    "r_bannedUids (w_room (numbered r c i w) r) = r_bannedUids (w_room w r)"
    "r_members (w_room (numbered r c i w) r) = r_members (w_room w r)"
    by (simp_all add: numbered_def alloc_def)
  have "room_addMember r c w = Inr (case ban_of w r c of
      Some e \<Rightarrow> (Inl e, numbered r c i w)
    | None \<Rightarrow> (Inr (Some (w_nextMember w)),
        upd_room r (\<lambda>rm. rm\<lparr>r_members := r_members rm @ [w_nextMember w]\<rparr>) (numbered r c i w)))"
    using notin
    by (simp add: room_addMember_def Let_def gen w1 mod sel ban_of_def room_isBannedIp_def room_isBannedUid_def)
  with fresh that show ?thesis by blast
qed

lemma client_joinRoom_eq:
  assumes ok: "members_ok w" and few: "length (r_members (w_room w r)) < 2 ^ 32 - 1"
  obtains i where "fresh_id r i w" and "client_joinRoom c r w = Inr (case ban_of w r c of
      Some e \<Rightarrow> (Inl e, numbered r c i w) | None \<Rightarrow> (Inr (Some (w_nextMember w)), joined r c i w))"
proof -
  obtain i where i: "fresh_id r i w" "room_addMember r c w = Inr (case ban_of w r c of
      Some e \<Rightarrow> (Inl e, numbered r c i w)
    | None \<Rightarrow> (Inr (Some (w_nextMember w)),
        upd_room r (\<lambda>rm. rm\<lparr>r_members := r_members rm @ [w_nextMember w]\<rparr>) (numbered r c i w)))"
    by (rule room_addMember_eq [OF assms])
  have "client_joinRoom c r w = Inr (case ban_of w r c of
      Some e \<Rightarrow> (Inl e, numbered r c i w) | None \<Rightarrow> (Inr (Some (w_nextMember w)), joined r c i w))"
    by (simp add: client_joinRoom_def i(2) joined_def Let_def split: option.split)
  with i(1) that show ?thesis by blast
qed

lemma numbered_sel:
  "w_client (numbered r c i w) = w_client w" "w_out (numbered r c i w) = w_out w"
  "r_members (w_room (numbered r c i w) q) = r_members (w_room w q)"
  "r_name (w_room (numbered r c i w) q) = r_name (w_room w q)"
  by (simp_all add: numbered_def alloc_def)

lemma joined_sel:
  "c_connection (w_client (joined r c i w) d) = c_connection (w_client w d)"
  "c_uid (w_client (joined r c i w) d) = c_uid (w_client w d)"
  "w_out (joined r c i w) = w_out w"
  "r_members (w_room (joined r c i w) q) = r_members (w_room w q) @ (if q = r then [w_nextMember w] else [])"
  "r_name (w_room (joined r c i w) q) = r_name (w_room w q)"
  "r_ownerId (w_room (joined r c i w) q) = r_ownerId (w_room w q)"
  "r_moderators (w_room (joined r c i w) q) = r_moderators (w_room w q)"
  "r_history (w_room (joined r c i w) q) = r_history (w_room w q)"
  "c_rooms (w_client (joined r c i w) d) = (if d = c then uset_insert r (c_rooms (w_client w c)) else c_rooms (w_client w d))"
  "w_member (joined r c i w) = (w_member w)(w_nextMember w := (member_new r c (w_now w))\<lparr>m_id := i, m_status := St_online\<rparr>)"
  by (auto simp: joined_def numbered_def alloc_def member_setStatus_def member_new_def Let_def)

subsection \<open>The answer\<close>

lemma w_out_send_history: "w_out (send_history c r w) = w_out w @ concat (map (delivery w c) (r_history (w_room w r)))"
proof -
  have "w_out (fold (client_sendRawData c) hs v) = w_out v @ concat (map (delivery w c) hs)" if "w_client v = w_client w" for hs v
    using that by (induction hs arbitrary: v) (simp_all add: delivery_def)
  from this [OF refl] show ?thesis by (simp add: send_history_def)
qed

definition greeting_frames :: "('j, 'x) env \<Rightarrow> room_ptr \<Rightarrow> u32 \<Rightarrow> packet_join \<Rightarrow> 'x world \<Rightarrow> string list" where
  "greeting_frames E r i p w =
     [wire E (Packet_Join (packet_join_new\<lparr>pj_sequenceId := pj_sequenceId p, pj_target := r_name (w_room w r), pj_member_id := i\<rparr>)),
      wire E (online_list_packet w r (pj_sequenceId p))] @ (if pj_load_history p then r_history (w_room w r) else [])"

text \<open>The list of members is the one without the new member, who has no nick yet.\<close>

lemma online_list_joined:
  assumes "members_ok w"
  shows "online_list_packet (joined r c i w) r q = online_list_packet w r q"
proof -
  have old: "m \<noteq> w_nextMember w" if "m \<in> set (r_members (w_room w r))" for m
    using members_okD(5) [OF assms that] by simp
  have priv: "privileged (joined r c i w) r' d = privileged w r' d" for r' d
    by (simp add: privileged_def joined_sel Let_def)
  have same: "current_status_packet (joined r c i w) m [] = current_status_packet w m []"
    if "m \<in> set (r_members (w_room w r))" for m
    using old [OF that] priv
    by (simp add: status_packet_def member_isModer_privileged member_isOwner_def joined_sel Let_def client_isAdmin_def)
  have "filter (\<lambda>m. m_nick (w_member (joined r c i w) m) \<noteq> []) (r_members (w_room (joined r c i w) r)) =
      filter (\<lambda>m. m_nick (w_member w m) \<noteq> []) (r_members (w_room w r))"
    using old by (auto simp: joined_sel member_new_def intro!: filter_cong)
  with same show ?thesis
    by (simp add: online_list_packet_def joined_sel cong: map_cong)
qed

lemma after_join_frames:
  fixes E :: "('j, 'x) env" and w :: "'x world"
  assumes ok: "members_ok w" and cn: "c_connection (w_client w c) = Some cn"
  shows "prefix (w_out w @ map (Send cn) (greeting_frames E r i p w))
    (w_out (after_join E c r p (w_nextMember w) (joined r c i w)))"
proof -
  let ?m = "w_nextMember w" and ?w1 = "joined r c i w"
  define w2 where "w2 = client_sendPacket E c (join_packet ?w1 ?m (pj_sequenceId p)) ?w1"
  define w3 where "w3 = client_sendPacket E c (online_list_packet w2 r (pj_sequenceId p)) w2"
  define w4 where "w4 = (if pj_load_history p then send_history c r w3 else w3)"
  let ?I = "\<lambda>v :: 'x world. prefix (w_out w4) (w_out v)"
  obtain nick w5 where 5: "(if pj_auto_login p then auto_login E r c ?m w4 else ([], w4)) = (nick, w5)"
    by fastforce
  have "?I (snd (auto_login E r c ?m w4))" by (rule sent.keep_auto_login) simp
  then have "?I w5" using 5 by (auto split: if_splits)
  then have "?I (after_join E c r p ?m ?w1)"
    unfolding after_join_def Let_def w2_def [symmetric] w3_def [symmetric] w4_def [symmetric] 5 prod.case
    by (auto intro!: sent.keep_member(1) sent.keep_setNick)
  moreover have "online_list_packet w2 r q = online_list_packet w r q" for q
    unfolding online_list_joined [OF ok, symmetric, of r q c i]
    by (simp add: w2_def online_list_packet_def status_packet_def member_isOwner_def member_isModer_privileged
        privileged_def Let_def)
  moreover have "join_packet ?w1 ?m q = Packet_Join (packet_join_new\<lparr>pj_sequenceId := q, pj_target := r_name (w_room w r), pj_member_id := i\<rparr>)" for q
    by (simp add: join_packet_def joined_sel member_new_def packet_join_new_def Let_def)
  moreover have d3: "delivery w3 c d = [Send cn d]" and "delivery w2 c d = [Send cn d]" and "delivery ?w1 c d = [Send cn d]" for d
    using cn by (simp_all add: w3_def w2_def delivery_def joined_sel)
  moreover have "concat (map (delivery w3 c) hs) = map (Send cn) hs" for hs by (induction hs) (simp_all add: d3)
  moreover have "w_room w3 r = w_room ?w1 r" "w_out w3 = w_out ?w1 @ delivery ?w1 c (wire E (join_packet ?w1 ?m (pj_sequenceId p)))
      @ delivery w2 c (wire E (online_list_packet w2 r (pj_sequenceId p)))"
    by (simp_all add: w3_def w2_def)
  ultimately show ?thesis
    by (simp add: greeting_frames_def w4_def w_out_send_history joined_sel split: if_splits)
qed

text \<open>Greeting a member changes nobody's membership.\<close>

lemma after_join_view:
  "view (after_join E c r p m w) = view w \<or> (\<exists>n. view (after_join E c r p m w) = view (rename m n w))"
proof -
  let ?w2 = "client_sendPacket E c (join_packet w m (pj_sequenceId p)) w"
  let ?w3 = "client_sendPacket E c (online_list_packet ?w2 r (pj_sequenceId p)) ?w2"
  let ?w4 = "if pj_load_history p then send_history c r ?w3 else ?w3"
  obtain nick w5 where 5: "(if pj_auto_login p then auto_login E r c m ?w4 else ([], ?w4)) = (nick, w5)"
    by fastforce
  have "view w5 = view ?w4" using 5 by (auto split: if_splits dest: view_auto_login)
  then have v5: "view w5 = view w" by (simp add: view_simps)
  then have v: "view (member_sendPacket E m q w5) = view w" for q by (simp add: view_simps)
  have renamed: "view (rename m n v') = view (rename m n w)" if "view v' = view w" for n v'
    by (simp add: view_def fun_eq_iff client_view_def member_view_def room_view_def rename_def view_eqD [OF that])
  show ?thesis
    unfolding after_join_def Let_def 5 prod.case
    using view_setNick [of E m nick "member_sendPacket E m q w5" for q] renamed [OF v] v v5
    by (auto simp: view_member_sendPacket)
qed

lemma joined_membership:
  assumes "view w' = view w \<or> (\<exists>n. view w' = view (rename m n w))"
  shows "r_members (w_room w' q) = r_members (w_room w q)" and "c_rooms (w_client w' d) = c_rooms (w_client w d)"
    and "m_id (w_member w' k) = m_id (w_member w k)" and "m_client (w_member w' k) = m_client (w_member w k)"
  using assms by (auto simp: rename_sel dest: view_eqD)

subsection \<open>The request to join\<close>

text \<open>The text of the refusal of a banned client.\<close>

definition ban_text :: "'x world \<Rightarrow> client_ptr \<Rightarrow> ban_exception \<Rightarrow> string" where
  "ban_text w c e = (if e = BannedByIDException \<and> c_uid (w_client w c) = 0 then txt_guest_no_join else txt_you_banned)"

lemma join_elsewhere:
  assumes "c_connection (w_client w c) = Some cn"
  shows "client_getRoomByName w c (pj_target p) \<noteq> None \<Longrightarrow> \<exists>w'. join_process E c p w = Inr w'
      \<and> (\<forall>q. r_members (w_room w' q) = r_members (w_room w q)) \<and> w_client w' = w_client w
      \<and> w_out w' = w_out w @ [Send cn (wire E (err_packet PT_join (pj_sequenceId p) (pj_target p) EC_already_connected
          (txt_already_connected @ pj_target p @ quote)))]"
    and "client_getRoomByName w c (pj_target p) = None \<Longrightarrow> server_getRoomByName w (pj_target p) = None
      \<Longrightarrow> \<exists>w'. join_process E c p w = Inr w'
      \<and> (\<forall>q. r_members (w_room w' q) = r_members (w_room w q)) \<and> w_client w' = w_client w
      \<and> w_out w' = w_out w @ [Send cn (wire E (err_packet PT_join (pj_sequenceId p) (pj_target p) EC_not_found
          (txt_room_pre @ pj_target p @ txt_room_post)))]"
  using assms by (simp_all add: join_process_def delivery_def)

lemma join_banned:
  assumes ok: "members_ok w" and few: "length (r_members (w_room w r)) < 2 ^ 32 - 1"
    and cn: "c_connection (w_client w c) = Some cn"
    and r: "client_getRoomByName w c (pj_target p) = None" "server_getRoomByName w (pj_target p) = Some r"
    and e: "ban_of w r c = Some e"
  shows "\<exists>w'. join_process E c p w = Inr w' \<and> (\<forall>q. r_members (w_room w' q) = r_members (w_room w q))
    \<and> w_client w' = w_client w \<and> w_out w' = w_out w @ [Send cn (wire E
        (err_packet PT_join (pj_sequenceId p) (pj_target p) EC_user_banned (ban_text w c e)))]"
proof -
  obtain i where "client_joinRoom c r w = Inr (Inl e, numbered r c i w)"
    using client_joinRoom_eq [OF ok few, of c] e by auto
  then have "join_process E c p w = Inr (ban_reply E c r p e (numbered r c i w))" by (simp add: join_process_def r)
  moreover have "r_name (w_room w r) = pj_target p" using server_getRoomByName_Some [OF r(2)] by simp
  ultimately show ?thesis
    by (cases e) (simp_all add: ban_reply_def numbered_sel delivery_def cn ban_text_def)
qed

lemma join_welcomed:
  assumes ok: "members_ok w" and few: "length (r_members (w_room w r)) < 2 ^ 32 - 1"
    and cn: "c_connection (w_client w c) = Some cn"
    and r: "client_getRoomByName w c (pj_target p) = None" "server_getRoomByName w (pj_target p) = Some r"
    and e: "ban_of w r c = None"
  shows "\<exists>w' i. join_process E c p w = Inr w' \<and> fresh_id r i w
    \<and> (\<forall>q. set (r_members (w_room w' q)) = (if q = r then {w_nextMember w} else {}) \<union> set (r_members (w_room w q)))
    \<and> w_nextMember w \<notin> set (r_members (w_room w r))
    \<and> m_client (w_member w' (w_nextMember w)) = c \<and> m_id (w_member w' (w_nextMember w)) = i
    \<and> (\<forall>d. set (c_rooms (w_client w' d)) = (if d = c then {r} else {}) \<union> set (c_rooms (w_client w d)))
    \<and> prefix (w_out w @ map (Send cn) (greeting_frames E r i p w)) (w_out w')"
proof -
  obtain i where i: "fresh_id r i w" "client_joinRoom c r w = Inr (Inr (Some (w_nextMember w)), joined r c i w)"
    using client_joinRoom_eq [OF ok few, of c] e by auto
  let ?w' = "after_join E c r p (w_nextMember w) (joined r c i w)"
  have "join_process E c p w = Inr ?w'" by (simp add: join_process_def r i(2))
  moreover note joined_membership [OF after_join_view [of E c r p "w_nextMember w" "joined r c i w"]]
  moreover have "prefix (w_out w @ map (Send cn) (greeting_frames E r i p w)) (w_out ?w')"
    by (rule after_join_frames [OF ok cn])
  ultimately show ?thesis
    using i(1) members_okD(5) [OF ok, of "w_nextMember w" r] by (auto simp: joined_sel member_new_def uset_insert_def)
qed

subsection \<open>Nick, gender and color of the new member\<close>

text \<open>What a room remembers of the account of a client, or else what the client brings.\<close>

definition look_of :: "'x world \<Rightarrow> room_ptr \<Rightarrow> client_ptr \<Rightarrow> string \<times> bool \<times> string" where
  "look_of w r c = (let cl = w_client w c
     in case (if c_uid cl = 0 then None else map_of (r_membersInfo (w_room w r)) (c_uid cl)) of
          Some info \<Rightarrow> (mi_nick info, mi_girl info, mi_color info)
        | None \<Rightarrow> (c_name cl, c_isGirl cl, c_color cl))"

definition look :: "member \<Rightarrow> string \<times> bool \<times> string" where
  "look mb = (m_nick mb, m_girl mb, m_color mb)"

definition nick_refused :: "'x world \<Rightarrow> room_ptr \<Rightarrow> client_ptr \<Rightarrow> string \<Rightarrow> bool" where
  "nick_refused w r c n \<longleftrightarrow> \<not> privileged w r c \<and> n \<in> set (r_bannedNicks (w_room w r))
     \<or> (\<exists>k \<in> set (r_members (w_room w r)). m_nick (w_member w k) = n)"

lemma auto_login_look:
  fixes w :: "'x world"
  assumes m: "m_client (w_member w m) = c" "m_room (w_member w m) = r"
  obtains w' where "auto_login E r c m w = (if nick_refused w r c (fst (look_of w r c)) then [] else fst (look_of w r c), w')"
    and "w_room w' = w_room w" and "w_client w' = w_client w"
    and "w_member w' = (w_member w)(m := (w_member w m)\<lparr>m_girl := fst (snd (look_of w r c)), m_color := snd (snd (look_of w r c))\<rparr>)"
proof -
  obtain nick w' where run: "auto_login E r c m w = (nick, w')" by fastforce
  have stored: "getStoredMemberInfo w r m = (if c_uid (w_client w c) = 0 then None else map_of (r_membersInfo (w_room w r)) (c_uid (w_client w c)))"
    by (simp add: getStoredMemberInfo_def m Let_def)
  have "nick = (if nick_refused w r c (fst (look_of w r c)) then [] else fst (look_of w r c))"
    using auto_login_nick [of E r c m w] run
    by (auto simp: remembered_nick_def stored look_of_def nick_refused_def member_isModer_privileged m Let_def split: option.split)
  moreover have "w_room w' = w_room w \<and> w_client w' = w_client w
      \<and> w_member w' = (w_member w)(m := (w_member w m)\<lparr>m_girl := fst (snd (look_of w r c)), m_color := snd (snd (look_of w r c))\<rparr>)"
    using run unfolding auto_login_def stored look_of_def Let_def
    by (auto simp: member_setColor_def member_setGirl_def split: option.splits if_splits)
  ultimately show thesis using run that by blast
qed

lemma after_join_look:
  fixes w :: "'x world"
  assumes m: "m_client (w_member w m) = c" "m_room (w_member w m) = r" "m_nick (w_member w m) = []"
  defines "old \<equiv> look_of w r c"
  shows "w_member (after_join E c r p m w) = (w_member w)(m := if pj_auto_login p
    then (w_member w m)\<lparr>m_nick := if nick_refused w r c (fst old) then [] else fst old, m_girl := fst (snd old), m_color := snd (snd old)\<rparr>
    else w_member w m)"
proof -
  define w3 where "w3 = client_sendPacket E c (online_list_packet (client_sendPacket E c (join_packet w m (pj_sequenceId p)) w) r
    (pj_sequenceId p)) (client_sendPacket E c (join_packet w m (pj_sequenceId p)) w)"
  define w4 where "w4 = (if pj_load_history p then send_history c r w3 else w3)"
  have sent: "w_room (send_history c r v) = w_room v" "w_client (send_history c r v) = w_client v"
    "w_member (send_history c r v) = w_member v" for v :: "'x world"
    by (unfold send_history_def, (rule fold_invariant_view, simp)+)
  have w4: "w_room w4 = w_room w" "w_client w4 = w_client w" "w_member w4 = w_member w"
    by (simp_all add: w4_def w3_def sent)
  have old: "look_of w4 r c = old" "nick_refused w4 r c n = nick_refused w r c n" for n
    by (simp_all add: old_def look_of_def nick_refused_def privileged_def w4 cong: if_cong)
  have priv: "privileged v r c = privileged w r c" if "w_room v = w_room w" "w_client v = w_client w" for v :: "'x world"
    using that by (simp add: privileged_def)
  have empty: "(w_member w m)\<lparr>m_nick := [], m_girl := g, m_color := x\<rparr> = (w_member w m)\<lparr>m_girl := g, m_color := x\<rparr>" for g x
    using m(3) by (cases "w_member w m") simp
  show ?thesis
  proof (cases "pj_auto_login p")
    case True
    obtain w5 where w5: "auto_login E r c m w4 = (if nick_refused w r c (fst old) then [] else fst old, w5)"
      "w_room w5 = w_room w" "w_client w5 = w_client w"
      "w_member w5 = (w_member w)(m := (w_member w m)\<lparr>m_girl := fst (snd old), m_color := snd (snd old)\<rparr>)"
      using auto_login_look [of w4 m c r E] m unfolding old w4 by metis
    have "after_join E c r p m w = (let nick = (if nick_refused w r c (fst old) then [] else fst old);
        v = member_sendPacket E m (sys_packet (r_name (w_room w5 r)) txt_type_help) w5
      in if nick = [] then member_sendPacket E m (sys_packet (r_name (w_room v r)) txt_need_nick) v else member_setNick E m nick v)"
      unfolding after_join_def Let_def w3_def [symmetric] w4_def [symmetric] if_P [OF True] w5(1) prod.case by (rule refl)
    then show ?thesis
      using True m priv [OF w5(2,3)]
      by (auto simp: Let_def w5 empty member_setNick_def member_isModer_privileged room_isBannedNick_def nick_refused_def privileged_def)
  next
    case False
    then show ?thesis
      unfolding after_join_def Let_def w3_def [symmetric] w4_def [symmetric] if_not_P [OF False] prod.case by (simp add: w4)
  qed
qed

lemma join_look:
  fixes w :: "'x world"
  assumes ok: "members_ok w" and few: "length (r_members (w_room w r)) < 2 ^ 32 - 1"
    and r: "client_getRoomByName w c (pj_target p) = None" "server_getRoomByName w (pj_target p) = Some r"
    and e: "ban_of w r c = None"
  defines "m \<equiv> w_nextMember w" and "old \<equiv> look_of w r c"
  shows "\<exists>w'. join_process E c p w = Inr w' \<and> m \<in> set (r_members (w_room w' r)) \<and> m_client (w_member w' m) = c
    \<and> m_room (w_member w' m) = r \<and> (\<forall>k. k = m \<or> w_member w' k = w_member w k)
    \<and> (if pj_auto_login p then look (w_member w' m) = (if nick_refused w r c (fst old) then [] else fst old, snd old)
        else m_nick (w_member w' m) = [])"
proof -
  obtain i where i: "client_joinRoom c r w = Inr (Inr (Some m), joined r c i w)"
    using client_joinRoom_eq [OF ok few, of c] e unfolding m_def by auto
  let ?v = "joined r c i w"
  let ?w' = "after_join E c r p m ?v"
  have run: "join_process E c p w = Inr ?w'" by (simp add: join_process_def r i)
  have new: "m_client (w_member ?v m) = c" "m_room (w_member ?v m) = r" "m_nick (w_member ?v m) = []"
    by (simp_all add: joined_sel member_new_def m_def)
  have cl: "c_uid (w_client ?v d) = c_uid (w_client w d)" "c_name (w_client ?v d) = c_name (w_client w d)"
    "c_isGirl (w_client ?v d) = c_isGirl (w_client w d)" "c_color (w_client ?v d) = c_color (w_client w d)" for d
    by (simp_all add: joined_def numbered_def alloc_def member_setStatus_def)
  have rm: "r_membersInfo (w_room ?v q) = r_membersInfo (w_room w q)" "r_bannedNicks (w_room ?v q) = r_bannedNicks (w_room w q)" for q
    by (simp_all add: joined_def numbered_def alloc_def member_setStatus_def)
  have old: "look_of ?v r c = old" by (simp add: look_of_def old_def cl rm Let_def cong: if_cong option.case_cong)
  have priv: "privileged ?v r c = privileged w r c" by (simp add: privileged_def joined_sel Let_def)
  have "k \<noteq> m" if "k \<in> set (r_members (w_room w r))" for k using members_okD(5) [OF ok that] by (auto simp: m_def)
  then have "(\<exists>k \<in> set (r_members (w_room ?v r)). m_nick (w_member ?v k) = n)
      \<longleftrightarrow> n = [] \<or> (\<exists>k \<in> set (r_members (w_room w r)). m_nick (w_member w k) = n)" for n
    by (auto simp: joined_sel m_def member_new_def)
  then have refused: "nick_refused ?v r c n \<longleftrightarrow> n = [] \<or> nick_refused w r c n" for n
    by (auto simp: nick_refused_def priv rm)
  have nick: "(if nick_refused ?v r c n then [] else n) = (if nick_refused w r c n then [] else n)" for n
    by (simp add: refused)
  have mem: "w_member ?w' = (w_member ?v)(m := if pj_auto_login p
      then (w_member ?v m)\<lparr>m_nick := if nick_refused w r c (fst old) then [] else fst old, m_girl := fst (snd old), m_color := snd (snd old)\<rparr>
      else w_member ?v m)"
    using after_join_look [OF new, of E p] unfolding old nick .
  have "m \<in> set (r_members (w_room ?w' r))"
    using joined_membership(1) [OF after_join_view, of E c r p m ?v r] by (simp add: joined_sel m_def)
  moreover have "\<forall>k. k = m \<or> w_member ?w' k = w_member w k" unfolding mem by (simp add: joined_sel m_def)
  moreover have "m_client (w_member ?w' m) = c" "m_room (w_member ?w' m) = r"
    and "if pj_auto_login p then look (w_member ?w' m) = (if nick_refused w r c (fst old) then [] else fst old, snd old)
        else m_nick (w_member ?w' m) = []"
    using new unfolding mem by (simp_all add: look_def)
  ultimately show ?thesis using run by blast
qed

end
