(* ===== verification/EndToEnd.thy ===== *)
theory EndToEnd
  imports PacketFacts WireFacts
begin

text \<open>
  From socket to socket: a frame that a client sends is read, handled and answered with the
  frames of the members of its room.
\<close>

lemma on_message_packet:
  assumes "wire_laws E" and "in_range p" and "w_connectionToClient w cn = Some c"
  shows "on_message E cn (wire E p) w =
    packet_process E c (received E p) (upd_client c (\<lambda>cl. cl\<lparr>c_lastPacketTime := w_now w\<rparr>) w)"
  using packet_round_trip [OF assms(1,2)] assms(3)
  by (cases "packet_process E c (received E p) (upd_client c (\<lambda>cl. cl\<lparr>c_lastPacketTime := w_now w\<rparr>) w)")
    (simp_all add: on_message_def client_onPacket_def findClientByConnection_def)

lemma message_frames:
  fixes E :: "('j, 'x) env" and w :: "'x world"
  assumes "server_ok E w" and r: "client_getRoomByName w c (pm_target p) = Some r"
    and m: "findMemberByClient w r c = Some m" and nick: "m_nick (w_member w m) \<noteq> []" and targ: "pm_target p \<noteq> []"
    and msg: "pm_message p \<noteq> []" "hd (pm_message p) \<noteq> CHR ''/''" "\<not> list_all is_space (pm_message p)"
    and flood: "in_window w c \<Longrightarrow> c_messageCounter (w_client w c) \<le> 3"
  defines "d \<equiv> wire E (room_message w r m (pm_message p))"
  shows "\<exists>w'. message_process E c p (upd_client c (\<lambda>cl. cl\<lparr>c_lastPacketTime := t\<rparr>) w) = Inr w'
    \<and> w_out w' = w_out w @ map (\<lambda>k. Send k d) (room_connections w r)
    \<and> r_history (w_room w' r) = trim_history (history_limit E) (r_history (w_room w r) @ [d])
    \<and> r_nextMessageId (w_room w' r) = r_nextMessageId (w_room w r) + 1
    \<and> c_messageCounter (w_client w' c) = (if in_window w c then c_messageCounter (w_client w c) + 1 else 1)
    \<and> c_lastMessageTime (w_client w' c) = (if in_window w c then c_lastMessageTime (w_client w c) else w_now w)"
proof -
  let ?w = "upd_client c (\<lambda>cl. cl\<lparr>c_lastPacketTime := t\<rparr>) w"
  let ?v = "upd_room r (\<lambda>rm. snd (room_newMessageId rm)) (upd_client c (\<lambda>cl. cl\<lparr>c_messageCounter := c_messageCounter cl + 1\<rparr>) (flood_window c ?w))"
  have "client_getRoomByName ?w c (pm_target p) = Some r" "findMemberByClient ?w r c = Some m"
    "m_nick (w_member ?w m) \<noteq> []" and "in_window ?w c \<Longrightarrow> c_messageCounter (w_client ?w c) \<le> 3"
    and window: "in_window ?w c = in_window w c"
    using r m nick flood by (simp_all add: client_getRoomByName_def findMemberByClient_def in_window_def)
  from message_into_room [OF this(1-3) targ msg this(4)]
  have run: "message_process E c p ?w = Inr (sendPacketToAll E r (room_message ?w r m (pm_message p)) ?v)" .
  have d: "wire E (room_message ?w r m (pm_message p)) = d"
    by (simp add: d_def room_message_def message_packet_def Let_def)
  have conns: "room_connections ?v r = room_connections w r"
    unfolding room_connections_def
    by (intro arg_cong [where f = concat] map_cong) (simp_all add: room_newMessageId_def flood_window_sel split: option.split)
  have "w_out (sendPacketToAll E r (room_message ?w r m (pm_message p)) ?v) = w_out w @ map (\<lambda>k. Send k d) (room_connections w r)"
    by (simp add: broadcast_out d conns flood_window_sel)
  moreover have "r_history (w_room (sendPacketToAll E r (room_message ?w r m (pm_message p)) ?v) r)
      = trim_history (history_limit E) (r_history (w_room w r) @ [d])"
    using d by (simp add: sendPacketToAll_eq addToHistory_def room_message_def message_packet_def room_newMessageId_def flood_window_sel Let_def)
  moreover have "r_nextMessageId (w_room (sendPacketToAll E r (room_message ?w r m (pm_message p)) ?v) r)
      = r_nextMessageId (w_room w r) + 1"
    by (simp add: sendPacketToAll_eq addToHistory_def room_message_def room_newMessageId_def flood_window_sel)
  moreover have "c_messageCounter (w_client (sendPacketToAll E r (room_message ?w r m (pm_message p)) ?v) c)
      = (if in_window w c then c_messageCounter (w_client w c) + 1 else 1)"
    and "c_lastMessageTime (w_client (sendPacketToAll E r (room_message ?w r m (pm_message p)) ?v) c)
      = (if in_window w c then c_lastMessageTime (w_client w c) else w_now w)"
    by (simp_all add: flood_window_sel window)
  ultimately show ?thesis using run by blast
qed

lemma message_end_to_end:
  fixes E :: "('j, 'x) env"
  defines "said \<equiv> \<lambda>p. clean_message E (pm_message p)"
  assumes wire: "wire_laws E" and range: "0 \<le> pm_msgtime p" "pm_msgtime p < 2 ^ 64"
    and ok: "server_ok E w" and cn: "w_connectionToClient w cn = Some c"
    and r: "client_getRoomByName w c (pm_target p) = Some r" and m: "findMemberByClient w r c = Some m"
    and nick: "m_nick (w_member w m) \<noteq> []" and targ: "pm_target p \<noteq> []"
    and msg: "said p \<noteq> []" "hd (said p) \<noteq> CHR ''/''" "\<not> list_all is_space (said p)"
    and flood: "in_window w c \<Longrightarrow> c_messageCounter (w_client w c) \<le> 3"
  shows "\<exists>w' sends. on_message E cn (wire E (Packet_Message p)) w = Inr w' \<and> w_out w' = w_out w @ sends
    \<and> (\<forall>k d. count_list sends (Send k d) =
        (if d = wire E (room_message w r m (said p))
            \<and> (\<exists>q \<in> set (r_members (w_room w r)). c_connection (w_client w (m_client (w_member w q))) = Some k)
         then 1 else 0))
    \<and> r_history (w_room w' r) =
        trim_history (history_limit E) (r_history (w_room w r) @ [wire E (room_message w r m (said p))])
    \<and> r_nextMessageId (w_room w' r) = r_nextMessageId (w_room w r) + 1
    \<and> c_messageCounter (w_client w' c) = (if in_window w c then c_messageCounter (w_client w c) + 1 else 1)
    \<and> c_lastMessageTime (w_client w' c) = (if in_window w c then c_lastMessageTime (w_client w c) else w_now w)"
proof -
  define p' where "p' = p\<lparr>pm_id := [], pm_message := said p, pm_color := [], pm_from_login := [], pm_from_id := 0,
    pm_style := Sty_message\<rparr>"
  let ?d = "wire E (room_message w r m (said p))"
  have p': "pm_target p' = pm_target p" "pm_message p' = said p" by (simp_all add: p'_def)
  from message_frames [OF ok, where c = c and p = p' and r = r and m = m and t = "w_now w",
      unfolded p', OF r m nick targ msg flood]
  obtain w' where w': "message_process E c p' (upd_client c (\<lambda>cl. cl\<lparr>c_lastPacketTime := w_now w\<rparr>) w) = Inr w'"
    "w_out w' = w_out w @ map (\<lambda>k. Send k ?d) (room_connections w r)"
    "r_history (w_room w' r) = trim_history (history_limit E) (r_history (w_room w r) @ [?d])"
    "r_nextMessageId (w_room w' r) = r_nextMessageId (w_room w r) + 1"
    "c_messageCounter (w_client w' c) = (if in_window w c then c_messageCounter (w_client w c) + 1 else 1)"
    "c_lastMessageTime (w_client w' c) = (if in_window w c then c_lastMessageTime (w_client w c) else w_now w)" by blast
  have "on_message E cn (wire E (Packet_Message p)) w = Inr w'"
    using on_message_packet [OF wire _ cn, of "Packet_Message p"] range w'(1) by (simp add: p'_def said_def)
  moreover have "count_list (map (\<lambda>k. Send k ?d) (room_connections w r)) (Send k d) =
      (if d = ?d \<and> (\<exists>q \<in> set (r_members (w_room w r)). c_connection (w_client w (m_client (w_member w q))) = Some k)
       then 1 else 0)" for k d
  proof (cases "d = ?d")
    case True
    then show ?thesis
      by (simp add: count_list_map_Send count_list_distinct [OF distinct_room_connections [OF ok]] set_room_connections)
  next
    case False
    then have "Send k d \<notin> set (map (\<lambda>k. Send k ?d) (room_connections w r))" by auto
    then have "count_list (map (\<lambda>k. Send k ?d) (room_connections w r)) (Send k d) = 0" by (simp only: count_list_0_iff not_False_eq_True)
    with False show ?thesis by simp
  qed
  ultimately show ?thesis using w'(2-6) by blast
qed

end
