(* ===== verification/Instances.thy ===== *)
theory Instances
  imports Sample PacketFacts TextFacts SaveFacts WireFacts Login Resuming Process Joining EndToEnd "HOL-Library.Countable"
begin

text \<open>
  The sample environment obeys the laws the properties ask of the outside: the JSON
  library, the UTF-8 checker, the random source, Redis. A second world is full; in a second
  environment a one-time key names an account of the database.
\<close>

subsection \<open>JSON\<close>

lemma js_built:
  "js_get (fold (\<lambda>(k, v) obj. js_set obj k v) kvs (JObj es)) k =
     Inr (case map_of (rev kvs) k of None \<Rightarrow> (case map_of es k of None \<Rightarrow> JNull | Some v \<Rightarrow> v) | Some v \<Rightarrow> v)"
proof (induction kvs arbitrary: es)
  case (Cons kv kvs)
  show ?case
    by (cases kv) (simp add: Cons.IH map_add_def update_conv' split: option.split)
qed (simp split: option.split)

lemma js_built_null:
  "js_get (fold (\<lambda>(k, v) obj. js_set obj k v) kvs JNull) k =
     Inr (case map_of (rev kvs) k of None \<Rightarrow> JNull | Some v \<Rightarrow> v)"
proof (cases kvs)
  case (Cons kv kvs')
  then show ?thesis
    by (cases kv) (auto simp: js_built map_add_def split: option.split)
qed simp

lemma sample_json_laws: "json_laws (sample_json parse)"
  using js_built [of _ "[]"] js_built_null
  by (simp add: json_laws_def built_def sample_json_def split: option.split)

subsection \<open>UTF-8\<close>

text \<open>A checker that takes ASCII only.\<close>

definition ascii_prefix :: "string \<Rightarrow> nat" where
  "ascii_prefix s = length (takeWhile (\<lambda>c. (of_char c :: nat) < 128) s)"

lemma ascii_prefix_laws: "find_invalid_laws ascii_prefix"
proof -
  have all: "ascii_prefix s = length s \<longleftrightarrow> (\<forall>c \<in> set s. (of_char c :: nat) < 128)" for s
    by (induction s) (auto simp: ascii_prefix_def)
  have "ascii_prefix s \<le> length s" for s by (simp add: ascii_prefix_def length_takeWhile_le)
  moreover have "ascii_prefix (take (ascii_prefix s) s) = length (take (ascii_prefix s) s)" for s
  proof -
    have "take (ascii_prefix s) s = takeWhile (\<lambda>c. (of_char c :: nat) < 128) s"
      by (simp add: ascii_prefix_def takeWhile_eq_take [symmetric])
    then show ?thesis unfolding all by (auto dest: set_takeWhileD)
  qed
  moreover have "ascii_prefix '' '' = 1" by (simp add: ascii_prefix_def)
  ultimately show ?thesis unfolding find_invalid_laws_def all by auto
qed

subsection \<open>Tokens and Redis\<close>

lemma length_keygen: "length (keygen_generate E n pos) = n"
  by (simp add: keygen_generate_def)

lemma sample_random: "random_laws (sample_env parse)"
proof -
  have "lo + n mod Suc (hi - lo) \<le> hi" if "lo \<le> hi" for lo hi n :: nat
    using that mod_Suc_le_divisor [of n "hi - lo"] by linarith
  then show ?thesis by (simp add: random_laws_def sample_env_def)
qed

lemma chat_world_tokens: "fresh_tokens (sample_env parse) chat_world"
proof -
  have "keygen_generate (sample_env parse) tokenLength pos \<noteq> ''A''"
    "keygen_generate (sample_env parse) tokenLength pos \<noteq> ''B''" for pos
    using length_keygen [of "sample_env parse" tokenLength pos] by (auto simp: tokenLength_def)
  then show ?thesis using sample_random by (simp add: fresh_tokens_def chat_world_def)
qed

lemma sample_redis: "bindX (redis_new (sample_env parse)) (\<lambda>_. redis_new (sample_env parse)) x = (Inr (), x)"
  by (simp add: redis_new_def redis_isConnectionValid_def bindX_def catchX_def retX_def sample_env_def)

definition arity_env :: "(string \<Rightarrow> js option) \<Rightarrow> (js, unit) env" where
  "arity_env parse = (sample_env parse)\<lparr>e_redis_command := (\<lambda>cmd args x.
     (Inr (if cmd = ''SETEX'' \<and> length args \<noteq> 3 then Reply_error else Reply_null), x))\<rparr>"

lemma arity_env_laws: "setex_arity (arity_env parse)"
  by (simp add: setex_arity_def arity_env_def)

subsection \<open>A full house\<close>

text \<open>Five connected clients from one address.\<close>

definition crowd :: "unit world" where
  "crowd = empty_world\<lparr>
     w_client := (\<lambda>c. if c < 5 then (client_new [char_of c] 1000)\<lparr>c_connection := Some c, c_lastClientIP := sample_ip\<rparr>
                      else no_client),
     w_nextClient := 5, w_clients := [0, 1, 2, 3, 4],
     w_connectionToClient := (\<lambda>cn. if cn < 5 then Some cn else None),
     w_tokenToClient := (\<lambda>t. case t of [ch] \<Rightarrow> if (of_char ch :: nat) < 5 then Some (of_char ch) else None | _ \<Rightarrow> None),
     w_countersFromIp := [(sample_ip, \<lparr>ct_connections = 5, ct_clients = 5\<rparr>)]\<rparr>"

lemma crowd_counts: "counts crowd ip = (if ip = sample_ip then (5, 5) else (0, 0))"
  by (auto simp: counts_def connections_at_def clients_at_def conn_at_ip_def at_ip_def crowd_def)

lemma crowd_clients: "c \<in> set (w_clients crowd) \<longleftrightarrow> c < 5"
  by (auto simp: crowd_def)

lemma crowd_tables: "tables_ok (sample_env parse) crowd"
proof -
  have tok: "w_tokenToClient crowd t = Some c \<longleftrightarrow> c < 5 \<and> c_token (w_client crowd c) = t" for t c
  proof -
    have "(of_char (char_of c :: char) :: nat) = c" if "c < 5" for c :: nat using that by simp
    then show ?thesis
      by (auto simp: crowd_def client_new_def of_char_of split: list.splits if_splits)
  qed
  show ?thesis
    unfolding tables_ok_def crowd_clients tok
    by (auto simp: crowd_def sample_ip_of no_client_def client_new_def)
qed

lemma crowd_tokens: "fresh_tokens (sample_env parse) crowd"
proof -
  have "w_tokenToClient crowd t = None" if "length t = 64" for t
    using that by (auto simp: crowd_def split: list.split)
  then show ?thesis using sample_random by (simp add: fresh_tokens_def length_keygen tokenLength_def)
qed

lemma crowd_inv: "server_inv (sample_env parse) crowd"
proof -
  have "counts_exact (w_countersFromIp crowd) (counts crowd)"
    unfolding counts_exact_def crowd_counts by (simp add: crowd_def)
  moreover have "chat_ok crowd"
    by (simp add: chat_ok_iff rooms_ok_def linked_ok_def members_ok_def ids_ok_def nicks_ok_def
        registry_ok_def names_ok_def rooms_within_def residents_ok_def crowd_def empty_world_def
        client_new_def no_client_def room_new_def)
  moreover have "limits_ok crowd"
    unfolding limits_ok_def maxClientsFromIp_def
  proof
    fix ip
    have "clients_at crowd ip = snd (counts crowd ip)" by (simp add: counts_def)
    then show "int (clients_at crowd ip) \<le> 5" by (simp add: crowd_counts)
  qed
  ultimately show ?thesis by (simp add: server_inv_def server_ok_def manager_ok_def crowd_tables)
qed

subsection \<open>A way to write JSON documents to files\<close>

text \<open>
  Any injective printer serves as an instance of the stream interface; this one writes the
  number of the document in unary.
\<close>

instance js :: countable
  by countable_datatype

definition sample_streams :: "js streams" where
  "sample_streams =
     \<lparr>s_read = (\<lambda>t. case t of [] \<Rightarrow> JNull | _ # n \<Rightarrow> from_nat (length n)),
      s_write = (\<lambda>v. replicate (Suc (to_nat v)) CHR ''1''),
      s_writable = (\<lambda>_. True)\<rparr>"

lemma sample_stream_laws: "stream_laws (sample_env parse) sample_streams"
  by (simp add: stream_laws_def sample_streams_def sample_env_def sample_json_def)

lemma fresh_run:
  assumes E: "e_json E = sample_json parse"
  shows "process_run E sample_streams (\<lambda>_. True) (Running (server_new 1000 ()) Map.empty)"
proof -
  have "json_laws (e_json E)" unfolding E by (rule sample_json_laws)
  moreover have "configured E sample_streams Map.empty"
    by (simp add: configured_def server_listen_def config_at_def config_new_def loadFromFile_def sample_streams_def
        E) (simp add: sample_json_def)
  moreover have "stream_laws E sample_streams" using sample_stream_laws [of parse] by (simp add: stream_laws_def E sample_env_def)
  ultimately show ?thesis
    using start_empty [where E = E and S = sample_streams and installs = "\<lambda>_. True" and d = Map.empty and t = 1000 and x = "()"]
      process_run.boot [OF process_run.installed, of Map.empty E sample_streams "\<lambda>_. True" 1000 "()"]
    by simp
qed

lemma sample_run:
  "process_run (sample_env parse) sample_streams (\<lambda>_. True) (Running (server_new 1000 ()) Map.empty)"
  by (rule fresh_run) (simp add: sample_env_def)

text \<open>A client that has been silent for more than a minute is sent a ping.\<close>

definition pinged :: "unit world" where
  "pinged = client_sendPacket (sample_env (\<lambda>_. None)) 0 (Packet_Ping None) (one_client\<lparr>w_now := 1061\<rparr>)"

lemma pinged_out: "w_out pinged = [Send 7 (wire (sample_env (\<lambda>_. None)) (Packet_Ping None))]"
  by (simp add: pinged_def delivery_def one_client_sel) (simp add: one_client_def connected_sel empty_world_def)

lemma pinged_run:
  "process_run (sample_env (\<lambda>_. None)) sample_streams (\<lambda>_. True) (Running pinged Map.empty)"
proof -
  let ?E = "sample_env (\<lambda>_. None)"
  have "server_new 1000 () = empty_world" by (simp add: server_new_def empty_world_def no_client_def)
  then have run: "process_run ?E sample_streams (\<lambda>_. True) (Running one_client Map.empty)"
    using process_run.step [OF sample_run process_step.event] sample_step by metis
  have "handle ?E (Clock 1061) one_client = Inr (one_client\<lparr>w_now := 1061\<rparr>)" by (simp add: one_client_sel)
  moreover have "handle ?E Timer (one_client\<lparr>w_now := 1061\<rparr>) = Inr pinged"
    by (simp add: on_tick_eq tick_client_def one_client_sel orphanTimeout_def connectTimeout_def pingTimeout_def
        pinged_def Let_def)
  ultimately have "server_step ?E one_client (one_client\<lparr>w_now := 1061\<rparr>)" "server_step ?E (one_client\<lparr>w_now := 1061\<rparr>) pinged"
    by (auto simp: one_client_sel intro: server_step.intros [where ev = "Clock 1061"] server_step.intros [where ev = Timer])
  then show ?thesis using process_run.step [OF process_run.step [OF run process_step.event] process_step.event] by blast
qed

text \<open>With the same printer, a library that parses what it has written.\<close>

definition codec :: "js jsoncpp" where
  "codec = (sample_json (\<lambda>t. case t of [] \<Rightarrow> None | _ # n \<Rightarrow> Some (from_nat (length n))))\<lparr>
     j_write := (\<lambda>v. replicate (Suc (to_nat v)) CHR ''1'')\<rparr>"

definition codec_env :: "(js, unit) env" where
  "codec_env = (sample_env (\<lambda>_. None))\<lparr>e_json := codec\<rparr>"

lemma js_member:
  "js_isMember (fold (\<lambda>(k, v) obj. js_set obj k v) kvs (JObj es)) k \<longleftrightarrow> k \<in> fst ` set kvs \<or> k \<in> fst ` set es"
proof (induction kvs arbitrary: es)
  case (Cons kv kvs)
  then show ?case by (cases kv) (auto simp: AList_update_keys)
qed (simp add: map_of_eq_None_iff)

lemma js_member_null: "js_isMember (fold (\<lambda>(k, v) obj. js_set obj k v) kvs JNull) k \<longleftrightarrow> k \<in> fst ` set kvs"
proof (cases kvs)
  case (Cons kv rest)
  then show ?thesis using js_member [of rest "[(fst kv, snd kv)]" k] by (cases kv) auto
qed simp

lemma built_write: "built (J\<lparr>j_write := f\<rparr>) obj kvs = built J obj kvs"
proof (induction kvs arbitrary: obj)
  case (Cons kv kvs)
  then show ?case by (cases kv) (simp add: built_def)
qed (simp add: built_def)

lemma json_laws_write: "json_laws (J\<lparr>j_write := f\<rparr>) = json_laws J"
  by (simp add: json_laws_def built_write cong: option.case_cong)

lemma codec_laws: "wire_laws codec_env"
proof -
  have "json_laws codec" unfolding codec_def json_laws_write by (rule sample_json_laws)
  moreover have "j_isMember codec (built codec (j_null codec) kvs) k \<longleftrightarrow> k \<in> fst ` set kvs" for kvs k
    using js_member_null by (simp add: codec_def sample_json_def built_def)
  ultimately show ?thesis
    by (simp add: wire_laws_def codec_env_def Let_def) (simp add: codec_def sample_json_def)
qed

lemma codec_inv: "server_inv codec_env chat_world"
  by (rule chat_world_served) (simp add: getRealClientIp_def codec_env_def sample_env_def)

lemma codec_outside: "redis_up codec_env" "fresh_tokens codec_env chat_world"
  "getRealClientIp codec_env cn = sample_ip"
proof -
  show "redis_up codec_env"
    by (simp add: redis_up_def redis_new_def redis_isConnectionValid_def bindX_def catchX_def retX_def codec_env_def sample_env_def)
  have "keygen_generate codec_env len pos = keygen_generate (sample_env (\<lambda>_. None)) len pos" for len pos
    by (simp add: keygen_generate_def codec_env_def)
  moreover have "random_laws codec_env" using sample_random [of "\<lambda>_. None"] by (simp add: random_laws_def codec_env_def)
  ultimately show "fresh_tokens codec_env chat_world"
    using chat_world_tokens [of "\<lambda>_. None"] by (simp add: fresh_tokens_def)
  show "getRealClientIp codec_env cn = sample_ip" by (simp add: getRealClientIp_def codec_env_def sample_env_def)
qed

lemma codec_clean: "clean_message codec_env ''hi'' = ''hi''"
proof -
  have "regex_replace ''hi'' rx_newlines (newline @ newline @ newline) = ''hi''" by code_simp
  then show ?thesis
    by (simp add: clean_message_def max_message_size_def replaceInvalidUtf8.simps [of length] codec_env_def sample_env_def)
qed

text \<open>
  An environment where Redis answers \<open>7\<close> to every key, the database has the row of Carol, who is in
  the given group, and a frame is a login with a one-time key or asks for a new room.
\<close>

definition key_packet :: packet_auth where
  "key_packet = \<lparr>pa_sequenceId = None, pa_ukey = ''k'', pa_api_key = [], pa_user_id = 0, pa_name = [],
     pa_password = [], pa_token = []\<rparr>"

definition kitchen_packet :: packet_create_room where
  "kitchen_packet = \<lparr>pc_sequenceId = None, pc_target = ''#kitchen''\<rparr>"

definition login_object :: js where
  "login_object = JObj [(''type'', JInt 4), (''ukey'', JStr ''k'')]"

definition kitchen_object :: js where
  "kitchen_object = JObj [(''type'', JInt 8), (''target'', JStr ''#kitchen'')]"

definition login_env :: "int \<Rightarrow> (js, unit) env" where
  "login_env gid = (sample_env (\<lambda>t. Some (if t = ''kitchen'' then kitchen_object else login_object)))\<lparr>
     e_redis_command := (\<lambda>cmd _ x. (Inr (Reply_ok (if cmd = ''GET'' then ''7'' else ''PONG'')), x)),
     e_sql_query := (\<lambda>_ _ _ x. (Inr [[''carol'', ''1'']], x)), e_sql_int := (\<lambda>_. gid)\<rparr>"

lemma login_ip: "getRealClientIp (login_env gid) cn = sample_ip"
  by (simp add: getRealClientIp_def login_env_def sample_env_def)

lemma login_inv: "server_inv (login_env gid) chat_world"
  by (rule chat_world_served) (rule login_ip)

lemma login_json:
  "e_json (login_env gid) = sample_json (\<lambda>t. Some (if t = ''kitchen'' then kitchen_object else login_object))"
  "j_parse (e_json (login_env gid)) t = Some (if t = ''kitchen'' then kitchen_object else login_object)"
  by (simp_all add: login_env_def sample_env_def) (simp add: sample_json_def)

lemma sample_read:
  "get_int (sample_json f) (JObj kvs) k = (case map_of kvs k of None \<Rightarrow> Inr 0 | Some v \<Rightarrow> js_asInt v)"
  "get_string (sample_json f) (JObj kvs) k = (case map_of kvs k of None \<Rightarrow> Inr [] | Some v \<Rightarrow> js_asString v)"
  "map_of kvs ''sequenceId'' = None \<Longrightarrow> packet_deserialize_base (sample_json f) (JObj kvs) = Inr None"
  by (simp_all add: get_int_def get_string_def packet_deserialize_base_def sample_json_def split: option.split)

lemma login_frame:
  assumes "msg \<noteq> ''kitchen''"
  shows "packet_read (login_env gid) msg = Inr (Some (Packet_Auth key_packet))"
proof -
  have "packet_type_of_int 4 = Some PT_auth" by (simp add: packet_type_of_int_def packet_types_def)
  moreover have "auth_deserialize (e_json (login_env gid)) login_object = Inr key_packet"
    by (simp add: auth_deserialize_def login_json(1) sample_read packet_auth_new_def key_packet_def login_object_def)
  moreover have "get_int (e_json (login_env gid)) login_object ''type'' = Inr 4"
    by (simp add: login_json(1) sample_read login_object_def)
  ultimately show ?thesis using assms by (simp add: packet_read_def login_json(2))
qed

lemma kitchen_frame: "packet_read (login_env gid) ''kitchen'' = Inr (Some (Packet_CreateRoom kitchen_packet))"
proof -
  have "packet_type_of_int 8 = Some PT_create_room" by (simp add: packet_type_of_int_def packet_types_def)
  moreover have "create_room_deserialize (e_json (login_env gid)) kitchen_object = Inr kitchen_packet"
    by (simp add: create_room_deserialize_def login_json(1) sample_read packet_create_room_new_def kitchen_packet_def kitchen_object_def)
  moreover have "get_int (e_json (login_env gid)) kitchen_object ''type'' = Inr 8"
    by (simp add: login_json(1) sample_read kitchen_object_def)
  ultimately show ?thesis by (simp add: packet_read_def login_json(2))
qed

lemma login_step: "server_step (login_env gid) empty_world one_client"
proof (rule server_step.intros [of _ "Opened 7"])
  show "handle (login_env gid) (Opened 7) empty_world = Inr one_client"
    unfolding one_client_def by (rule first_opens [OF empty_started])
      (simp_all add: getRealClientIp_def keygen_generate_def login_env_def sample_env_def empty_world_def)
qed (simp add: empty_world_def)

lemma carol_logs_in: "logs_in (login_env gid) c key_packet w \<lparr>du_uid = 7, du_gid = gid, du_login = ''carol''\<rparr>"
proof -
  let ?E = "login_env gid" and ?u = "\<lparr>du_uid = 7, du_gid = gid, du_login = ''carol''\<rparr>"
  note env = login_env_def sample_env_def
  have seven: "istream_int ''7'' = 7" by code_simp
  have named: "names_account ?E ip hdr key_packet () 7 ()" for ip hdr
    by (rule names_account.key)
      (simp_all add: key_packet_def redis_get_def retX_def bindX_def env, simp_all add: retX_def seven)
  have row: "db_getUserByUid ?E 7 () = (Inr (Some ?u), ())"
    by (simp add: db_getUserByUid_def usePg_def mysql_new_def mysql_getUserByUid_def mysql_query_def mysql_prepare_def
        statement_executeQuery_def statement_retry_def retryWithReconnect.simps db_exception_def catchX_def set_params_def
        safe_statement_new_def bindX_def retX_def env col_def)
  have up: "bindX (redis_new ?E) (\<lambda>_. redis_new ?E) () = (Inr (), ())"
    by (simp add: redis_new_def redis_isConnectionValid_def bindX_def catchX_def retX_def env)
  have "proves ?E ip hdr key_packet () ?u" for ip hdr by (rule proves.account [OF named _ row]) simp
  with up show ?thesis by (simp add: logs_in_def revive_target_def key_packet_def)
qed

text \<open>Carol connects, logs in and makes a room; the process has run from an empty disk.\<close>

lemma on_message_read:
  assumes "packet_read E msg = Inr (Some p)" and "w_connectionToClient w cn = Some c"
  shows "on_message E cn msg w = packet_process E c p (upd_client c (\<lambda>cl. cl\<lparr>c_lastPacketTime := w_now w\<rparr>) w)"
  using assms by (cases "packet_process E c p (upd_client c (\<lambda>cl. cl\<lparr>c_lastPacketTime := w_now w\<rparr>) w)")
    (simp_all add: on_message_def client_onPacket_def findClientByConnection_def)

lemma carol_online:
  obtains w where "server_step (login_env 1) one_client w" and "server_inv (login_env 1) w" and "view w = view one_client"
    and "c_uid (w_client w 0) = 7"
proof -
  let ?E = "login_env 1" and ?w = "upd_client 0 (\<lambda>cl. cl\<lparr>c_lastPacketTime := w_now one_client\<rparr>) one_client"
  have v: "view ?w = view one_client" by (simp add: view_upd_client client_view_def)
  have inv: "server_inv ?E one_client"
    by (rule reachable_inv [OF empty_started reachable.step [OF reachable.start login_step]])
  obtain w where w: "auth_process ?E 0 key_packet ?w = Inr w" using logs_in_runs [OF carol_logs_in [of 1 0 ?w]] by auto
  have "becomes 0 \<lparr>du_uid = 7, du_gid = 1, du_login = ''carol''\<rparr> ?w w" by (rule auth_identity(1) [OF w carol_logs_in])
  then have "identity w 0 = (7, ''carol'')" by (simp add: becomes_def)
  then have uid: "c_uid (w_client w 0) = 7" by (simp add: identity_def)
  have c: "0 \<in> set (w_clients ?w)" "c_connection (w_client ?w 0) = Some 7" by (simp_all add: one_client_sel)
  have "takes_up ?E 0 key_packet ?w = None"
    by (auto simp: takes_up_def revive_target_def key_packet_def split: sum.split)
  then have view: "view w = view one_client"
    using auth_process_effect [OF server_ok_view [OF v invD(1) [OF inv]] c, of key_packet] w v by (simp add: auth_effect_def)
  have "on_message ?E 7 ''login'' one_client = Inr w"
    using on_message_read [OF login_frame [of "''login''" 1], of one_client 7 0] w by (simp add: one_client_sel)
  then have "server_step ?E one_client w" by (intro server_step.intros [of _ "Message 7 ''login''"]) simp_all
  from that [OF this server_step_inv [OF inv this] view uid] show thesis .
qed

lemma kitchen_run:
  obtains w r where "process_run (login_env 1) sample_streams (\<lambda>_. True) (Running w Map.empty)"
    and "server_getRoomByName w ''#kitchen'' = Some r" and "r_ownerId (w_room w r) = 7"
proof -
  let ?E = "login_env 1"
  obtain w where w: "server_step ?E one_client w" "server_inv ?E w" "view w = view one_client" "c_uid (w_client w 0) = 7"
    by (rule carol_online)
  let ?v = "upd_client 0 (\<lambda>cl. cl\<lparr>c_lastPacketTime := w_now w\<rparr>) w"
  let ?w = "create_room_process ?E 0 kitchen_packet ?v"
  have "server_new 1000 () = empty_world" by (simp add: server_new_def empty_world_def no_client_def)
  then have run: "process_run ?E sample_streams (\<lambda>_. True) (Running empty_world Map.empty)"
    using fresh_run [OF login_json(1) [of 1]] by simp
  have "w_connectionToClient w 7 = Some 0" by (simp add: view_eqD [OF w(3)] one_client_sel)
  then have "on_message ?E 7 ''kitchen'' w = Inr ?w" using on_message_read [OF kitchen_frame, of w 7 0 1] by simp
  then have "server_step ?E w ?w" by (intro server_step.intros [of _ "Message 7 ''kitchen''"]) simp_all
  then have "process_run ?E sample_streams (\<lambda>_. True) (Running ?w Map.empty)"
    using process_run.step [OF process_run.step [OF process_run.step [OF run process_step.event [OF login_step]]
      process_step.event [OF w(1)]] process_step.event] by blast
  moreover have "view ?v = view w" by (simp add: view_upd_client client_view_def)
  then have "registry_ok ?v"
    using server_okD(1) [OF server_ok_view [OF _ invD(1) [OF w(2)]]] by (simp add: chat_ok_iff rooms_ok_def)
  moreover have "valid_room_name (pc_target kitchen_packet)"
    unfolding valid_room_name_def kitchen_packet_def
    by (intro exI [of _ "''kitchen''"]) (simp add: room_name_char_def is_alpha_def code_in_def)
  moreover have "server_getRoomByName ?v (pc_target kitchen_packet) = None" "\<not> client_isGuest (w_client ?v 0)"
    using w(4) by (simp_all add: server_getRoomByName_def view_eqD [OF w(3)] one_client_sel client_isGuest_def)
  ultimately show thesis
    using create_room_made(1,2) [of ?v 0 kitchen_packet ?E] that w(4) by (simp add: kitchen_packet_def)
qed

text \<open>A server that has loaded one room; its first client joins the room.\<close>

definition hall :: "unit world" where
  "hall = empty_world\<lparr>w_room := (\<lambda>_. room_new)(0 := room_new\<lparr>r_name := ''#lobby'', r_ownerId := 5\<rparr>),
     w_rooms := [0], w_nextRoom := 1\<rparr>"

lemma hall_started: "started hall"
  by (auto simp: started_def hall_def empty_world_def names_ok_def no_client_def client_new_def room_new_def)

lemma hall_joined:
  obtains w m where "reachable codec_env hall w" and "0 \<in> set (w_rooms w)" and "set (r_members (w_room w 0)) = {m}" and "m_client (w_member w m) = 0"
proof -
  let ?w1 = "connected (sample_env (\<lambda>_. None)) 7 sample_token tokenLength hall"
  let ?w2 = "upd_client 0 (\<lambda>cl. cl\<lparr>c_lastPacketTime := w_now ?w1\<rparr>) ?w1"
  let ?p = "packet_join_new\<lparr>pj_target := ''#lobby'', pj_auto_login := False, pj_load_history := False\<rparr>"
  note hall = hall_def empty_world_def connected_def client_new_def no_client_def room_new_def sample_ip_of Let_def
  have "handle codec_env (Opened 7) hall = Inr ?w1"
    by (rule first_opens [OF hall_started])
      (simp_all only: codec_outside(3), simp_all add: keygen_generate_def codec_env_def hall_def empty_world_def)
  then have "server_step codec_env hall ?w1"
    by (rule server_step.intros [rotated]) (simp add: hall_def empty_world_def)
  then have reach: "reachable codec_env hall ?w1" by (rule reachable.step [OF reachable.start])
  have "members_ok ?w2" by (simp add: members_ok_def hall)
  moreover have "length (r_members (w_room ?w2 0)) < 2 ^ 32 - 1" "c_connection (w_client ?w2 0) = Some 7"
    "client_getRoomByName ?w2 0 (pj_target ?p) = None" "server_getRoomByName ?w2 (pj_target ?p) = Some 0" "ban_of ?w2 0 0 = None"
    by (simp_all add: client_getRoomByName_def server_getRoomByName_def ban_of_def hall)
  ultimately obtain w i where w: "join_process codec_env 0 ?p ?w2 = Inr w"
    "\<forall>q. set (r_members (w_room w q)) = (if q = 0 then {w_nextMember ?w2} else {}) \<union> set (r_members (w_room ?w2 q))"
    "m_client (w_member w (w_nextMember ?w2)) = 0"
    using join_welcomed [of ?w2 0 0 7 ?p codec_env] by blast
  have "w_connectionToClient ?w1 7 = Some 0" by (simp add: hall)
  from on_message_packet [OF codec_laws _ this, of "Packet_Join ?p"] w(1)
  have run: "handle codec_env (Message 7 (wire codec_env (Packet_Join ?p))) ?w1 = Inr w" by (simp add: packet_join_new_def)
  have reached: "reachable codec_env hall w"
    by (rule reachable.step [OF reach server_step.intros [OF _ run]]) simp
  have members: "set (r_members (w_room w 0)) = {w_nextMember ?w2}" using w(2) by (simp add: hall)
  have "chat_ok w" by (rule server_okD(1) [OF invD(1) [OF reachable_inv [OF hall_started reached]]])
  then have "0 \<in> set (w_rooms w)" using no_members_unregistered [of w 0] members by fastforce
  from that [OF reached this members w(3)] show thesis .
qed

end
