(* ===== verification/Sessions.thy ===== *)
theory Sessions
  imports RoomInvariants
begin

text \<open>
  What the clients manager promises, without its tables: a session for each token in use,
  with the connection it has at present, if any, the address it was last seen at and the time when
  it was last heard of. Every event of the server is one step of this machine, by a cause that
  says which connection opens, speaks or closes.
\<close>

type_synonym session_table = "string \<rightharpoonup> conn option \<times> string \<times> time"
type_synonym session_state = "time \<times> session_table"

text \<open>What happens to the server; who speaks may claim the token of a session.\<close>

datatype cause = Arrives conn | Speaks conn "string option" | Ends conn | Breaks conn | Sweeps | Ticks time | Outside

subsection \<open>The machine of sessions\<close>

definition tally :: "session_table \<Rightarrow> (conn option \<Rightarrow> string \<Rightarrow> bool) \<Rightarrow> nat" where
  "tally s P = card {tok. \<exists>x ip l. s tok = Some (x, ip, l) \<and> P x ip}"

abbreviation sessions_at :: "session_table \<Rightarrow> string \<Rightarrow> nat" where
  "sessions_at s ip \<equiv> tally s (\<lambda>x a. a = ip)"

abbreviation live_at :: "session_table \<Rightarrow> string \<Rightarrow> nat" where
  "live_at s ip \<equiv> tally s (\<lambda>x a. a = ip \<and> x \<noteq> None)"

definition unknown :: "session_table \<Rightarrow> conn \<Rightarrow> bool" where
  "unknown s cn \<longleftrightarrow> (\<forall>tok ip l. s tok \<noteq> Some (Some cn, ip, l))"

text \<open>A session that is silent for more than 150 seconds loses its connection, after 300 it ends.\<close>

definition sweep :: "time \<Rightarrow> session_table \<Rightarrow> session_table" where
  "sweep t s = (\<lambda>tok. case s tok of
     None \<Rightarrow> None
   | Some (x, ip, l) \<Rightarrow> if t - l > 300 then None else Some (if t - l > 150 then None else x, ip, l))"

text \<open>
  A connection from an address with five connections is refused. Otherwise it gets a session under a
  new token; when there are five sessions at the address already, one of them without a connection
  makes way. A frame that is a packet is noted; when it claims the token of another session, this one
  may take over the connection, and the session that the connection had ends. An orderly
  end of a connection ends its session, any other end leaves it without a connection.
\<close>

inductive session_step :: "(conn \<Rightarrow> string) \<Rightarrow> cause \<Rightarrow> session_state \<Rightarrow> session_state \<Rightarrow> bool" for addr where
  refuse: "live_at s (addr cn) \<ge> 5 \<Longrightarrow> session_step addr (Arrives cn) (t, s) (t, s)"
| enter: "live_at s (addr cn) < 5 \<Longrightarrow> sessions_at s (addr cn) < 5 \<Longrightarrow> unknown s cn \<Longrightarrow> s tok = None \<Longrightarrow>
    session_step addr (Arrives cn) (t, s) (t, s(tok \<mapsto> (Some cn, addr cn, t)))"
| replace: "live_at s (addr cn) < 5 \<Longrightarrow> sessions_at s (addr cn) = 5 \<Longrightarrow> unknown s cn \<Longrightarrow>
    s old = Some (None, addr cn, l) \<Longrightarrow> (s(old := None)) tok = None \<Longrightarrow>
    session_step addr (Arrives cn) (t, s) (t, s(old := None, tok \<mapsto> (Some cn, addr cn, t)))"
| noise: "session_step addr (Speaks cn None) (t, s) (t, s)"
| heard: "s tok = Some (Some cn, ip, l) \<Longrightarrow>
    session_step addr (Speaks cn (Some k)) (t, s) (t, s(tok \<mapsto> (Some cn, ip, t)))"
| return: "s tok = Some (Some cn, ip, l) \<Longrightarrow> s k = Some x \<Longrightarrow> k \<noteq> tok \<Longrightarrow>
    session_step addr (Speaks cn (Some k)) (t, s) (t, s(tok := None, k \<mapsto> (Some cn, addr cn, t)))"
| finish: "s tok = Some (Some cn, ip, l) \<Longrightarrow> session_step addr (Ends cn) (t, s) (t, s(tok := None))"
| lose: "s tok = Some (Some cn, ip, l) \<Longrightarrow> session_step addr (Breaks cn) (t, s) (t, s(tok \<mapsto> (None, ip, l)))"
| stranger: "unknown s cn \<Longrightarrow> a \<in> {Ends cn, Breaks cn} \<union> range (Speaks cn) \<Longrightarrow> session_step addr a (t, s) (t, s)"
| sweeps: "session_step addr Sweeps (t, s) (t, sweep t s)"
| ticks: "session_step addr (Ticks t') (t, s) (t', s)"
| outside: "session_step addr Outside (t, s) (t, s)"

inductive_cases session_stepE: "session_step addr a s t"

text \<open>A connection belongs to one session, which is at its address; no address has more than five.\<close>

definition table_ok :: "(conn \<Rightarrow> string) \<Rightarrow> session_table \<Rightarrow> bool" where
  "table_ok addr s \<longleftrightarrow> finite (dom s)
     \<and> (\<forall>t t' cn ip ip' l l'. s t = Some (Some cn, ip, l) \<longrightarrow> s t' = Some (Some cn, ip', l') \<longrightarrow> t = t')
     \<and> (\<forall>t cn ip l. s t = Some (Some cn, ip, l) \<longrightarrow> ip = addr cn)
     \<and> (\<forall>ip. sessions_at s ip \<le> 5)"

lemma table_okD:
  assumes "table_ok addr s"
  shows "finite (dom s)" and "s t = Some (Some cn, ip, l) \<Longrightarrow> s t' = Some (Some cn, ip', l') \<Longrightarrow> t = t'"
    and "s t = Some (Some cn, ip, l) \<Longrightarrow> ip = addr cn" and "sessions_at s ip \<le> 5"
  using assms unfolding table_ok_def by blast+

lemma tally_finite: "finite (dom s) \<Longrightarrow> finite {tok. \<exists>x ip l. s tok = Some (x, ip, l) \<and> P x ip}"
  by (rule finite_subset [of _ "dom s"]) auto

lemma sessions_at_le:
  assumes "finite (dom s)" and "\<And>tok x l. s' tok = Some (x, ip, l) \<Longrightarrow> \<exists>x l. s tok = Some (x, ip, l)"
  shows "sessions_at s' ip \<le> sessions_at s ip"
  unfolding tally_def using assms(2) by (intro card_mono [OF tally_finite [OF assms(1)]]) blast

lemma sessions_at_enter:
  assumes "finite (dom s)"
  shows "sessions_at (s(tok \<mapsto> (x, a, l))) ip \<le> sessions_at s ip + (if ip = a then 1 else 0)"
proof -
  let ?S = "{tok. \<exists>x a l. s tok = Some (x, a, l) \<and> a = ip}"
  have fin: "finite ?S" by (rule tally_finite [OF assms])
  have "{t. \<exists>y a' l'. (s(tok \<mapsto> (x, a, l))) t = Some (y, a', l') \<and> a' = ip} \<subseteq> (if ip = a then insert tok ?S else ?S)"
    by (auto split: if_splits)
  then have "sessions_at (s(tok \<mapsto> (x, a, l))) ip \<le> card (if ip = a then insert tok ?S else ?S)"
    unfolding tally_def using fin by (intro card_mono) auto
  also have "\<dots> \<le> card ?S + (if ip = a then 1 else 0)" by (simp add: card_insert_le_m1 card_insert_if fin)
  finally show ?thesis by (simp add: tally_def)
qed

lemma sessions_at_leave:
  assumes "finite (dom s)" and "s tok = Some (x, ip, l)"
  shows "sessions_at (s(tok := None)) ip < sessions_at s ip"
proof -
  have "{t. \<exists>y a l'. (s(tok := None)) t = Some (y, a, l') \<and> a = ip} \<subset> {t. \<exists>y a l'. s t = Some (y, a, l') \<and> a = ip}"
    using assms(2) by auto
  then show ?thesis unfolding tally_def by (rule psubset_card_mono [OF tally_finite [OF assms(1)]])
qed

lemma table_okI:
  assumes "finite (dom s)" and "\<And>t t' cn ip ip' l l'. s t = Some (Some cn, ip, l) \<Longrightarrow> s t' = Some (Some cn, ip', l') \<Longrightarrow> t = t'"
    and "\<And>t cn ip l. s t = Some (Some cn, ip, l) \<Longrightarrow> ip = addr cn" and "\<And>ip. sessions_at s ip \<le> 5"
  shows "table_ok addr s"
  using assms unfolding table_ok_def by blast

text \<open>Sessions that end, or lose their connection, or are heard of.\<close>

lemma table_ok_less:
  assumes ok: "table_ok addr s"
    and less: "\<And>tok x ip l. s' tok = Some (x, ip, l) \<Longrightarrow> \<exists>l'. s tok = Some (x, ip, l') \<or> x = None \<and> (\<exists>y. s tok = Some (y, ip, l'))"
  shows "table_ok addr s'"
proof (rule table_okI)
  note D = table_okD [OF ok]
  have "dom s' \<subseteq> dom s" using less by fastforce
  then show "finite (dom s')" using D(1) by (rule finite_subset)
  show "sessions_at s' ip \<le> 5" for ip
    by (rule order_trans [OF sessions_at_le [OF D(1)] D(4)]) (use less in blast)
  show "t = t'" if "s' t = Some (Some cn, ip, l)" "s' t' = Some (Some cn, ip', l')" for t t' cn ip ip' l l'
    using D(2) less [OF that(1)] less [OF that(2)] by blast
  show "ip = addr cn" if "s' t = Some (Some cn, ip, l)" for t cn ip l
    using D(3) less [OF that] by blast
qed

lemma table_ok_enter:
  assumes "table_ok addr s" and "unknown s cn" and "sessions_at s (addr cn) < 5"
  shows "table_ok addr (s(tok \<mapsto> (Some cn, addr cn, l)))"
proof (rule table_okI)
  note D = table_okD [OF assms(1)]
  show "sessions_at (s(tok \<mapsto> (Some cn, addr cn, l))) ip \<le> 5" for ip
    using sessions_at_enter [OF D(1), of tok "Some cn" "addr cn" l ip] D(4) [of ip] assms(3)
    by (cases "ip = addr cn") auto
qed (use table_okD [OF assms(1)] assms(2) in \<open>auto simp: unknown_def split: if_splits\<close>)

lemma table_ok_step:
  assumes "session_step addr a p q" and "table_ok addr (snd p)"
  shows "table_ok addr (snd q)"
  using assms(1)
proof (cases rule: session_step.cases)
  case (replace s cn old l tok t)
  have ok: "table_ok addr s" using assms(2) replace(2) by simp
  have "table_ok addr (s(old := None))" by (rule table_ok_less [OF ok]) (auto split: if_splits)
  moreover have "unknown (s(old := None)) cn" using replace(6) by (simp add: unknown_def)
  moreover have "sessions_at (s(old := None)) (addr cn) < 5"
    using sessions_at_leave [OF table_okD(1) [OF ok] replace(7)] replace(5) by simp
  ultimately show ?thesis unfolding replace(3) snd_conv by (rule table_ok_enter)
next
  case (return s tok cn ip l k x t)
  have ok: "table_ok addr s" using assms(2) return(2) by simp
  note D = table_okD [OF ok]
  have "table_ok addr (s(tok := None))" by (rule table_ok_less [OF ok]) (auto split: if_splits)
  moreover have "unknown (s(tok := None)) cn" using D(2) [OF return(4)] by (auto simp: unknown_def)
  moreover have "sessions_at (s(tok := None)) (addr cn) < 5"
    using sessions_at_leave [OF D(1) return(4)] D(3) [OF return(4)] D(4) [of ip] by simp
  ultimately show ?thesis unfolding return(3) snd_conv by (rule table_ok_enter)
next
  case (heard s tok cn ip l k t)
  have ok: "table_ok addr s" using assms(2) heard(2) by simp
  show ?thesis unfolding heard(3) snd_conv by (rule table_ok_less [OF ok]) (use heard(4) in \<open>auto split: if_splits\<close>)
next
  case (finish s tok cn ip l t)
  have ok: "table_ok addr s" using assms(2) finish(2) by simp
  show ?thesis unfolding finish(3) snd_conv by (rule table_ok_less [OF ok]) (auto split: if_splits)
next
  case (lose s tok cn ip l t)
  have ok: "table_ok addr s" using assms(2) lose(2) by simp
  show ?thesis unfolding lose(3) snd_conv by (rule table_ok_less [OF ok]) (use lose(4) in \<open>auto split: if_splits\<close>)
next
  case (sweeps t s)
  have ok: "table_ok addr s" using assms(2) sweeps(2) by simp
  show ?thesis unfolding sweeps(3) snd_conv
    by (rule table_ok_less [OF ok]) (auto simp: sweep_def split: option.splits if_splits)
qed (use assms(2) in \<open>auto intro: table_ok_enter\<close>)

interpretation machine: transition_system "\<lambda>p q. \<exists>a. session_step addr a p q" "\<lambda>p. snd p = Map.empty"
  "\<lambda>p. table_ok addr (snd p)" for addr
  by unfold_locales (simp add: table_ok_def tally_def, blast intro: table_ok_step)

subsection \<open>Refinement of transition systems\<close>

text \<open>
  A simulation maps the states of a system to those of an abstract one, such that a step is
  matched by a sequence of abstract steps; what all abstract steps keep then holds of the
  abstraction of every state that can be reached.
\<close>

locale simulation = transition_system +
  fixes astep :: "'a \<Rightarrow> 'a \<Rightarrow> bool" and ainit :: "'a \<Rightarrow> bool" and abs :: "'s \<Rightarrow> 'a"
  assumes init_abs: "init s \<Longrightarrow> ainit (abs s)"
    and step_abs: "I s \<Longrightarrow> step s t \<Longrightarrow> astep\<^sup>*\<^sup>* (abs s) (abs t)"
begin

lemma run_abs:
  assumes "step\<^sup>*\<^sup>* s t" and "I s"
  shows "astep\<^sup>*\<^sup>* (abs s) (abs t)"
  using assms
proof (induction rule: rtranclp_induct)
  case (step t u)
  have "I t" by (rule run_I [OF step.hyps(1) step.prems])
  with step show ?case using step_abs rtranclp_trans by metis
qed simp

lemma reach_abs: "init s \<Longrightarrow> step\<^sup>*\<^sup>* s t \<Longrightarrow> \<exists>a. ainit a \<and> astep\<^sup>*\<^sup>* a (abs t)"
  using run_abs init_I init_abs by blast

end

subsection \<open>The sessions of a server\<close>

definition sessions :: "'x world \<Rightarrow> session_table" where
  "sessions w tok = map_option (\<lambda>c. (c_connection (w_client w c), c_lastClientIP (w_client w c), seen w c))
     (w_tokenToClient w tok)"

definition session_state :: "'x world \<Rightarrow> session_state" where
  "session_state w = (w_now w, sessions w)"

lemma sessions_cong:
  assumes "mgr_view w' = mgr_view w" and "seen w' = seen w"
  shows "sessions w' = sessions w"
  by (simp add: sessions_def [abs_def] mgr_view_eqD [OF assms(1)] assms(2))

lemma session_state_cong:
  assumes "mgr_view w' = mgr_view w" and "times w' = times w"
  shows "session_state w' = session_state w"
  using assms sessions_cong [of w' w] by (simp add: session_state_def times_def)

lemma token_of:
  assumes "tables_ok E w" and "c \<in> set (w_clients w)"
  shows "w_tokenToClient w (c_token (w_client w c)) = Some c"
    and "tok \<noteq> c_token (w_client w c) \<Longrightarrow> w_tokenToClient w tok \<noteq> Some c"
proof -
  show "w_tokenToClient w (c_token (w_client w c)) = Some c"
    using iffD2 [OF tables_okD(4) [OF assms(1)]] assms(2) by blast
  show "tok \<noteq> c_token (w_client w c) \<Longrightarrow> w_tokenToClient w tok \<noteq> Some c"
    using iffD1 [OF tables_okD(4) [OF assms(1)]] by blast
qed

lemma sessions_client:
  assumes "tables_ok E w" and "c \<in> set (w_clients w)"
  shows "sessions w (c_token (w_client w c)) = Some (c_connection (w_client w c), c_lastClientIP (w_client w c), seen w c)"
  using token_of(1) [OF assms] by (simp add: sessions_def)

lemma sessions_Some:
  assumes "tables_ok E w" and "sessions w tok = Some (x, ip, l)"
  obtains c where "c \<in> set (w_clients w)" "c_token (w_client w c) = tok"
    "c_connection (w_client w c) = x" "c_lastClientIP (w_client w c) = ip" "seen w c = l"
proof -
  obtain c where "w_tokenToClient w tok = Some c" "c_connection (w_client w c) = x" "c_lastClientIP (w_client w c) = ip" "seen w c = l"
    using assms(2) by (auto simp: sessions_def)
  with iffD1 [OF tables_okD(4) [OF assms(1)]] that show thesis by blast
qed

lemma same_token:
  assumes "tables_ok E w" and "c \<in> set (w_clients w)" and "d \<in> set (w_clients w)"
    and "c_token (w_client w c) = c_token (w_client w d)"
  shows "c = d"
  using token_of(1) [OF assms(1,2)] token_of(1) [OF assms(1,3)] assms(4) by (metis option.inject)

lemma tally_clients:
  assumes tab: "tables_ok E w"
  shows "tally (sessions w) P = length (filter (\<lambda>c. P (c_connection (w_client w c)) (c_lastClientIP (w_client w c))) (w_clients w))"
proof -
  let ?C = "{c \<in> set (w_clients w). P (c_connection (w_client w c)) (c_lastClientIP (w_client w c))}"
  have "{tok. \<exists>x ip l. sessions w tok = Some (x, ip, l) \<and> P x ip} = (\<lambda>c. c_token (w_client w c)) ` ?C"
  proof (rule set_eqI, rule iffI)
    fix tok assume "tok \<in> {tok. \<exists>x ip l. sessions w tok = Some (x, ip, l) \<and> P x ip}"
    then obtain x ip l where s: "sessions w tok = Some (x, ip, l)" "P x ip" by blast
    from sessions_Some [OF tab s(1)] s(2) obtain c where "c \<in> ?C" "tok = c_token (w_client w c)" by blast
    then show "tok \<in> (\<lambda>c. c_token (w_client w c)) ` ?C" by (rule rev_image_eqI)
  next
    fix tok assume "tok \<in> (\<lambda>c. c_token (w_client w c)) ` ?C"
    then show "tok \<in> {tok. \<exists>x ip l. sessions w tok = Some (x, ip, l) \<and> P x ip}" using sessions_client [OF tab] by blast
  qed
  moreover have "inj_on (\<lambda>c. c_token (w_client w c)) ?C"
    unfolding inj_on_def using same_token [OF tab] by blast
  ultimately have "tally (sessions w) P = card ?C" by (simp add: tally_def card_image)
  also have "\<dots> = length (filter (\<lambda>c. P (c_connection (w_client w c)) (c_lastClientIP (w_client w c))) (w_clients w))"
    using distinct_card [OF distinct_filter [OF tables_okD(1) [OF tab]]] by simp
  finally show ?thesis .
qed

lemma sessions_at_clients: "tables_ok E w \<Longrightarrow> sessions_at (sessions w) ip = clients_at w ip"
  and live_at_connections: "tables_ok E w \<Longrightarrow> live_at (sessions w) ip = connections_at w ip"
  by (simp_all add: tally_clients clients_at_def connections_at_def at_ip_def [abs_def] conn_at_ip_def [abs_def])

lemma unknown_connection: "tables_ok E w \<Longrightarrow> w_connectionToClient w cn = None \<Longrightarrow> unknown (sessions w) cn"
  unfolding unknown_def by (metis sessions_Some tables_okD(3) option.distinct(1))

subsection \<open>The times that the operations leave alone\<close>

interpretation steady: ruling_keeper E UNIV "\<lambda>w. times w = T" for E T
  by unfold_locales (simp_all add: times_def seen_def [abs_def])

lemma times_same:
  "makeOrphan E c w = Inr v \<Longrightarrow> times v = times w"
  "removeClient E c w = Inr v \<Longrightarrow> times v = times w"
  "(\<And>q. p \<noteq> Packet_Auth q) \<Longrightarrow> packet_process E c p w = Inr v \<Longrightarrow> times v = times w"
  "takes_up E c q w = None \<Longrightarrow> auth_process E c q w = Inr v \<Longrightarrow> times v = times w"
  using steady.keep_makeOrphan [of w "times w" E c] steady.keep_removeClient [of w "times w" E c]
    steady.keep_plain_packet [of w "times w" p E c] steady.keep_auth_alone [of w "times w" E c q]
  by (auto simp: yields_def)

lemma times_simps [simp]:
  "times (decrementForIp ip fld w) = times w" "times (eraseConnection cn w) = times w"
  "times (snd (removeFromClients c w)) = times w" "times (client_setConnection E c cno w) = times w"
  "times (w\<lparr>w_connectionToClient := m\<rparr>) = times w" "times (closeConnection cn w) = times w"
  by (simp_all add: times_def) (simp_all add: decrementForIp_def eraseConnection_def removeFromClients_def
      client_setConnection_def seen_def [abs_def] Let_def split: option.split)

definition noted :: "client_ptr \<Rightarrow> (client_ptr \<Rightarrow> time) \<times> time \<Rightarrow> (client_ptr \<Rightarrow> time) \<times> time" where
  "noted c T = ((fst T)(c := snd T), snd T)"

lemma times_heard: "times (upd_client c (\<lambda>cl. cl\<lparr>c_lastPacketTime := w_now w\<rparr>) w) = noted c (times w)"
  by (auto simp: times_def noted_def seen_def)

lemma revive_times:
  assumes run: "server_reviveClient E cur t w = Inr (True, w')"
  shows "times w' = noted t (times w)"
proof -
  have revived: "times v' = noted t (times v)" if "client_onRevive E t v = Inr v'" for v v'
  proof -
    let ?v = "upd_client t (\<lambda>cl. cl\<lparr>c_lastPacketTime := w_now v\<rparr>) v"
    have "yields (\<lambda>u. times u = times ?v) (client_onRevive E t v)"
      unfolding client_onRevive_eq Let_def by (intro yields_foldR steady.keep_revive_in_room) simp_all
    then show ?thesis using that by (simp add: yields_def times_heard)
  qed
  have removed: "times v' = times v" if "client_onRemove E cur v = Inr v'" for v v'
    using steady.keep_onRemove [of v "times v" E cur] that by (simp add: yields_def)
  show ?thesis
    using run
    by (auto simp: server_reviveClient_def manager_reviveClient_def bindS_Inr_iff Let_def
        dest!: removed revived split: option.splits if_splits)
qed

subsection \<open>What the operations of the manager do to the sessions\<close>

lemma now_of: "times w' = times w \<Longrightarrow> w_now w' = w_now w" "times w' = times w \<Longrightarrow> seen w' = seen w"
  by (simp_all add: times_def)

lemma makeOrphan_sessions:
  assumes ok: "server_ok E w" and c: "c \<in> set (w_clients w)" and cn: "c_connection (w_client w c) = Some cn"
    and run: "makeOrphan E c w = Inr w'"
  shows "sessions w' = (sessions w)(c_token (w_client w c) \<mapsto> (None, c_lastClientIP (w_client w c), seen w c))"
proof
  fix tok
  note tab = server_okD(2) [OF ok]
  have v: "view w' = view (client_setConnection E c None (detach c w))"
    using makeOrphan_attached [OF ok c cn] run by auto
  show "sessions w' tok = ((sessions w)(c_token (w_client w c) \<mapsto> (None, c_lastClientIP (w_client w c), seen w c))) tok"
    using token_of(1) [OF tab c] token_of(2) [OF tab c, of tok] now_of(2) [OF times_same(1) [OF run]]
    by (cases "tok = c_token (w_client w c)"; cases "w_tokenToClient w tok")
      (auto simp: sessions_def view_eqD [OF v] client_setConnection_sel detach_sel)
qed

lemma removeClient_sessions:
  assumes ok: "server_ok E w" and c: "c \<in> set (w_clients w)" and run: "removeClient E c w = Inr w'"
  shows "sessions w' = (sessions w)(c_token (w_client w c) := None)"
proof
  fix tok
  note tab = server_okD(2) [OF ok]
  have v: "mgr_view w' = mgr_view (client_setConnection E c None (discard c (detach c w)))"
    using removeClient_total [OF ok c] run by auto
  have c1: "c \<in> set (w_clients (detach c w))" using c by (simp add: detach_sel)
  show "sessions w' tok = ((sessions w)(c_token (w_client w c) := None)) tok"
    using token_of(1) [OF tab c] token_of(2) [OF tab c, of tok] now_of(2) [OF times_same(2) [OF run]]
    by (cases "tok = c_token (w_client w c)"; cases "w_tokenToClient w tok")
      (auto simp: sessions_def mgr_view_eqD [OF v] client_setConnection_sel detach_sel discard_sel [OF c1])
qed

lemma connect_sessions:
  assumes ok: "server_ok E w" and cn: "w_connectionToClient w cn = None" and run: "manager_connect E cn w = Inr w'"
  obtains tok where "sessions w tok = None" and "w_now w' = w_now w"
    and "sessions w' = (sessions w)(tok \<mapsto> (Some cn, getRealClientIp E cn, w_now w))"
proof -
  obtain tok p where tok: "w_tokenToClient w tok = None" and w': "w' = connected E cn tok p w"
    using manager_connect_ok [OF ok cn run] by blast
  note tab = server_okD(2) [OF ok]
  have new: "w_tokenToClient w t \<noteq> Some (w_nextClient w)" for t
    using tables_okD(4) [OF tab, of t "w_nextClient w"] tables_okD(2) [OF tab, of "w_nextClient w"] by auto
  have "sessions w' t = ((sessions w)(tok \<mapsto> (Some cn, getRealClientIp E cn, w_now w))) t" for t
    using new [of t] by (cases "w_tokenToClient w t") (auto simp: sessions_def w' connected_sel seen_def client_new_def)
  then have "sessions w' = (sessions w)(tok \<mapsto> (Some cn, getRealClientIp E cn, w_now w))" by blast
  moreover have "sessions w tok = None" "w_now w' = w_now w" using tok by (simp_all add: sessions_def w' connected_sel)
  ultimately show thesis by (rule that [rotated 2])
qed

lemma revive_sessions:
  assumes ok: "server_ok E w" and c: "c \<in> set (w_clients w)" and t: "t \<in> set (w_clients w)"
    and ne: "c \<noteq> t" and cn: "c_connection (w_client w c) = Some cn" and run: "server_reviveClient E c t w = Inr (True, w')"
  shows "sessions w' = (sessions w)(c_token (w_client w c) := None,
    c_token (w_client w t) \<mapsto> (Some cn, getRealClientIp E cn, w_now w))"
proof
  fix tok
  note tab = server_okD(2) [OF ok]
  obtain w1 where w1: "manager_reviveClient E c t w = Inr (True, w1)" "mgr_view w1 = mgr_view (handover E cn c t w)"
    using manager_reviveClient_total [OF ok c t ne cn] by blast
  have "view w' = view w1"
    using run w1(1) by (auto simp: server_reviveClient_def Let_def view_simps split: option.splits if_splits)
  then have v: "mgr_view w' = mgr_view (handover E cn c t w)" using w1(2) mgr_view_cong by metis
  have seen: "seen w' = (seen w)(t := w_now w)" using revive_times [OF run] by (simp add: times_def noted_def)
  have "c_token (w_client w c) \<noteq> c_token (w_client w t)" using same_token [OF tab c t] ne by blast
  then show "sessions w' tok = ((sessions w)(c_token (w_client w c) := None,
      c_token (w_client w t) \<mapsto> (Some cn, getRealClientIp E cn, w_now w))) tok"
    using token_of(1) [OF tab c] token_of(2) [OF tab c, of tok] token_of(1) [OF tab t] token_of(2) [OF tab t, of tok]
    by (cases "w_tokenToClient w tok"; cases "tok = c_token (w_client w c)"; cases "tok = c_token (w_client w t)")
      (auto simp: sessions_def mgr_view_eqD [OF v] handover_sel [OF c] seen)
qed

subsection \<open>Connections\<close>

lemma sessions_on_open:
  assumes inv: "server_inv E w" and cn: "w_connectionToClient w cn = None" and run: "on_open E cn w = Inr w'"
  shows "session_step (getRealClientIp E) (Arrives cn) (session_state w) (session_state w')"
  using inv run
proof (cases rule: on_open_cases)
  note tab = server_okD(2) [OF invD(1) [OF inv]]
  note at = sessions_at_clients [OF tab] live_at_connections [OF tab] and new = unknown_connection [OF tab cn]
  case refused
  have "view w' = view w" "times w' = times w" by (simp_all add: refused(2) view_simps)
  then have "session_state w' = session_state w" by (intro session_state_cong mgr_view_cong)
  then show ?thesis using refused(1) at by (simp add: session_state_def session_step.refuse)
next
  note tab = server_okD(2) [OF invD(1) [OF inv]]
  note at = sessions_at_clients [OF tab] live_at_connections [OF tab] and new = unknown_connection [OF tab cn]
  case (evicting c v)
  let ?ip = "getRealClientIp E cn"
  note oo = oldest_orphan_Some [OF evicting(3)]
  have five: "sessions_at (sessions w) ?ip = 5"
    using at(1) evicting(2) invD(2) [OF inv] by (simp add: limits_ok_def maxClientsFromIp_def) (metis le_antisym of_nat_le_iff of_nat_numeral)
  have v: "sessions v = (sessions w)(c_token (w_client w c) := None)" "w_now v = w_now w"
    using removeClient_sessions [OF invD(1) [OF inv] oo(1) evicting(4)] now_of(1) [OF times_same(2) [OF evicting(4)]] by simp_all
  have inv': "server_inv E v" "w_connectionToClient v cn = None"
    using removeClient_inv [OF inv oo(1)] evicting(4) cn by auto
  obtain tok where tok: "sessions v tok = None" "w_now w' = w_now v"
    "sessions w' = (sessions v)(tok \<mapsto> (Some cn, ?ip, w_now v))"
    by (rule connect_sessions [OF invD(1) [OF inv'(1)] inv'(2) evicting(5)])
  have "sessions w (c_token (w_client w c)) = Some (None, ?ip, seen w c)"
    using sessions_client [OF tab oo(1)] oo(2,3) by (simp add: at_ip_def)
  from session_step.replace [of "sessions w" "getRealClientIp E" cn, OF _ five new this] evicting(1) at(2) tok v
  show ?thesis by (simp add: session_state_def)
next
  note tab = server_okD(2) [OF invD(1) [OF inv]]
  note at = sessions_at_clients [OF tab] live_at_connections [OF tab] and new = unknown_connection [OF tab cn]
  case connecting
  obtain tok where tok: "sessions w tok = None" "w_now w' = w_now w"
    "sessions w' = (sessions w)(tok \<mapsto> (Some cn, getRealClientIp E cn, w_now w))"
    by (rule connect_sessions [OF invD(1) [OF inv] cn connecting(3)])
  from session_step.enter [of "sessions w" "getRealClientIp E" cn, OF _ _ new tok(1)] connecting(1,2) at tok
  show ?thesis by (simp add: session_state_def)
qed

lemma session_of:
  assumes inv: "server_inv E w" and c: "w_connectionToClient w cn = Some c"
  shows "sessions w (c_token (w_client w c)) = Some (Some cn, c_lastClientIP (w_client w c), seen w c)"
  using sessions_client [OF server_okD(2) [OF invD(1) [OF inv]]] connection_client [OF inv c] by simp

lemma sessions_stranger:
  assumes "server_inv E w" and "w_connectionToClient w cn = None" and "session_state w' = session_state w"
    and "a \<in> {Ends cn, Breaks cn} \<union> range (Speaks cn)"
  shows "session_step addr a (session_state w) (session_state w')"
  using session_step.stranger [OF unknown_connection [OF server_okD(2) [OF invD(1) [OF assms(1)]] assms(2)] assms(4)]
  unfolding assms(3) by (simp add: session_state_def)

lemma sessions_removeConnection:
  assumes inv: "server_inv E w" and run: "removeConnection E cn w = Inr (b, w')"
  shows "session_step (getRealClientIp E) (Ends cn) (session_state w) (session_state w')"
proof (cases "w_connectionToClient w cn")
  case None
  then show ?thesis using run by (intro sessions_stranger [OF inv]) (auto simp: removeConnection_def findClientByConnection_def)
next
  case (Some c)
  then have "removeClient E c w = Inr w'"
    using run by (auto simp: removeConnection_def findClientByConnection_def bindS_Inr_iff)
  then show ?thesis
    using session_step.finish [of "sessions w", OF session_of [OF inv Some]] removeClient_sessions [OF invD(1) [OF inv] connection_client(1) [OF inv Some]]
      now_of(1) times_same(2) by (metis session_state_def)
qed

lemma sessions_makeOrphanConnection:
  assumes inv: "server_inv E w" and run: "makeOrphanConnection E cn w = Inr (b, w')"
  shows "session_step (getRealClientIp E) (Breaks cn) (session_state w) (session_state w')"
proof (cases "w_connectionToClient w cn")
  case None
  then show ?thesis using run by (intro sessions_stranger [OF inv]) (auto simp: makeOrphanConnection_def findClientByConnection_def)
next
  case (Some c)
  then have "makeOrphan E c w = Inr w'"
    using run by (auto simp: makeOrphanConnection_def findClientByConnection_def bindS_Inr_iff)
  then show ?thesis
    using session_step.lose [of "sessions w", OF session_of [OF inv Some]] makeOrphan_sessions [OF invD(1) [OF inv] connection_client [OF inv Some]]
      now_of(1) times_same(1) by (metis session_state_def)
qed

subsection \<open>Frames\<close>

text \<open>What the sender of a frame claims: no packet, or a packet with the token of a login.\<close>

definition claim :: "('j, 'x) env \<Rightarrow> string \<Rightarrow> string option" where
  "claim E msg = (case packet_read E msg of
     Inr (Some p) \<Rightarrow> Some (case p of Packet_Auth q \<Rightarrow> pa_token q | _ \<Rightarrow> [])
   | _ \<Rightarrow> None)"

lemma packet_plain:
  assumes ok: "server_ok E w" and c: "c \<in> set (w_clients w)" and p: "\<And>q. p \<noteq> Packet_Auth q"
    and run: "packet_process E c p w = Inr w'"
  shows "mgr_view w' = mgr_view w" and "times w' = times w"
proof -
  note cok = server_okD(1) [OF ok]
  have kept: "keeps w w'" if "okR (keeps w) res" "res = Inr w'" for res using that by simp
  have "keeps w (online_list_process E c q w)" "keeps w (status_process E c s w)" for q s
    by (rule keeps_view, rule view_simps)+
  then have "keeps w w'"
    using run p kept [OF message_process_ok [OF cok]] kept [OF join_process_ok [OF cok c]]
      kept [OF leave_process_ok [OF cok]] kept [OF remove_room_process_ok [OF cok]] create_room_process_keeps [OF cok]
      keeps_view [OF refl]
    by (cases p) auto
  then show "mgr_view w' = mgr_view w" by (simp add: keeps_def)
  show "times w' = times w" by (rule times_same(3) [OF p run])
qed

lemma sessions_on_message:
  assumes inv: "server_inv E w" and run: "on_message E cn msg w = Inr w'"
  shows "session_step (getRealClientIp E) (Speaks cn (claim E msg)) (session_state w) (session_state w')"
proof (cases "w_connectionToClient w cn")
  case None
  with run have "w' = w" by (simp add: on_message_def findClientByConnection_def)
  then show ?thesis using None by (intro sessions_stranger [OF inv]) auto
next
  case (Some c)
  let ?w = "upd_client c (\<lambda>cl. cl\<lparr>c_lastPacketTime := w_now w\<rparr>) w" and ?tok = "c_token (w_client w c)"
  have eq: "on_message E cn msg w = bindS (client_onPacket E c msg w) (\<lambda>r. Inr (case r of Inl _ \<Rightarrow> w | Inr w \<Rightarrow> w))"
    by (simp add: on_message_def findClientByConnection_def Some)
  have v: "view ?w = view w" by (simp add: view_upd_client client_view_def)
  have mem: "c \<in> set (w_clients ?w)" "c_connection (w_client ?w c) = Some cn" using connection_client [OF inv Some] by simp_all
  have ok: "server_ok E ?w" by (rule server_ok_view [OF v invD(1) [OF inv]])
  note tab = server_okD(2) [OF invD(1) [OF inv]]
  have c: "c \<in> set (w_clients w)" using mem(1) by simp
  have "sessions ?w tok = ((sessions w)(?tok \<mapsto> (Some cn, c_lastClientIP (w_client w c), w_now w))) tok" for tok
    using token_of(1) [OF tab c] token_of(2) [OF tab c, of tok] mem(2)
    by (cases "tok = ?tok"; cases "w_tokenToClient w tok") (auto simp: sessions_def seen_def)
  then have heard: "sessions ?w = (sessions w)(?tok \<mapsto> (Some cn, c_lastClientIP (w_client w c), w_now w))" by blast
  have same: ?thesis if "session_state w' = session_state ?w" "claim E msg = Some k" for k
    using session_step.heard [of "sessions w", OF session_of [OF inv Some], of "getRealClientIp E" k "w_now w"] that heard
    by (simp add: session_state_def)
  consider (noise) "w' = w" "claim E msg = None"
    | (auth) q where "packet_read E msg = Inr (Some (Packet_Auth q))" "auth_process E c q ?w = Inr w'"
    | (packet) p where "packet_read E msg = Inr (Some p)" "packet_process E c p ?w = Inr w'" "\<And>q. p \<noteq> Packet_Auth q"
  proof (cases "packet_read E msg")
    case (Inl e)
    with run have "w' = w" unfolding eq client_onPacket_def by simp
    then show ?thesis by (rule that(1)) (simp add: claim_def Inl)
  next
    case (Inr po)
    show ?thesis
    proof (cases po)
      case None
      with Inr run have "w' = w" unfolding eq client_onPacket_def by simp
      then show ?thesis by (rule that(1)) (simp add: claim_def Inr None)
    next
      case p: (Some p)
      then have "packet_process E c p ?w = Inr w'"
        using Inr run unfolding eq client_onPacket_def by (cases "packet_process E c p ?w") auto
      then show ?thesis using that(2,3) Inr p by (cases p) auto
    qed
  qed
  then show ?thesis
  proof cases
    case noise
    then show ?thesis by (simp add: session_state_def session_step.noise)
  next
    case (packet p)
    show ?thesis
      by (rule same [OF session_state_cong [OF packet_plain [OF ok mem(1) packet(3,2)]]]) (simp add: claim_def packet(1))
  next
    case (auth q)
    have claim: "claim E msg = Some (pa_token q)" by (simp add: claim_def auth(1))
    have eff: "auth_effect E c q ?w w'" using auth_process_effect [OF ok mem, of q] auth(2) by simp
    show ?thesis
    proof (cases "takes_up E c q ?w")
      case None
      then have "view w' = view ?w" using eff by (simp add: auth_effect_def)
      then show ?thesis using same [OF session_state_cong [OF mgr_view_cong times_same(4) [OF None auth(2)]] claim] by blast
    next
      case t: (Some t)
      obtain w2 where t1: "t \<in> set (w_clients ?w)" and w2: "view w2 = view ?w" "w_client w2 = w_client ?w" "w_now w2 = w_now ?w"
        and rev: "server_reviveClient E c t w2 = Inr (True, w')"
        using eff t by (auto simp: auth_effect_def)
      have ok2: "server_ok E w2" by (rule server_ok_view [OF w2(1) ok])
      have m: "c \<in> set (w_clients w2)" "t \<in> set (w_clients w2)" "c_connection (w_client w2 c) = Some cn"
        using mem t1 by (simp_all add: view_eqD [OF w2(1)])
      have "t \<in> set (w_clients w)" using t1 by simp
      note ne = takes_up_Some(3) [OF t]
      have "w_tokenToClient w (pa_token q) = Some t" using takes_up_Some(2) [OF t] by simp
      then have tok: "c_token (w_client w t) = pa_token q" using tables_okD(4) [OF tab] by blast
      have s2: "sessions w2 = sessions ?w"
        by (rule sessions_cong [OF mgr_view_cong [OF w2(1)]]) (simp add: seen_def [abs_def] w2(2))
      have tok2: "c_token (w_client w2 d) = c_token (w_client w d)" for d by (simp add: w2(2))
      have "sessions w' = (sessions w)(?tok := None, pa_token q \<mapsto> (Some cn, getRealClientIp E cn, w_now w))"
        using revive_sessions [OF ok2 m(1,2) ne [symmetric] m(3) rev] unfolding s2 heard tok2 tok w2(3) by simp
      moreover have "w_now w' = w_now w" using revive_times [OF rev] w2(3) by (simp add: times_def noted_def)
      moreover have "sessions w (pa_token q) = Some (c_connection (w_client w t), c_lastClientIP (w_client w t), seen w t)"
        using sessions_client [OF tab \<open>t \<in> set (w_clients w)\<close>] tok by simp
      moreover have "pa_token q \<noteq> ?tok" using same_token [OF tab \<open>t \<in> set (w_clients w)\<close> c] ne tok by auto
      ultimately show ?thesis
        using session_step.return [of "sessions w", OF session_of [OF inv Some], of "pa_token q" _ "getRealClientIp E" "w_now w"]
        by (simp add: session_state_def claim)
    qed
  qed
qed

subsection \<open>The timer\<close>

text \<open>A part of the sweep: sessions that are late may have lost their connection, or have ended.\<close>

definition wears :: "time \<Rightarrow> session_table \<Rightarrow> session_table \<Rightarrow> bool" where
  "wears t s s' \<longleftrightarrow> (\<forall>tok. s' tok = s tok \<or> (\<exists>x ip l. s tok = Some (x, ip, l) \<and>
     (t - l > 150 \<and> s' tok = Some (None, ip, l) \<or> t - l > 300 \<and> s' tok = None)))"

lemma wears_refl: "wears t s s"
  by (simp add: wears_def)

lemma wears_trans:
  assumes "wears t s1 s2" and "wears t s2 s3"
  shows "wears t s1 s3"
  unfolding wears_def
proof
  fix tok
  have s3: "s3 tok = s2 tok \<or> (\<exists>x ip l. s2 tok = Some (x, ip, l) \<and>
      (t - l > 150 \<and> s3 tok = Some (None, ip, l) \<or> t - l > 300 \<and> s3 tok = None))"
    by (rule spec [OF assms(2) [unfolded wears_def]])
  consider "s2 tok = s1 tok" | x ip l where "s1 tok = Some (x, ip, l)" "t - l > 150" "s2 tok = Some (None, ip, l)"
    | x ip l where "s1 tok = Some (x, ip, l)" "t - l > 300" "s2 tok = None"
    using spec [OF assms(1) [unfolded wears_def], of tok] by blast
  then show "s3 tok = s1 tok \<or> (\<exists>x ip l. s1 tok = Some (x, ip, l) \<and>
      (t - l > 150 \<and> s3 tok = Some (None, ip, l) \<or> t - l > 300 \<and> s3 tok = None))"
    using s3 by cases simp_all
qed

lemma wears_sweep:
  assumes w: "wears t s s'" and gone: "\<And>tok x ip l. s' tok = Some (x, ip, l) \<Longrightarrow> t - l \<le> 300"
    and cut: "\<And>tok x ip l. s' tok = Some (x, ip, l) \<Longrightarrow> t - l > 150 \<Longrightarrow> x = None"
  shows "s' = sweep t s"
proof
  fix tok
  show "s' tok = sweep t s tok"
    using w [unfolded wears_def, THEN spec, of tok] gone [of tok] cut [of tok]
    by (cases "s' tok"; cases "s tok") (force simp: sweep_def)+
qed

lemma wears_makeOrphan:
  assumes ok: "server_ok E w" and c: "c \<in> set (w_clients w)" and run: "makeOrphan E c w = Inr w'" and late: "t - seen w c > 150"
  shows "wears t (sessions w) (sessions w')"
proof (cases "c_connection (w_client w c)")
  case None
  then show ?thesis using run by (simp add: makeOrphan_def wears_refl)
next
  case (Some cn)
  show ?thesis
    using makeOrphan_sessions [OF ok c Some run] sessions_client [OF server_okD(2) [OF ok] c] late by (simp add: wears_def)
qed

lemma wears_tick_client:
  assumes inv: "server_inv E v" and c: "c \<in> set (w_clients v)" and run: "tick_client E t c (tk, v) = Inr (tk', v')"
  shows "wears t (sessions v) (sessions v')" and "times v' = times v"
proof -
  have close: "view (closeConnection cn v) = view v" for cn by (rule view_simps)
  have ping: "view (client_sendPacket E c (Packet_Ping None) v) = view v" by (rule view_simps)
  have pinged: "times (client_sendPacket E c (Packet_Ping None) v) = times v" by (simp add: times_def)
  consider "view v' = view v" "times v' = times v"
    | cn where "makeOrphan E c (closeConnection cn v) = Inr v'" "t - seen v c > 150"
    using run ping pinged
    by (auto simp: tick_client_def seen_def connectTimeout_def Let_def bindS_Inr_iff split: if_splits option.splits)
  then have "wears t (sessions v) (sessions v') \<and> times v' = times v"
  proof cases
    case 1
    then show ?thesis using sessions_cong [OF mgr_view_cong [OF 1(1)] now_of(2) [OF 1(2)]] by (simp add: wears_refl)
  next
    case (2 cn)
    have ok: "server_ok E (closeConnection cn v)" by (rule server_ok_view [OF close invD(1) [OF inv]])
    have "sessions (closeConnection cn v) = sessions v"
      by (rule sessions_cong [OF mgr_view_cong [OF close]]) simp
    then show ?thesis
      using wears_makeOrphan [OF ok _ 2(1), of t] times_same(1) [OF 2(1)] 2(2) c by (simp add: view_eqD [OF close])
  qed
  then show "wears t (sessions v) (sessions v')" and "times v' = times v" by blast+
qed

lemma sessions_on_tick:
  assumes inv: "server_inv E w" and run: "on_tick E w = Inr w'"
  shows "session_step addr Sweeps (session_state w) (session_state w')"
proof -
  define R where "R u v \<longleftrightarrow> (times u = times w \<longrightarrow> times v = times w \<and> wears (w_now w) (sessions u) (sessions v))" for u v :: "'b world"
  have "R w w'"
  proof (rule on_tick_relates [where R = R, OF _ _ _ _ _ inv run])
    show "R u v'" if "R u v" "R v v'" for u v v' using that by (auto simp: R_def intro: wears_trans)
    show "R v v'" if "server_inv E v" "c \<in> set (w_clients v)" "tick_client E (w_now w) c (tk, v) = Inr (tk', v')" for c tk v tk' v'
      using wears_tick_client [OF that] by (simp add: R_def)
    show "R v (closeConnection cn v)" for cn v
      using sessions_cong [OF mgr_view_cong [OF view_simps(1)]] by (simp add: R_def wears_refl sessions_def [abs_def])
    show "R v v'" if "w_now w - c_lastPacketTime (w_client w c) > 300" "server_inv E v" "c \<in> set (w_clients v)"
      "removeClient E c v = Inr v'" for c v v'
      using removeClient_sessions [OF invD(1) [OF that(2)] that(3,4)] times_same(2) [OF that(4)] that(1)
        sessions_client [OF server_okD(2) [OF invD(1) [OF that(2)]] that(3)]
      by (auto simp: R_def wears_def times_def seen_def fun_eq_iff)
  qed (simp add: R_def wears_refl)
  then have w: "times w' = times w" "wears (w_now w) (sessions w) (sessions w')" by (simp_all add: R_def)
  obtain inv': "server_inv E w'" and cl: "set (w_clients w') = {c \<in> set (w_clients w). w_now w - seen w c \<le> 300}"
    and cut: "\<forall>c \<in> set (w_clients w'). 150 < w_now w - seen w c \<longrightarrow> c_connection (w_client w' c) = None"
    using on_tick_inv [OF inv] run by (auto simp: orphanTimeout_def connectTimeout_def)
  have "sessions w' = sweep (w_now w) (sessions w)"
  proof (rule wears_sweep [OF w(2)])
    fix tok x ip l assume s: "sessions w' tok = Some (x, ip, l)"
    obtain c where c: "c \<in> set (w_clients w')" "c_connection (w_client w' c) = x" "seen w' c = l"
      by (rule sessions_Some [OF server_okD(2) [OF invD(1) [OF inv']] s]) blast
    then show "w_now w - l \<le> 300" using cl now_of(2) [OF w(1)] by auto
    show "x = None" if "w_now w - l > 150" using cut c now_of(2) [OF w(1)] that by auto
  qed
  then show ?thesis using now_of(1) [OF w(1)] session_step.sweeps by (simp add: session_state_def)
qed

subsection \<open>The server refines the machine\<close>

primrec cause_of :: "('j, 'x) env \<Rightarrow> 'x event \<Rightarrow> cause" where
  "cause_of E (Opened cn) = Arrives cn"
| "cause_of E (Message cn msg) = Speaks cn (claim E msg)"
| "cause_of E (Closed cn stat) = (if stat = 1000 \<or> stat = 1001 then Ends cn else Breaks cn)"
| "cause_of E (Failed cn) = Breaks cn"
| "cause_of E Timer = Sweeps"
| "cause_of E (Clock t) = Ticks t"
| "cause_of E (Services x) = Outside"

theorem handle_sessions:
  assumes inv: "server_inv E w" and "admissible w ev" and run: "handle E ev w = Inr w'"
  shows "session_step (getRealClientIp E) (cause_of E ev) (session_state w) (session_state w')"
proof (cases ev)
  case (Opened cn)
  then show ?thesis using assms(2) run sessions_on_open [OF inv, of cn w'] by simp
next
  case (Message cn msg)
  then show ?thesis using run sessions_on_message [OF inv, of cn msg w'] by simp
next
  case (Closed cn stat)
  then show ?thesis
    using run sessions_removeConnection [OF inv] sessions_makeOrphanConnection [OF inv]
    by (auto simp: on_close_def bindS_Inr_iff split: if_splits)
next
  case (Failed cn)
  then show ?thesis using run sessions_makeOrphanConnection [OF inv] by (auto simp: on_error_def bindS_Inr_iff)
next
  case Timer
  then show ?thesis using run sessions_on_tick [OF inv] by simp
next
  case (Clock t)
  then show ?thesis using run by (auto simp: session_state_def sessions_def [abs_def] seen_def intro: session_step.ticks)
next
  case (Services x)
  then show ?thesis using run by (auto simp: session_state_def sessions_def [abs_def] seen_def intro: session_step.outside)
qed

lemma sessions_started: "started w \<Longrightarrow> sessions w = Map.empty"
  by (simp add: sessions_def [abs_def] started_def)

interpretation refined: simulation "server_step E" started "server_inv E"
  "\<lambda>p q. \<exists>a. session_step (getRealClientIp E) a p q" "\<lambda>p. snd p = Map.empty" session_state for E
proof unfold_locales
  show "snd (session_state w) = Map.empty" if "started w" for w :: "'b world"
    using that by (simp add: session_state_def sessions_started)
  show "(\<lambda>p q. \<exists>a. session_step (getRealClientIp E) a p q)\<^sup>*\<^sup>* (session_state w) (session_state w')"
    if "server_inv E w" "server_step E w w'" for w w'
    using that(2) by (rule server_stepE) (use handle_sessions [OF that(1)] in blast)
qed

lemma reachable_sessions:
  assumes "started w0" and "reachable E w0 w"
  shows "table_ok (getRealClientIp E) (sessions w)"
  using refined.reach_abs [OF assms(1) reachable_rtranclp [OF assms(2)]] machine.reach_I [of _ "getRealClientIp E" "session_state w"]
  by (auto simp: session_state_def)

end
