(* ===== verification/Authority.thy ===== *)
theory Authority
  imports ConnectionFacts Joining
begin

text \<open>
  Who can cost whom a place in a room: what every operation takes from the rooms of the clients,
  and the causes for which an event of the server may do so.
\<close>

subsection \<open>Places\<close>

definition places :: "'x world \<Rightarrow> client_ptr \<Rightarrow> room_ptr set" where
  "places w d = set (c_rooms (w_client w d))"

definition lost :: "'x world \<Rightarrow> 'x world \<Rightarrow> (client_ptr \<times> room_ptr) set" where
  "lost w w' = {(d, r). r \<in> places w d \<and> r \<notin> places w' d}"

lemma lost_same: "places w' = places w \<Longrightarrow> lost w w' = {}"
  by (simp add: lost_def)

lemma lost_trans: "lost w w' \<subseteq> X \<Longrightarrow> lost w' w'' \<subseteq> X \<Longrightarrow> lost w w'' \<subseteq> X"
  by (auto simp: lost_def)

lemma lost_until: "lost w w' \<subseteq> X \<Longrightarrow> places w'' = places w' \<Longrightarrow> lost w w'' \<subseteq> X"
  by (simp add: lost_def)

lemma lost_since: "lost w' w'' \<subseteq> X \<Longrightarrow> places w' = places w \<Longrightarrow> lost w w'' \<subseteq> X"
  by (simp add: lost_def)

lemma places_view:
  assumes "view w' = view w"
  shows "places w' = places w"
  by (simp add: fun_eq_iff places_def view_eqD [OF assms])

lemma lost_view: "view w' = view w \<Longrightarrow> lost w w' \<subseteq> X"
  using lost_same [OF places_view] by blast

lemma places_clients: "w_client w' = w_client w \<Longrightarrow> places w' = places w"
  by (simp add: fun_eq_iff places_def)

lemma places_simps [simp]:
  "places (client_sendPacket E c p w) = places w"
  "places (client_setConnection E c cno w) = places w"
  "places (detach c w) = places w"
  "places (decrementForIp ip fld w) = places w"
  "places (eraseConnection cn w) = places w"
  "places (closeConnection cn w) = places w"
  "places (snd (removeFromClients c w)) = places w"
  "places (w\<lparr>w_connectionToClient := t\<rparr>) = places w"
  "places (w\<lparr>w_rooms := rs\<rparr>) = places w"
  by (simp_all add: fun_eq_iff places_def client_setConnection_sel detach_sel decrementForIp_def
      eraseConnection_def removeFromClients_def)

lemma lost_foldR:
  assumes "foldR f xs w = Inr w'" and "\<And>x v v'. x \<in> set xs \<Longrightarrow> f x v = Inr v' \<Longrightarrow> lost v v' \<subseteq> X"
  shows "lost w w' \<subseteq> X"
  using assms
proof (induction xs arbitrary: w)
  case (Cons x xs)
  then obtain v where v: "f x w = Inr v" "foldR f xs v = Inr w'" by (auto simp: bindS_Inr_iff)
  have "lost w v \<subseteq> X" by (rule Cons.prems(2) [OF _ v(1)]) simp
  moreover have "lost v w' \<subseteq> X" by (rule Cons.IH [OF v(2)], rule Cons.prems(2)) simp_all
  ultimately show ?case by (rule lost_trans)
qed (simp add: lost_same)

subsection \<open>Clients and rooms\<close>

lemma lost_leave: "client_leaveRoom E c r w = Inr w' \<Longrightarrow> lost w w' \<subseteq> {(c, r)}"
  by (auto simp: client_leaveRoom_def lost_def places_def uset_erase_def dest!: loops_keep_clients(3) split: if_splits)

lemma lost_kick: "lost w (room_kickMember E r m w) \<subseteq> UNIV \<times> {r}"
  by (auto simp: lost_def places_def view_eqD [OF view_room_kickMember] unlink_sel uset_erase_def split: if_splits)

lemma lost_onRemove:
  assumes "client_onRemove E c w = Inr w'"
  shows "lost w w' \<subseteq> {c} \<times> UNIV"
proof -
  obtain v where v: "foldR (\<lambda>r. room_removeMember E r c) (c_rooms (w_client w c)) w = Inr v"
    and w': "w' = client_setConnection E c None (upd_client c (\<lambda>cl. cl\<lparr>c_rooms := []\<rparr>) v)"
    using assms by (auto simp: client_onRemove_eq bindS_Inr_iff Let_def)
  have "w_client v = w_client w"
    by (rule foldR_invariant [OF _ v]) (rule loops_keep_clients(3))
  then show ?thesis unfolding w' by (auto simp: lost_def places_def client_setConnection_sel split: if_splits)
qed

lemma lost_remove:
  assumes "removeClient E c w = Inr w'"
  shows "lost w w' \<subseteq> {c} \<times> UNIV"
  using assms unfolding removeClient_def Let_def split_beta
  by (elim lost_since [OF lost_onRemove]) (simp split: option.split)

lemma places_onDisconnect: "client_onDisconnect E c w = Inr w' \<Longrightarrow> places w' = places w"
  unfolding client_onDisconnect_eq Let_def
  by (drule foldR_invariant [where v = w_client, rotated]) (auto dest: loops_keep_clients(2) places_clients)

lemma places_makeOrphan: "makeOrphan E c w = Inr w' \<Longrightarrow> places w' = places w"
  by (auto simp: makeOrphan_def dest: places_onDisconnect split: option.splits if_splits)

lemma places_onRevive:
  assumes "client_onRevive E c w = Inr w'"
  shows "places w' = places w"
proof -
  have "w_client w' = w_client (upd_client c (\<lambda>cl. cl\<lparr>c_lastPacketTime := w_now w\<rparr>) w)"
    using assms unfolding client_onRevive_eq Let_def
    by (rule foldR_invariant [rotated]) (rule loops_keep_clients(1))
  then show ?thesis by (auto simp: fun_eq_iff places_def)
qed

lemma lost_revive:
  assumes "server_reviveClient E c t w = Inr (b, w')"
  shows "lost w w' \<subseteq> {c} \<times> UNIV"
proof -
  obtain v where v: "manager_reviveClient E c t w = Inr (b, v)" "places w' = places v"
    using assms by (auto simp: server_reviveClient_def bindS_Inr_iff Let_def split: option.splits if_splits)
  have "lost w v \<subseteq> {c} \<times> UNIV"
    using v(1) unfolding manager_reviveClient_def Let_def
    by (auto simp: bindS_Inr_iff lost_same dest!: lost_onRemove places_onRevive split: option.splits if_splits)
      (auto simp: lost_def)
  then show ?thesis by (rule lost_until [OF _ v(2)])
qed

lemma lost_destroy:
  assumes "server_removeRoom E nm w = Inr (b, w')" and "server_getRoomByName w nm = Some r"
  shows "lost w w' \<subseteq> UNIV \<times> {r}"
proof -
  let ?w = "w\<lparr>w_rooms := uset_erase r (w_rooms w)\<rparr>"
  have "room_onDestroy E r ?w = Inr w'"
    using assms by (auto simp: server_removeRoom_def bindS_Inr_iff)
  then have "lost ?w w' \<subseteq> UNIV \<times> {r}"
    unfolding room_onDestroy_def Let_def
  proof (rule lost_foldR)
    fix m v v'
    assume "bindS (client_leaveRoom E (m_client (w_member v m)) r v) (\<lambda>u.
        Inr (client_sendPacket E (m_client (w_member v m)) (leave_packet (r_name (w_room u r))) u)) = Inr v'"
    then obtain u where "client_leaveRoom E (m_client (w_member v m)) r v = Inr u" "places v' = places u"
      by (auto simp: bindS_Inr_iff)
    then show "lost v v' \<subseteq> UNIV \<times> {r}" using lost_until [OF lost_leave] by fastforce
  qed
  then show ?thesis by (rule lost_since) simp
qed

subsection \<open>Commands\<close>

definition expelling :: "command \<Rightarrow> bool" where
  "expelling c \<longleftrightarrow> c = CommandKick \<or> c = CommandBanNick"

lemma places_setNick: "places (member_setNick E m nick w) = places w"
  using view_setNick [of E m nick w] places_clients [OF rename_sel(5)] by (auto dest!: places_view)

lemma places_command: "\<not> expelling c \<Longrightarrow> places (command_process E c m p w) = places w"
proof (cases "c = CommandNick")
  case True
  then show ?thesis by (auto simp: cmd_nick_process_def Let_def places_setNick intro: places_view view_simps)
next
  case False
  then show "\<not> expelling c \<Longrightarrow> ?thesis" by (intro places_view view_command) (auto simp: expelling_def)
qed

lemma lost_expelling:
  assumes "expelling c"
  shows "lost w (command_process E c m p w) \<subseteq> UNIV \<times> {m_room (w_member w m)}"
proof -
  let ?r = "m_room (w_member w m)"
  note kick = lost_kick [THEN subsetD]
  have reply: "places (reply E m t v) = places v" for t v by (rule places_view) (rule view_simps)
  have ban: "places (upd_room ?r (\<lambda>rm. snd (room_banNick nk rm)) w) = places w" for nk
    by (rule places_view) (rule view_simps)
  note banned = lost_until [OF lost_since [OF lost_kick ban] reply, THEN subsetD]
  have "lost w (cmd_kick_process E m p w) \<subseteq> UNIV \<times> {?r}"
    by (auto simp: cmd_kick_process_def Let_def reply lost_same split: option.split dest: kick)
  moreover have "lost w (cmd_bannick_process E m p w) \<subseteq> UNIV \<times> {?r}"
    by (auto simp: cmd_bannick_process_def Let_def reply lost_same ban split: option.split dest: banned)
  ultimately show ?thesis using assms by (auto simp: expelling_def)
qed

subsection \<open>Packets\<close>

text \<open>What a client has power over: its own places, and all places in the rooms where it is privileged.\<close>

definition reach :: "'x world \<Rightarrow> client_ptr \<Rightarrow> (client_ptr \<times> room_ptr) set" where
  "reach w c = {(d, r). d = c \<or> privileged w r c}"

lemma reach_upd_client:
  assumes "\<And>cl. c_uid (f cl) = c_uid cl"
  shows "reach (upd_client d f w) c = reach w c"
  using assms by (simp add: reach_def privileged_def)

lemma lost_processCommand:
  assumes "processCommand E m r msg w = Some w'"
  shows "lost w w' \<subseteq> reach w (m_client (w_member w m))"
proof (cases "msg \<noteq> [] \<and> hd msg = CHR ''/''")
  case True
  then obtain s where s: "msg = CHR ''/'' # s" by (cases msg) auto
  let ?bad = "member_sendPacket E m (sys_packet (r_name (w_room w r)) txt_no_command) w"
  have bad: "lost w ?bad = {}" by (rule lost_same [OF places_view]) (rule view_simps)
  have run: "lost w (command_process E c m p w) \<subseteq> reach w (m_client (w_member w m))"
    if "holds_right w m (required c)" for c p
  proof (cases "expelling c")
    case True
    with that have "privileged w (m_room (w_member w m)) (m_client (w_member w m))"
      by (auto simp: expelling_def member_isModer_privileged)
    with lost_expelling [OF True, of w E m p] show ?thesis by (auto simp: reach_def)
  next
    case False
    then show ?thesis by (simp add: lost_same places_command)
  qed
  show ?thesis
    using assms bad run processCommand_words(1) [OF s, of E m r w]
    by (auto simp: Let_def split: option.splits if_splits)
next
  case False
  then show ?thesis using assms by (auto simp: processCommand_def)
qed

lemma lost_say:
  assumes "say_in_room E c r targ msg w = Inr w'"
  shows "lost w w' \<subseteq> reach w c"
proof -
  obtain m where m: "findMemberByClient w r c = Some m"
    using assms by (cases "findMemberByClient w r c") (auto simp: say_in_room_def)
  show ?thesis
  proof (cases "processCommand E m r msg w")
    case (Some v)
    then show ?thesis
      using assms m lost_processCommand [OF Some] findMemberByClient_Some [OF m] by (simp add: say_in_room_def)
  next
    case None
    have "view w' = view w"
      using assms m None by (auto simp: say_in_room_def Let_def split_beta view_simps split: if_splits)
    then show ?thesis by (rule lost_view)
  qed
qed

lemma lost_message:
  assumes "message_process E c p w = Inr w'"
  shows "lost w w' \<subseteq> reach w c"
proof -
  let ?w1 = "flood_window c w"
  let ?w2 = "upd_client c (\<lambda>cl. cl\<lparr>c_messageCounter := c_messageCounter cl + 1\<rparr>) ?w1"
  have v1: "view ?w1 = view w" by (rule view_simps)
  have v2: "view ?w2 = view w" using v1 by (simp add: view_upd_client client_view_def)
  have "reach ?w1 c = reach w c" by (simp add: flood_window_def reach_upd_client)
  then have same: "reach ?w2 c = reach w c" by (simp add: reach_upd_client)
  have say: "lost w w' \<subseteq> reach w c" if "say_in_room E c r targ msg ?w2 = Inr w'" for r targ msg
    using lost_since [OF lost_say [OF that] places_view [OF v2]] by (simp only: same)
  have "view w' = view w \<or> (\<exists>r targ msg. say_in_room E c r targ msg ?w2 = Inr w')"
    using assms v1 v2 by (auto simp: message_process_def Let_def view_simps split: if_splits option.splits)
  then show ?thesis using lost_view say by blast
qed

lemma lost_join:
  assumes ok: "members_ok w" and join: "join_process E c p w = Inr w'"
  shows "lost w w' \<subseteq> X"
proof -
  have "lost w w' \<subseteq> {}"
  proof (cases "client_getRoomByName w c (pj_target p) \<noteq> None \<or> server_getRoomByName w (pj_target p) = None")
    case True
    then show ?thesis using join by (auto simp: join_process_def lost_same split: if_splits)
  next
    case False
    then obtain r res v where j: "client_joinRoom c r w = Inr (res, v)"
      and w': "w' = (case res of Inl e \<Rightarrow> ban_reply E c r p e v | Inr None \<Rightarrow> v | Inr (Some m) \<Rightarrow> after_join E c r p m v)"
      using join by (auto simp: join_process_def bindS_Inr_iff)
    have "places w' = places v"
      unfolding w' using places_view [OF view_ban_reply, of E c r p _ v] joined_membership(2) [OF after_join_view, of E c r p _ v]
      by (auto simp: fun_eq_iff places_def split: sum.split option.split)
    moreover from ok j have "lost w v \<subseteq> {}"
    proof (cases rule: client_joinRoom_cases)
      case (banned e i)
      have "lost w (alloc r c i w) \<subseteq> {}" by (simp add: lost_def places_def alloc_sel)
      then show ?thesis by (rule lost_until [OF _ places_view [OF banned(3)]])
    next
      case (joined i)
      have "lost w (link r c i w) \<subseteq> {}" by (auto simp: lost_def places_def link_sel uset_insert_def)
      then show ?thesis by (rule lost_until [OF _ places_view [OF joined(3)]])
    qed
    ultimately show ?thesis using lost_until by blast
  qed
  then show ?thesis by blast
qed

lemma lost_then_send:
  assumes "lost w w' \<subseteq> X" and "X \<subseteq> Y"
  shows "lost w (client_sendPacket E c p w') \<subseteq> Y"
  using lost_until [OF assms(1) places_simps(1)] assms(2) by blast

lemma lost_leave_packet:
  assumes "leave_process E c p w = Inr w'"
  shows "lost w w' \<subseteq> {c} \<times> UNIV"
proof (cases "client_getRoomByName w c (pl_target p)")
  case None
  then show ?thesis using assms by (auto simp: leave_process_def lost_same)
next
  case (Some r)
  then obtain v where v: "client_leaveRoom E c r w = Inr v" "w' = client_sendPacket E c (Packet_Leave p) v"
    using assms by (auto simp: leave_process_def bindS_Inr_iff)
  show ?thesis unfolding v(2) by (rule lost_then_send [OF lost_leave [OF v(1)]]) simp
qed

lemma lost_create: "lost w (create_room_process E c p w) = {}"
proof -
  have "places w' = places w" if "server_createRoom nm w = (res, w')" for nm res w'
    using that by (auto simp: server_createRoom_def Let_def fun_eq_iff places_def split: option.splits)
  then show ?thesis
    by (intro lost_same)
      (auto simp: create_room_process_def Let_def fun_eq_iff places_def split: option.split prod.split)
qed

lemma lost_remove_packet:
  assumes "remove_room_process E c p w = Inr w'"
  shows "lost w w' \<subseteq> reach w c"
proof (cases "client_isGuest (w_client w c) \<or> server_getRoomByName w (pr_target p) = None")
  case True
  then show ?thesis using assms by (auto simp: remove_room_process_def Let_def lost_same split: if_splits)
next
  case False
  then obtain r where r: "server_getRoomByName w (pr_target p) = Some r" "c_uid (w_client w c) \<noteq> 0"
    by (auto simp: client_isGuest_def)
  show ?thesis
  proof (cases "client_isAdmin (w_client w c) \<or> c_uid (w_client w c) = r_ownerId (w_room w r)")
    case True
    then have "UNIV \<times> {r} \<subseteq> reach w c" using r(2) by (auto simp: reach_def privileged_def client_isAdmin_def)
    moreover obtain b v where "server_removeRoom E (pr_target p) w = Inr (b, v)"
      "w' = client_sendPacket E c (Packet_RemoveRoom p) v"
      using assms False r True by (auto simp: remove_room_process_def Let_def bindS_Inr_iff)
    ultimately show ?thesis using lost_then_send [OF lost_destroy [OF _ r(1)]] by simp
  next
    case no: False
    then show ?thesis using assms False r by (auto simp: remove_room_process_def Let_def lost_same)
  qed
qed

lemma lost_auth:
  assumes "auth_result E c w w'"
  shows "lost w w' \<subseteq> {c} \<times> UNIV"
  using assms unfolding auth_result_def
proof
  assume "view w' = view w"
  then show ?thesis by (rule lost_view)
next
  assume "\<exists>t w2. view w2 = view w \<and> t \<in> set (w_clients w) \<and> t \<noteq> c \<and> server_reviveClient E c t w2 = Inr (True, w')"
  then obtain t w2 where v: "view w2 = view w" and rev: "server_reviveClient E c t w2 = Inr (True, w')" by blast
  show ?thesis by (rule lost_since [OF lost_revive [OF rev] places_view [OF v]])
qed

lemma lost_packet:
  assumes ok: "server_ok E w" and c: "c \<in> set (w_clients w)"
    and cn: "c_connection (w_client w c) = Some cn" and run: "packet_process E c p w = Inr w'"
  shows "lost w w' \<subseteq> reach w c"
proof -
  have own: "{c} \<times> UNIV \<subseteq> reach w c" by (auto simp: reach_def)
  have idle: "lost w w' \<subseteq> reach w c" if "w' = v" "view v = view w" for v
    using that by (simp add: lost_view)
  show ?thesis
  proof (cases p)
    case (Packet_Message q)
    then show ?thesis using run lost_message by simp
  next
    case (Packet_Auth q)
    then have "auth_result E c w w'" using run auth_process_cases [OF ok c cn, of q] by simp
    then show ?thesis using lost_auth own by blast
  next
    case (Packet_Join q)
    then show ?thesis using run lost_join [OF chat_okD(1) [OF server_okD(1) [OF ok]]] by simp
  next
    case (Packet_Leave q)
    then show ?thesis using run lost_leave_packet own by fastforce
  next
    case (Packet_CreateRoom q)
    then show ?thesis using run lost_create [of w E c q] by simp
  next
    case (Packet_RemoveRoom q)
    then show ?thesis using run lost_remove_packet by simp
  next
    case (Packet_OnlineList q)
    then show ?thesis using run by (intro idle [OF _ view_online_list_process [of E c q w]]) simp
  next
    case (Packet_Status q)
    then show ?thesis using run by (intro idle [OF _ view_status_process [of E c q w]]) simp
  qed (use run in \<open>simp_all add: lost_view\<close>)
qed

subsection \<open>Events\<close>

text \<open>
  The places that an event may cost: those of the orphan that makes way for a new connection from
  its address, those a client has power over when it sends a frame, its own when its connection
  is closed in order, and those of the clients that were silent for more than five minutes. An
  error of a connection costs nothing.
\<close>

primrec causes :: "('j, 'x) env \<Rightarrow> 'x world \<Rightarrow> 'x event \<Rightarrow> (client_ptr \<times> room_ptr) set" where
  "causes E w (Opened cn) =
     (if connections_at w (getRealClientIp E cn) < 5 then evicted E cn w \<times> UNIV else {})"
| "causes E w (Message cn msg) = (case w_connectionToClient w cn of None \<Rightarrow> {} | Some c \<Rightarrow> reach w c)"
| "causes E w (Closed cn stat) =
     (if stat = 1000 \<or> stat = 1001 then {c. w_connectionToClient w cn = Some c} \<times> UNIV else {})"
| "causes E w (Failed cn) = {}"
| "causes E w Timer = {c. w_now w - c_lastPacketTime (w_client w c) > 300} \<times> UNIV"
| "causes E w (Clock t) = {}"
| "causes E w (Services x) = {}"

lemma lost_on_message:
  assumes inv: "server_inv E w" and run: "on_message E cn msg w = Inr w'"
  shows "lost w w' \<subseteq> causes E w (Message cn msg)"
proof (cases "w_connectionToClient w cn")
  case None
  then show ?thesis using run by (simp add: on_message_def findClientByConnection_def lost_same)
next
  case (Some c)
  let ?w = "upd_client c (\<lambda>cl. cl\<lparr>c_lastPacketTime := w_now w\<rparr>) w"
  have v: "view ?w = view w" by (simp add: view_upd_client client_view_def)
  note mem = connection_client [OF inv Some]
  have same: "reach ?w c = reach w c" by (simp add: reach_upd_client)
  have "lost w w' \<subseteq> reach w c" if "packet_process E c p ?w = Inr w'" for p
    using lost_since [OF lost_packet [OF server_ok_view [OF v invD(1) [OF inv]] _ _ that] places_view [OF v]] mem
    unfolding same by simp
  moreover have "w' = w \<or> (\<exists>p. packet_process E c p ?w = Inr w')"
  proof (cases "packet_read E msg")
    case (Inr q)
    then show ?thesis
      using run Some
      by (cases q) (auto simp: on_message_def findClientByConnection_def client_onPacket_def bindS_Inr_iff)
  qed (use run Some in \<open>simp add: on_message_def findClientByConnection_def client_onPacket_def\<close>)
  ultimately show ?thesis using Some lost_same [of w w] by auto
qed

lemma lost_connected:
  assumes "c_rooms (w_client w (w_nextClient w)) = []"
  shows "lost w (connected E cn tok pos w) = {}"
  using assms by (auto simp: lost_def places_def connected_sel split: if_splits)

lemma lost_connect:
  assumes inv: "server_inv E w" and cn: "w_connectionToClient w cn = None"
    and run: "manager_connect E cn w = Inr w'"
  shows "lost w w' \<subseteq> X"
proof -
  obtain tok pos where w': "w' = connected E cn tok pos w"
    using manager_connect_ok [OF invD(1) [OF inv] cn run] by blast
  show ?thesis
    unfolding w' lost_connected [OF fresh_client_no_rooms(2) [OF invD(1) [OF inv]]] by simp
qed

lemma lost_on_open:
  assumes inv: "server_inv E w" and cn: "w_connectionToClient w cn = None" and run: "on_open E cn w = Inr w'"
  shows "lost w w' \<subseteq> causes E w (Opened cn)"
  using inv run
proof (cases rule: on_open_cases)
  case refused
  then show ?thesis by (simp add: lost_same)
next
  case (evicting c v)
  have "server_inv E v" "w_connectionToClient v cn = None"
    using removeClient_inv [OF inv oldest_orphan_Some(1) [OF evicting(3)]] cn evicting(4) by auto
  from lost_trans [OF lost_remove [OF evicting(4)] lost_connect [OF this evicting(5)]] show ?thesis
    using evicting(1-3) by (simp add: evicted_def)
next
  case connecting
  show ?thesis by (rule lost_connect [OF inv cn connecting(3)])
qed

lemma lost_on_tick:
  assumes inv: "server_inv E w" and run: "on_tick E w = Inr w'"
  shows "lost w w' \<subseteq> causes E w Timer"
proof (rule on_tick_relates [where R = "\<lambda>u v. lost u v \<subseteq> causes E w Timer", OF _ _ _ _ _ inv run])
  show "lost u v' \<subseteq> causes E w Timer" if "lost u v \<subseteq> causes E w Timer" "lost v v' \<subseteq> causes E w Timer" for u v v'
    by (rule lost_trans [OF that])
  show "lost v (closeConnection cn v) \<subseteq> causes E w Timer" for cn v by (simp add: lost_same)
  show "lost v v' \<subseteq> causes E w Timer" if "removeClient E c v = Inr v'" "w_now w - c_lastPacketTime (w_client w c) > 300" for c v v'
    using lost_remove [OF that(1)] that(2) by auto
  show "lost v v' \<subseteq> causes E w Timer" if "tick_client E cur c (tk, v) = Inr (tk', v')" for cur c tk v tk' v'
  proof -
    have "places v' = places v"
      using that by (auto simp: tick_client_def Let_def bindS_Inr_iff dest!: places_makeOrphan split: if_splits option.splits)
    then show ?thesis by (simp add: lost_same)
  qed
qed (simp add: lost_same)

lemma lost_on_close:
  assumes "on_close E cn stat w = Inr w'"
  shows "lost w w' \<subseteq> causes E w (Closed cn stat)"
proof (cases "stat = 1000 \<or> stat = 1001")
  case True
  then have "\<exists>b. removeConnection E cn w = Inr (b, w')" using assms by (auto simp: on_close_def bindS_Inr_iff)
  then show ?thesis
    using True by (auto simp: removeConnection_def findClientByConnection_def bindS_Inr_iff lost_same
        dest!: lost_remove split: option.splits)
next
  case False
  then have "\<exists>b. makeOrphanConnection E cn w = Inr (b, w')" using assms by (auto simp: on_close_def bindS_Inr_iff)
  then show ?thesis
    by (auto simp: makeOrphanConnection_def bindS_Inr_iff lost_same dest!: places_makeOrphan split: option.splits)
qed

lemma lost_on_error: "on_error E cn w = Inr w' \<Longrightarrow> lost w w' = {}"
  by (auto simp: on_error_def makeOrphanConnection_def bindS_Inr_iff lost_same dest!: places_makeOrphan
      split: option.splits)

theorem lost_handle:
  assumes inv: "server_inv E w" and "admissible w ev" and run: "handle E ev w = Inr w'"
  shows "lost w w' \<subseteq> causes E w ev"
proof (cases ev)
  case (Opened cn)
  show ?thesis unfolding Opened by (rule lost_on_open [OF inv]) (use assms(2) run Opened in simp_all)
next
  case (Message cn msg)
  show ?thesis unfolding Message by (rule lost_on_message [OF inv]) (use run Message in simp)
next
  case (Closed cn stat)
  show ?thesis unfolding Closed by (rule lost_on_close) (use run Closed in simp)
next
  case (Failed cn)
  then show ?thesis using run lost_on_error [of E cn w w'] by simp
next
  case Timer
  show ?thesis unfolding Timer by (rule lost_on_tick [OF inv]) (use run Timer in simp)
qed (use run in \<open>auto simp: lost_def places_def\<close>)

text \<open>The causes, spelled out for a place that is lost.\<close>

lemma lost_place:
  assumes inv: "server_inv E w" and "admissible w ev" and "handle E ev w = Inr w'"
    and "r \<in> set (c_rooms (w_client w d))" and "r \<notin> set (c_rooms (w_client w' d))"
  shows "case ev of
      Opened cn \<Rightarrow> let ip = getRealClientIp E cn in c_connection (w_client w d) = None
        \<and> c_lastClientIP (w_client w d) = ip \<and> connections_at w ip < 5 \<and> clients_at w ip = 5
    | Message cn msg \<Rightarrow> \<exists>c. w_connectionToClient w cn = Some c \<and> (c = d \<or> privileged w r c)
    | Closed cn stat \<Rightarrow> (stat = 1000 \<or> stat = 1001) \<and> w_connectionToClient w cn = Some d
    | Timer \<Rightarrow> w_now w - c_lastPacketTime (w_client w d) > 300
    | _ \<Rightarrow> False"
proof -
  have "(d, r) \<in> lost w w'" using assms(4,5) by (simp add: lost_def places_def)
  then have cause: "(d, r) \<in> causes E w ev" using lost_handle [OF assms(1-3)] by blast
  have "clients_at w ip = 5" if "d \<in> evicted E cn w" "ip = getRealClientIp E cn" for ip cn
    using that invD(2) [OF inv]
    by (auto simp: evicted_def limits_ok_def maxClientsFromIp_def split: if_splits intro: antisym)
  then show ?thesis
    using cause by (auto simp: reach_def Let_def dest: evicted_orphan split: event.splits option.splits if_splits)
qed

end
