(* ===== verification/Logging.thy ===== *)
theory Logging
  imports Texts
begin

text \<open>
  \<open>logger.hpp\<close> and the helpers of \<open>algo.cpp\<close>: log lines with their dates. The calendar
  (\<open>localtime\<close>) and the names of the locale (\<open>other\<close>) are parameters.
\<close>

subsection \<open>Dates\<close>

text \<open>\<open>struct tm\<close>, as far as the numeric conversions read it.\<close>

record tm =
  tm_year :: int
  tm_mon :: int
  tm_mday :: int
  tm_hour :: int
  tm_min :: int
  tm_sec :: int

definition two_digits :: "int \<Rightarrow> string" where
  "two_digits i = (let s = show_int i in replicate (2 - length s) (CHR ''0'') @ s)"

definition conversion :: "(char \<Rightarrow> tm \<Rightarrow> string) \<Rightarrow> char \<Rightarrow> tm \<Rightarrow> string" where
  "conversion other c t =
     (if c = CHR ''Y'' then show_int (tm_year t + 1900)
      else if c = CHR ''m'' then two_digits (tm_mon t + 1)
      else if c = CHR ''d'' then two_digits (tm_mday t)
      else if c = CHR ''H'' then two_digits (tm_hour t)
      else if c = CHR ''M'' then two_digits (tm_min t)
      else if c = CHR ''S'' then two_digits (tm_sec t)
      else if c = CHR ''%'' then ''%''
      else other c t)"

fun expand :: "(char \<Rightarrow> tm \<Rightarrow> string) \<Rightarrow> string \<Rightarrow> tm \<Rightarrow> string" where
  "expand other [] t = []"
| "expand other [c] t = [c]"
| "expand other (c # d # cs) t =
     (if c = CHR ''%'' then conversion other d t @ expand other cs t else c # expand other (d # cs) t)"

text \<open>
  \<open>strftime\<close> into an array of \<open>maxsize\<close> characters: the text and its terminating zero have to
  fit, or what the array holds is indeterminate (\<open>None\<close>).
\<close>

definition strftime :: "(char \<Rightarrow> tm \<Rightarrow> string) \<Rightarrow> nat \<Rightarrow> string \<Rightarrow> tm \<Rightarrow> string option" where
  "strftime other maxsize format t =
     (let s = expand other (takeWhile (\<lambda>c. c \<noteq> CHR 0x00) format) t
      in if length s < maxsize then Some s else None)"

definition date :: "(char \<Rightarrow> tm \<Rightarrow> string) \<Rightarrow> (int \<Rightarrow> tm option) \<Rightarrow> string \<Rightarrow> int \<Rightarrow> string option" where
  "date other localtime format rawtime =
     (case localtime rawtime of
        None \<Rightarrow> None
      | Some timeinfo \<Rightarrow> strftime other (length format * 2) format timeinfo)"

definition startsWith :: "string \<Rightarrow> string \<Rightarrow> bool" where
  "startsWith str needle = (take (length needle) str = needle)"

lemma startsWith_prefix: "startsWith str needle \<longleftrightarrow> (\<exists>rest. str = needle @ rest)"
  by (auto simp: startsWith_def intro: exI [of _ "drop (length needle) str"] dest: sym) (metis append_take_drop_id)

subsection \<open>The logger\<close>

text \<open>What was written to the standard streams; the arguments come as the texts \<open><<\<close> prints.\<close>

record console =
  con_out :: string
  con_err :: string

fun doLog :: "string list \<Rightarrow> string \<Rightarrow> string" where
  "doLog [] s = s"
| "doLog [arg] s = s @ arg @ newline"
| "doLog (arg # a # args) s = doLog (a # args) (s @ arg)"

definition log_format :: string where
  "log_format = ''[%Y-%m-%d %H:%M:%S] ''"

type_synonym clock = "(char \<Rightarrow> tm \<Rightarrow> string) \<times> (int \<Rightarrow> tm option)"

definition logErr :: "clock \<Rightarrow> int \<Rightarrow> string list \<Rightarrow> console \<Rightarrow> console option" where
  "logErr clk now args con = (case date (fst clk) (snd clk) log_format now of
       None \<Rightarrow> None | Some d \<Rightarrow> Some (con\<lparr>con_err := doLog args (con_err con @ d)\<rparr>))"

definition log_out :: "clock \<Rightarrow> int \<Rightarrow> string list \<Rightarrow> console \<Rightarrow> console option" where
  "log_out clk now args con = (case date (fst clk) (snd clk) log_format now of
       None \<Rightarrow> None | Some d \<Rightarrow> Some (con\<lparr>con_out := doLog args (con_out con @ d)\<rparr>))"

definition log_error :: "clock \<Rightarrow> int \<Rightarrow> string list \<Rightarrow> console \<Rightarrow> console option" where
  "log_error clk now args = logErr clk now (''[ERROR] '' # args)"

definition log_warn :: "clock \<Rightarrow> int \<Rightarrow> string list \<Rightarrow> console \<Rightarrow> console option" where
  "log_warn clk now args = log_out clk now (''[WARNING] '' # args)"

definition log_info :: "clock \<Rightarrow> int \<Rightarrow> string list \<Rightarrow> console \<Rightarrow> console option" where
  "log_info clk now args = log_out clk now (''[INFO] '' # args)"

definition log_debug :: "clock \<Rightarrow> int \<Rightarrow> string list \<Rightarrow> console \<Rightarrow> console option" where
  "log_debug clk now args = log_out clk now (''[DEBUG] '' # args)"

subsection \<open>The dates of the log fit\<close>

text \<open>A broken-down time as \<open>localtime\<close> makes it: every field in its range, years of 32 bits.\<close>

definition calendar :: "tm \<Rightarrow> bool" where
  "calendar t \<longleftrightarrow> - (2 ^ 31) \<le> tm_year t \<and> tm_year t < 2 ^ 31 \<and> 0 \<le> tm_mon t \<and> tm_mon t \<le> 11
     \<and> 1 \<le> tm_mday t \<and> tm_mday t \<le> 31 \<and> 0 \<le> tm_hour t \<and> tm_hour t \<le> 23
     \<and> 0 \<le> tm_min t \<and> tm_min t \<le> 59 \<and> 0 \<le> tm_sec t \<and> tm_sec t \<le> 60"

definition stamp :: "tm \<Rightarrow> string" where
  "stamp t = ''['' @ show_int (tm_year t + 1900) @ ''-'' @ two_digits (tm_mon t + 1) @ ''-'' @ two_digits (tm_mday t)
     @ '' '' @ two_digits (tm_hour t) @ '':'' @ two_digits (tm_min t) @ '':'' @ two_digits (tm_sec t) @ ''] ''"

lemma length_show_nat: "n < 10 ^ Suc k \<Longrightarrow> length (show_nat n) \<le> Suc k"
proof (induction k arbitrary: n)
  case (Suc k)
  then have "n < 10 ^ Suc k * 10" by simp
  then have "n div 10 < 10 ^ Suc k" by (simp add: less_mult_imp_div_less)
  then have "length (show_nat (n div 10)) \<le> Suc k" by (rule Suc.IH)
  then show ?case by (subst show_nat.simps) simp
qed (simp add: show_nat.simps)

lemma two_digits_length: "0 \<le> i \<Longrightarrow> i < 100 \<Longrightarrow> length (two_digits i) = 2"
  using length_show_nat [of "nat i" 1] by (simp add: two_digits_def show_int_def Let_def nat_less_iff)

lemma year_length:
  assumes "- (2 ^ 31) \<le> y" and "y < 2 ^ 31"
  shows "length (show_int (y + 1900)) \<le> 11"
proof -
  have "nat (y + 1900) < 10 ^ Suc 9" "nat (- (y + 1900)) < 10 ^ Suc 9" using assms by auto
  from this [THEN length_show_nat] show ?thesis by (simp add: show_int_def)
qed

lemma stamp_length: "calendar t \<Longrightarrow> length (stamp t) \<le> 29"
  using year_length [of "tm_year t"] by (simp add: stamp_def calendar_def two_digits_length)

lemma stamp_length_four: "calendar t \<Longrightarrow> 1000 \<le> tm_year t + 1900 \<Longrightarrow> tm_year t + 1900 < 10000 \<Longrightarrow> length (stamp t) \<le> 22"
  using length_show_nat [of "nat (tm_year t + 1900)" 3]
  by (simp add: stamp_def calendar_def two_digits_length show_int_def)

lemma log_date:
  assumes "localtime now = Some t" and "calendar t"
  shows "date other localtime log_format now = Some (stamp t)"
proof -
  have "expand other log_format t = stamp t"
    by (simp add: log_format_def stamp_def conversion_def)
  moreover have cut: "takeWhile (\<lambda>c. c \<noteq> CHR 0x00) log_format = log_format" "length log_format = 20"
    by (simp_all add: log_format_def)
  ultimately show ?thesis
    using stamp_length [OF assms(2)] unfolding date_def strftime_def cut by (simp add: assms(1))
qed

lemma doLog_concat: "args \<noteq> [] \<Longrightarrow> doLog args s = s @ concat args @ newline"
  by (induction args s rule: doLog.induct) auto

lemma log_lines:
  assumes "snd clk now = Some t" and "calendar t"
  shows "log_info clk now args con = Some (con\<lparr>con_out := con_out con @ stamp t @ ''[INFO] '' @ concat args @ newline\<rparr>)"
    and "log_warn clk now args con = Some (con\<lparr>con_out := con_out con @ stamp t @ ''[WARNING] '' @ concat args @ newline\<rparr>)"
    and "log_debug clk now args con = Some (con\<lparr>con_out := con_out con @ stamp t @ ''[DEBUG] '' @ concat args @ newline\<rparr>)"
    and "log_error clk now args con = Some (con\<lparr>con_err := con_err con @ stamp t @ ''[ERROR] '' @ concat args @ newline\<rparr>)"
  using log_date [of "snd clk" now t "fst clk", OF assms]
  by (simp_all add: log_info_def log_warn_def log_debug_def log_error_def log_out_def logErr_def doLog_concat)

text \<open>
  The array is twice as long as the format, which other formats overrun: a four-digit year
  and its terminating zero do not fit into the four characters for \<open>%Y\<close>.
\<close>

lemma year_does_not_fit:
  assumes "localtime now = Some t" and "1000 \<le> tm_year t + 1900"
  shows "date other localtime ''%Y'' now = None"
proof -
  have long: "length (show_nat n) \<ge> 4" if "1000 \<le> n" for n
  proof -
    have "length (show_nat (n div 10 div 10 div 10)) \<ge> 1" by (simp add: Suc_le_eq)
    moreover have "\<not> n < 10" "\<not> n div 10 < 10" "\<not> n div 10 div 10 < 10" using that by auto
    ultimately show ?thesis
      by (simp add: show_nat.simps [of n] show_nat.simps [of "n div 10"] show_nat.simps [of "n div 10 div 10"])
  qed
  have "length (show_int (tm_year t + 1900)) \<ge> 4" using long [of "nat (tm_year t + 1900)"] assms(2) by (simp add: show_int_def)
  then show ?thesis by (simp add: date_def assms(1) strftime_def conversion_def Let_def)
qed

end
