(* ===== verification/Chat.thy ===== *)
theory Chat
  imports Sessions PacketFacts
begin

text \<open>
  What the chat promises, without connections, members and packets: rooms by name, each with its
  owner, its moderators, its bans and the clients in it, and the rules for who may change what.
  Every change has an actor, a client with the account and the address it has, or the house,
  which may only drop clients.
\<close>

record chat_room =
  cr_owner :: u32
  cr_moderators :: "u32 set"
  cr_nicks :: "string set"
  cr_ips :: "string set"
  cr_uids :: "u32 set"
  cr_members :: "client_ptr \<rightharpoonup> u32 \<times> string"

type_synonym chat = "string \<rightharpoonup> chat_room"

datatype actor = Visitor client_ptr u32 string | House "client_ptr set"

subsection \<open>Rights\<close>

definition administrator :: "u32 \<Rightarrow> bool" where
  "administrator u \<longleftrightarrow> u = 1 \<or> u = 2"

definition owns :: "u32 \<Rightarrow> chat_room \<Rightarrow> bool" where
  "owns u rm \<longleftrightarrow> administrator u \<or> u \<noteq> 0 \<and> u = cr_owner rm"

definition moderates :: "u32 \<Rightarrow> chat_room \<Rightarrow> bool" where
  "moderates u rm \<longleftrightarrow> owns u rm \<or> u \<noteq> 0 \<and> u \<in> cr_moderators rm"

definition admits :: "chat_room \<Rightarrow> u32 \<Rightarrow> string \<Rightarrow> bool" where
  "admits rm u ip \<longleftrightarrow> moderates u rm \<or> ip \<notin> cr_ips rm \<and> u \<notin> cr_uids rm"

text \<open>A moderator bans and lifts bans; an administrator is not bound to the number of bans.\<close>

inductive regulation :: "u32 \<Rightarrow> chat_room \<Rightarrow> chat_room \<Rightarrow> bool" for u rm where
  ban_nick: "administrator u \<or> card (cr_nicks rm) \<le> 100 \<Longrightarrow> n \<noteq> [] \<Longrightarrow> length n \<le> 24 \<Longrightarrow>
    regulation u rm (rm\<lparr>cr_nicks := insert n (cr_nicks rm)\<rparr>)"
| ban_ip: "administrator u \<or> card (cr_ips rm) \<le> 100 \<Longrightarrow> regulation u rm (rm\<lparr>cr_ips := insert ip (cr_ips rm)\<rparr>)"
| ban_uid: "administrator u \<or> card (cr_uids rm) \<le> 100 \<Longrightarrow> regulation u rm (rm\<lparr>cr_uids := insert v (cr_uids rm)\<rparr>)"
| unban_nick: "regulation u rm (rm\<lparr>cr_nicks := cr_nicks rm - {n}\<rparr>)"
| unban_ip: "regulation u rm (rm\<lparr>cr_ips := cr_ips rm - {ip}\<rparr>)"
| unban_uid: "regulation u rm (rm\<lparr>cr_uids := cr_uids rm - {v}\<rparr>)"

text \<open>An owner appoints moderators with an account, and dismisses them.\<close>

inductive appointment :: "u32 \<Rightarrow> chat_room \<Rightarrow> chat_room \<Rightarrow> bool" for u rm where
  appoint: "administrator u \<or> card (cr_moderators rm) \<le> 10 \<Longrightarrow> v \<noteq> 0 \<Longrightarrow>
    appointment u rm (rm\<lparr>cr_moderators := insert v (cr_moderators rm)\<rparr>)"
| dismiss: "appointment u rm (rm\<lparr>cr_moderators := cr_moderators rm - {v}\<rparr>)"

lemma same_members: "regulation u rm rm' \<Longrightarrow> cr_members rm' = cr_members rm"
    "appointment u rm rm' \<Longrightarrow> cr_members rm' = cr_members rm"
  by (auto elim: regulation.cases appointment.cases)

subsection \<open>The machine of the chat\<close>

definition founded :: "u32 \<Rightarrow> chat_room" where
  "founded u = \<lparr>cr_owner = u, cr_moderators = {}, cr_nicks = {}, cr_ips = {}, cr_uids = {}, cr_members = Map.empty\<rparr>"

definition place :: "client_ptr \<Rightarrow> (u32 \<times> string) option \<Rightarrow> chat_room \<Rightarrow> chat_room" where
  "place c x rm = rm\<lparr>cr_members := (cr_members rm)(c := x)\<rparr>"

lemma place_sel [simp]:
  "cr_owner (place c x rm) = cr_owner rm" "cr_moderators (place c x rm) = cr_moderators rm"
  "cr_nicks (place c x rm) = cr_nicks rm" "cr_ips (place c x rm) = cr_ips rm"
  "cr_uids (place c x rm) = cr_uids rm" "cr_members (place c x rm) = (cr_members rm)(c := x)"
  by (simp_all add: place_def)

definition drop_client :: "client_ptr \<Rightarrow> chat \<Rightarrow> chat" where
  "drop_client c s = (\<lambda>nm. map_option (place c None) (s nm))"

inductive chat_step :: "actor \<Rightarrow> chat \<Rightarrow> chat \<Rightarrow> bool" where
  create: "s nm = None \<Longrightarrow> valid_room_name nm \<Longrightarrow> u \<noteq> 0 \<Longrightarrow> chat_step (Visitor c u ip) s (s(nm \<mapsto> founded u))"
| destroy: "s nm = Some rm \<Longrightarrow> owns u rm \<Longrightarrow> chat_step (Visitor c u ip) s (s(nm := None))"
| enter: "s nm = Some rm \<Longrightarrow> cr_members rm c = None \<Longrightarrow> admits rm u ip \<Longrightarrow> i \<noteq> 0 \<Longrightarrow>
    i \<notin> fst ` ran (cr_members rm) \<Longrightarrow> chat_step (Visitor c u ip) s (s(nm \<mapsto> place c (Some (i, [])) rm))"
| leave: "s nm = Some rm \<Longrightarrow> c \<in> dom (cr_members rm) \<Longrightarrow> chat_step (Visitor c u ip) s (s(nm \<mapsto> place c None rm))"
| name: "s nm = Some rm \<Longrightarrow> cr_members rm c = Some (i, old) \<Longrightarrow> n = [] \<or> n \<notin> snd ` ran (cr_members rm) \<Longrightarrow>
    n \<notin> cr_nicks rm \<or> moderates u rm \<Longrightarrow> chat_step (Visitor c u ip) s (s(nm \<mapsto> place c (Some (i, n)) rm))"
| kick: "s nm = Some rm \<Longrightarrow> c \<in> dom (cr_members rm) \<Longrightarrow> moderates u rm \<Longrightarrow> d \<in> dom (cr_members rm) \<Longrightarrow>
    chat_step (Visitor c u ip) s (s(nm \<mapsto> place d None rm))"
| regulate: "s nm = Some rm \<Longrightarrow> c \<in> dom (cr_members rm) \<Longrightarrow> moderates u rm \<Longrightarrow> regulation u rm rm' \<Longrightarrow>
    chat_step (Visitor c u ip) s (s(nm \<mapsto> rm'))"
| staff: "s nm = Some rm \<Longrightarrow> c \<in> dom (cr_members rm) \<Longrightarrow> owns u rm \<Longrightarrow> appointment u rm rm' \<Longrightarrow>
    chat_step (Visitor c u ip) s (s(nm \<mapsto> rm'))"
| quit: "chat_step (Visitor c u ip) s (drop_client c s)"
| dismiss: "c \<in> X \<Longrightarrow> chat_step (House X) s (drop_client c s)"

inductive_cases chat_stepE: "chat_step a s t"
inductive_cases house_stepE: "chat_step (House X) s t"

subsection \<open>Its invariant\<close>

text \<open>The members of a room are finitely many, with different ids other than 0, and with different nicks.\<close>

definition company :: "(client_ptr \<rightharpoonup> u32 \<times> string) \<Rightarrow> bool" where
  "company ms \<longleftrightarrow> finite (dom ms) \<and> (\<forall>c i n. ms c = Some (i, n) \<longrightarrow> i \<noteq> 0)
     \<and> (\<forall>c d i n k. ms c = Some (i, n) \<longrightarrow> ms d = Some (i, k) \<longrightarrow> c = d)
     \<and> (\<forall>c d i j n. ms c = Some (i, n) \<longrightarrow> ms d = Some (j, n) \<longrightarrow> n \<noteq> [] \<longrightarrow> c = d)"

lemma company_empty [simp]: "company Map.empty"
  by (simp add: company_def)

lemma company_less: "company ms \<Longrightarrow> company (ms(c := None))"
  unfolding company_def by (auto split: if_splits)

lemma company_id: "i \<notin> fst ` ran ms \<longleftrightarrow> (\<forall>d n. ms d \<noteq> Some (i, n))"
  by (force simp: ran_def)

lemma company_nick: "n \<notin> snd ` ran ms \<longleftrightarrow> (\<forall>d i. ms d \<noteq> Some (i, n))"
  by (force simp: ran_def)

lemma company_enter:
  assumes "company ms" and "ms c = None" and "i \<noteq> 0" and "i \<notin> fst ` ran ms"
  shows "company (ms(c \<mapsto> (i, [])))"
  using assms unfolding company_def company_id by (auto split: if_splits)

lemma company_name:
  assumes "company ms" and "ms c = Some (i, old)" and "n = [] \<or> n \<notin> snd ` ran ms"
  shows "company (ms(c \<mapsto> (i, n)))"
proof -
  have "finite (dom ms)" and "\<And>c i n. ms c = Some (i, n) \<Longrightarrow> i \<noteq> 0"
    and ids: "\<And>c d i n k. ms c = Some (i, n) \<Longrightarrow> ms d = Some (i, k) \<Longrightarrow> c = d"
    and "\<And>c d i j n. ms c = Some (i, n) \<Longrightarrow> ms d = Some (j, n) \<Longrightarrow> n \<noteq> [] \<Longrightarrow> c = d"
    using assms(1) unfolding company_def by blast+
  with assms(2,3) show ?thesis unfolding company_def company_nick by (auto split: if_splits)
qed

definition sound_chat :: "chat \<Rightarrow> bool" where
  "sound_chat s \<longleftrightarrow> (\<forall>rm \<in> ran s. company (cr_members rm))"

lemma sound_chatD: "sound_chat s \<Longrightarrow> s nm = Some rm \<Longrightarrow> company (cr_members rm)"
  by (auto simp: sound_chat_def ran_def)

lemma sound_chat_upd: "sound_chat s \<Longrightarrow> company (cr_members rm) \<Longrightarrow> sound_chat (s(nm \<mapsto> rm))"
  by (auto simp: sound_chat_def ran_def)

lemma sound_chat_drop: "sound_chat s \<Longrightarrow> sound_chat (drop_client c s)"
  by (auto simp: sound_chat_def ran_def drop_client_def company_less)

lemma sound_chat_step: "chat_step a s t \<Longrightarrow> sound_chat s \<Longrightarrow> sound_chat t"
proof (induction rule: chat_step.induct)
  case (destroy s nm rm u c ip)
  then show ?case by (auto simp: sound_chat_def ran_def)
next
  case (enter s nm rm c u ip i)
  then have "company ((cr_members rm)(c \<mapsto> (i, [])))" by (intro company_enter sound_chatD)
  with enter show ?case by (intro sound_chat_upd) (simp_all only: place_sel)
qed (auto simp: founded_def same_members intro!: sound_chat_upd sound_chat_drop company_less company_name
    dest: sound_chatD)

text \<open>A chat begins with rooms that nobody is in.\<close>

definition vacant :: "chat \<Rightarrow> bool" where
  "vacant s \<longleftrightarrow> (\<forall>rm \<in> ran s. cr_members rm = Map.empty)"

interpretation chatter: transition_system "\<lambda>s t. \<exists>a. chat_step a s t" vacant sound_chat
proof unfold_locales
  show "sound_chat s" if "vacant s" for s using that by (simp add: vacant_def sound_chat_def)
  show "sound_chat t" if "sound_chat s" "\<exists>a. chat_step a s t" for s t using that by (blast intro: sound_chat_step)
qed

subsection \<open>Who changes a room\<close>

text \<open>
  What an actor without rights in a room leaves alone, in any number of steps: the owner, the
  moderators and the bans of the room, and the other clients in it.
\<close>

definition undisturbed :: "client_ptr set \<Rightarrow> chat_room \<Rightarrow> chat_room \<Rightarrow> bool" where
  "undisturbed X rm rm' \<longleftrightarrow> cr_owner rm' = cr_owner rm \<and> cr_moderators rm' = cr_moderators rm
     \<and> cr_nicks rm' = cr_nicks rm \<and> cr_ips rm' = cr_ips rm \<and> cr_uids rm' = cr_uids rm
     \<and> (\<forall>d. d \<notin> X \<longrightarrow> cr_members rm' d = cr_members rm d)"

primrec harmless :: "actor \<Rightarrow> chat_room \<Rightarrow> bool" where
  "harmless (Visitor c u ip) rm = (\<not> moderates u rm)"
| "harmless (House X) rm = True"

primrec reaches :: "actor \<Rightarrow> client_ptr set" where
  "reaches (Visitor c u ip) = {c}"
| "reaches (House X) = X"

lemma undisturbed_step:
  assumes "chat_step a s t" and "s nm = Some rm" and "harmless a rm"
  shows "\<exists>rm'. t nm = Some rm' \<and> undisturbed (reaches a) rm rm'"
  using assms by (cases rule: chat_step.cases) (auto simp: undisturbed_def drop_client_def moderates_def)

lemma undisturbed_run:
  assumes "(chat_step a)\<^sup>*\<^sup>* s t" and "s nm = Some rm" and "harmless a rm"
  shows "\<exists>rm'. t nm = Some rm' \<and> undisturbed (reaches a) rm rm'"
  using assms
proof (induction rule: rtranclp_induct)
  case base
  then show ?case by (auto simp: undisturbed_def)
next
  case (step t u)
  then obtain rm1 where rm1: "t nm = Some rm1" "undisturbed (reaches a) rm rm1" by blast
  then have "harmless a rm1"
    using step.prems by (cases a) (auto simp: undisturbed_def moderates_def owns_def)
  from undisturbed_step [OF step.hyps(2) rm1(1) this] rm1(2) show ?case by (auto simp: undisturbed_def)
qed

end
