(* ===== verification/ChatRooms.thy ===== *)
theory ChatRooms
  imports Chat RoomInvariants ConnectionFacts
begin

text \<open>
  What a server shows of the chat: \<open>chat_of\<close> forgets everything but the registered rooms, their
  rules and their members. The changes of one room, and leaving, kicks and removed clients as
  steps of the machine of the chat.
\<close>

subsection \<open>The chat of a server\<close>

definition chat_room_of :: "'x world \<Rightarrow> room_ptr \<Rightarrow> chat_room" where
  "chat_room_of w r =
     \<lparr>cr_owner = r_ownerId (w_room w r), cr_moderators = set (r_moderators (w_room w r)),
      cr_nicks = set (r_bannedNicks (w_room w r)), cr_ips = set (r_bannedIps (w_room w r)),
      cr_uids = set (r_bannedUids (w_room w r)),
      cr_members = (\<lambda>c. map_option (\<lambda>m. (m_id (w_member w m), m_nick (w_member w m))) (findMemberByClient w r c))\<rparr>"

definition chat_of :: "'x world \<Rightarrow> chat" where
  "chat_of w = (\<lambda>nm. map_option (chat_room_of w) (server_getRoomByName w nm))"

lemma chat_of_cong:
  assumes "w_rooms w' = w_rooms w" and "\<And>q. q \<in> set (w_rooms w) \<Longrightarrow> r_name (w_room w' q) = r_name (w_room w q)"
    and "\<And>q. q \<in> set (w_rooms w) \<Longrightarrow> chat_room_of w' q = chat_room_of w q"
  shows "chat_of w' = chat_of w"
proof
  fix nm
  have "server_getRoomByName w' nm = server_getRoomByName w nm"
    unfolding server_getRoomByName_def assms(1) by (rule find_cong) (simp_all add: assms(2))
  then show "chat_of w' nm = chat_of w nm"
    using assms(3) by (cases "server_getRoomByName w nm") (auto simp: chat_of_def dest: server_getRoomByName_Some)
qed

lemma chat_of_heap:
  "w_rooms w' = w_rooms w \<Longrightarrow> w_room w' = w_room w \<Longrightarrow> w_member w' = w_member w \<Longrightarrow> chat_of w' = chat_of w"
  by (rule chat_of_cong) (simp_all add: chat_room_of_def findMemberByClient_def)

lemma chat_of_room:
  "names_ok w \<Longrightarrow> r \<in> set (w_rooms w) \<Longrightarrow> chat_of w (r_name (w_room w r)) = Some (chat_room_of w r)"
  by (simp add: chat_of_def server_getRoomByName_iff)

text \<open>A change of one room.\<close>

lemma chat_of_change:
  assumes "names_ok w" and "r \<in> set (w_rooms w)" and "w_rooms w' = w_rooms w"
    and "\<And>q. r_name (w_room w' q) = r_name (w_room w q)"
    and "\<And>q. q \<in> set (w_rooms w) \<Longrightarrow> q \<noteq> r \<Longrightarrow> chat_room_of w' q = chat_room_of w q"
  shows "chat_of w' = (chat_of w)(r_name (w_room w r) \<mapsto> chat_room_of w' r)"
proof
  fix nm
  have look: "server_getRoomByName w' nm = server_getRoomByName w nm"
    by (simp add: server_getRoomByName_def assms(3,4))
  show "chat_of w' nm = ((chat_of w)(r_name (w_room w r) \<mapsto> chat_room_of w' r)) nm"
  proof (cases "nm = r_name (w_room w r)")
    case True
    then show ?thesis using server_getRoomByName_iff [OF assms(1,2)] look by (simp add: chat_of_def)
  next
    case False
    then show ?thesis
      using look assms(5) by (cases "server_getRoomByName w nm") (auto simp: chat_of_def dest: server_getRoomByName_Some)
  qed
qed

subsection \<open>The rules of the rooms\<close>

definition charters :: "'x world \<Rightarrow> room_ptr \<Rightarrow> string \<times> u32 \<times> string list \<times> string list \<times> u32 list \<times> u32 list" where
  "charters w r = room_lists (w_room w r)"

interpretation charter: quiet_keeper E UNIV "\<lambda>w. charters w = C" for E C
  by unfold_locales (auto simp: charters_def [abs_def] fun_eq_iff quiet_step_def)

lemma charters_eqD:
  assumes "charters w' = charters w"
  shows "r_ownerId (w_room w' r) = r_ownerId (w_room w r)" and "r_moderators (w_room w' r) = r_moderators (w_room w r)"
    and "r_bannedNicks (w_room w' r) = r_bannedNicks (w_room w r)" and "r_bannedIps (w_room w' r) = r_bannedIps (w_room w r)"
    and "r_bannedUids (w_room w' r) = r_bannedUids (w_room w r)"
  using fun_cong [OF assms, of r] by (simp_all add: charters_def room_lists_def)

lemma chat_room_view:
  assumes "view w' = view w" and "charters w' = charters w"
  shows "chat_room_of w' r = chat_room_of w r"
  by (simp add: chat_room_of_def charters_eqD [OF assms(2)] findMemberByClient_cong [OF assms(1)] view_eqD [OF assms(1)])

lemma chat_of_view:
  assumes "view w' = view w" and "charters w' = charters w"
  shows "chat_of w' = chat_of w"
  by (rule chat_of_cong) (simp_all add: view_eqD [OF assms(1)] chat_room_view [OF assms])

lemma charters_heap: "w_room w' = w_room w \<Longrightarrow> charters w' = charters w"
  by (simp add: charters_def [abs_def])

text \<open>The rooms of a consistent server are in order.\<close>

lemma sound_chat_of:
  assumes ok: "chat_ok w"
  shows "sound_chat (chat_of w)"
proof -
  have "company (cr_members (chat_room_of w r))" for r
  proof -
    have mem: "\<exists>m \<in> set (r_members (w_room w r)). m_client (w_member w m) = c \<and> m_id (w_member w m) = i \<and> m_nick (w_member w m) = n"
      if "cr_members (chat_room_of w r) c = Some (i, n)" for c i n
      using that by (auto simp: chat_room_of_def dest: findMemberByClient_Some)
    have "finite (dom (cr_members (chat_room_of w r)))"
    proof (rule finite_subset)
      show "dom (cr_members (chat_room_of w r)) \<subseteq> (\<lambda>m. m_client (w_member w m)) ` set (r_members (w_room w r))"
        using mem by fastforce
    qed simp
    moreover have "i \<noteq> 0" if "cr_members (chat_room_of w r) c = Some (i, n)" for c i n
      using mem [OF that] chat_okD(2) [OF ok] by (auto simp: ids_ok_def)
    moreover have "c = d" if "cr_members (chat_room_of w r) c = Some (i, n)" "cr_members (chat_room_of w r) d = Some (i, k)" for c d i n k
      using mem [OF that(1)] mem [OF that(2)] chat_okD(2) [OF ok] by (auto simp: ids_ok_def dest: inj_onD)
    moreover have "c = d" if "cr_members (chat_room_of w r) c = Some (i, n)" "cr_members (chat_room_of w r) d = Some (j, n)" "n \<noteq> []"
      for c d i j n
      using mem [OF that(1)] mem [OF that(2)] that(3) nicks_okD [OF chat_okD(3) [OF ok]] by metis
    ultimately show ?thesis unfolding company_def by blast
  qed
  then show ?thesis by (auto simp: sound_chat_def ran_def chat_of_def)
qed

text \<open>The rights of a client in a room.\<close>

lemma moderates_privileged:
  "privileged w r c \<longleftrightarrow> moderates (c_uid (w_client w c)) (chat_room_of w r)"
  by (auto simp: privileged_def moderates_def owns_def administrator_def chat_room_of_def Let_def)

lemma owns_member:
  "member_isOwner w m \<longleftrightarrow> owns (c_uid (w_client w (m_client (w_member w m)))) (chat_room_of w (m_room (w_member w m)))"
  by (auto simp: member_isOwner_def owns_def administrator_def chat_room_of_def client_isAdmin_def Let_def)

lemma administrator_client: "client_isAdmin cl \<longleftrightarrow> administrator (c_uid cl)"
  by (simp add: client_isAdmin_def administrator_def)

subsection \<open>Leaving and entering a room\<close>

text \<open>One member less, and one member more, as the rooms see it.\<close>

lemma findMemberByClient_absent:
  assumes "members_ok w" and "r \<notin> set (c_rooms (w_client w c))"
  shows "findMemberByClient w r c = None"
  using members_okD(4) [OF assms(1), of _ r] findMemberByClient_Some [of w r c] assms(2)
  by (cases "findMemberByClient w r c") auto

lemma find_without:
  assumes "inj_on f (set xs)" and "m \<in> set xs"
  shows "find (\<lambda>k. f k = d) (filter (\<lambda>k. k \<noteq> m) xs) = (if d = f m then None else find (\<lambda>k. f k = d) xs)"
proof (cases "d = f m")
  case True
  then show ?thesis using assms by (auto simp: find_None_iff dest: inj_onD)
next
  case False
  then have "find (\<lambda>k. f k = d) (filter (\<lambda>k. k \<noteq> m) xs) = find (\<lambda>k. f k = d) xs"
    by (induction xs) auto
  with False show ?thesis by simp
qed

lemma chat_room_erase:
  assumes one: "inj_on (\<lambda>k. m_client (w_member w k)) (set (r_members (w_room w r)))"
    and m: "findMemberByClient w r c = Some m" and v: "view w' = view (room_eraseMember r m w)"
    and ch: "charters w' = charters w"
  shows "chat_room_of w' q = (if q = r then place c None (chat_room_of w r) else chat_room_of w q)"
proof -
  note mem = findMemberByClient_Some [OF m]
  have "findMemberByClient w' r d = (if d = c then None else findMemberByClient w r d)" for d
    using find_without [OF one, of m d] mem
    by (simp add: findMemberByClient_def view_eqD [OF v] room_eraseMember_def uset_erase_def)
  moreover have "findMemberByClient w' q d = findMemberByClient w q d" if "q \<noteq> r" for d
    using that by (simp add: findMemberByClient_def view_eqD [OF v] room_eraseMember_def)
  moreover have "m_id (w_member w' k) = m_id (w_member w k)" "m_nick (w_member w' k) = m_nick (w_member w k)" for k
    by (simp_all add: view_eqD [OF v])
  ultimately show ?thesis
    by (auto simp: chat_room_of_def place_def fun_eq_iff charters_eqD [OF ch])
qed

lemma members_one: "members_ok w \<Longrightarrow> inj_on (\<lambda>k. m_client (w_member w k)) (set (r_members (w_room w r)))"
  by (simp add: members_ok_def)

lemma chat_room_unlink:
  assumes ok: "members_ok w" and m: "m \<in> set (r_members (w_room w r))" "m_client (w_member w m) = c"
    and v: "view w' = view (unlink r m c w)" and ch: "charters w' = charters w"
  shows "chat_room_of w' q = (if q = r then place c None (chat_room_of w r) else chat_room_of w q)"
proof -
  have "chat_room_of w' q = chat_room_of (room_eraseMember r m w) q"
  proof -
    have "charters (room_eraseMember r m w) = charters w" by (rule charter.keep_eraseMember) (rule refl)
    note ce = charters_eqD [OF this]
    have "findMemberByClient w' q d = findMemberByClient (room_eraseMember r m w) q d" for d
      by (simp add: findMemberByClient_def view_eqD [OF v] unlink_sel room_eraseMember_def)
    then show ?thesis
      by (simp add: chat_room_of_def charters_eqD [OF ch] ce view_eqD [OF v] unlink_sel)
  qed
  moreover have "findMemberByClient w r c = Some m" using findMemberByClient_unique [OF ok m(1)] m(2) by simp
  ultimately show ?thesis
    using chat_room_erase [OF members_one [OF ok] _ refl, of r c m q] charter.keep_eraseMember [of w "charters w" r m] by simp
qed

lemma chat_room_link:
  assumes ok: "members_ok w" and no: "findMemberByClient w r c = None"
    and v: "view w' = view (link r c i w)" and ch: "charters w' = charters w"
  shows "chat_room_of w' q = (if q = r then place c (Some (i, [])) (chat_room_of w r) else chat_room_of w q)"
proof -
  have old: "k \<noteq> w_nextMember w" if "k \<in> set (r_members (w_room w q))" for k q
    using members_okD(5) [OF ok that] by simp
  have same: "find (\<lambda>k. m_client (w_member w' k) = d) (r_members (w_room w q)) = findMemberByClient w q d" for q d
    unfolding findMemberByClient_def
    by (rule find_cong) (use old in \<open>auto simp: view_eqD [OF v] link_sel\<close>)
  have new: "findMemberByClient w' r d = (if d = c then Some (w_nextMember w) else findMemberByClient w r d)" for d
    using no same [of d r]
    by (auto simp: findMemberByClient_def [of w'] view_eqD(10) [OF v] link_sel find_append split: option.split)
      (simp_all add: view_eqD [OF v] link_sel member_new_def)
  have else_: "findMemberByClient w' q d = findMemberByClient w q d" if "q \<noteq> r" for d q
    using same [of d q] that by (simp add: findMemberByClient_def [of w'] view_eqD(10) [OF v] link_sel)
  have kept: "m_id (w_member w' k) = m_id (w_member w k)" "m_nick (w_member w' k) = m_nick (w_member w k)"
    if "findMemberByClient w q d = Some k" for k q d
    using old [of k q] findMemberByClient_Some [OF that] by (simp_all add: view_eqD [OF v] link_sel)
  have first: "m_id (w_member w' (w_nextMember w)) = i" "m_nick (w_member w' (w_nextMember w)) = []"
    by (simp_all add: view_eqD [OF v] link_sel member_new_def)
  have "map_option (\<lambda>m. (m_id (w_member w' m), m_nick (w_member w' m))) (findMemberByClient w q d)
      = map_option (\<lambda>m. (m_id (w_member w m), m_nick (w_member w m))) (findMemberByClient w q d)" for q d
    using kept [of q d] by (cases "findMemberByClient w q d") simp_all
  then show ?thesis
    by (auto simp: chat_room_of_def place_def fun_eq_iff charters_eqD [OF ch] new else_ first)
qed

text \<open>The memory of a member that is in no room changes nothing.\<close>

lemma chat_room_alloc:
  assumes ok: "members_ok w" and v: "view w' = view (alloc r c i w)" and ch: "charters w' = charters w"
  shows "chat_room_of w' q = chat_room_of w q"
proof -
  have old: "k \<noteq> w_nextMember w" if "k \<in> set (r_members (w_room w q))" for k q
    using members_okD(5) [OF ok that] by simp
  have same: "findMemberByClient w' q d = findMemberByClient w q d" for d
    unfolding findMemberByClient_def
    by (rule find_cong) (use old in \<open>auto simp: view_eqD [OF v] alloc_sel\<close>)
  have "map_option (\<lambda>m. (m_id (w_member w' m), m_nick (w_member w' m))) (findMemberByClient w q d)
      = map_option (\<lambda>m. (m_id (w_member w m), m_nick (w_member w m))) (findMemberByClient w q d)" for d
    using old [of _ q] findMemberByClient_Some [of w q d]
    by (cases "findMemberByClient w q d") (auto simp: view_eqD [OF v] alloc_sel)
  then show ?thesis by (simp add: chat_room_of_def charters_eqD [OF ch] same)
qed

subsection \<open>Sequences of steps\<close>

definition follows :: "actor \<Rightarrow> 'x world \<Rightarrow> 'x world \<Rightarrow> bool" where
  "follows a w w' \<longleftrightarrow> (chat_step a)\<^sup>*\<^sup>* (chat_of w) (chat_of w')"

lemma follows_trans: "follows a w w1 \<Longrightarrow> follows a w1 w2 \<Longrightarrow> follows a w w2"
  unfolding follows_def by (rule rtranclp_trans)

lemma follows_same: "chat_of w' = chat_of w \<Longrightarrow> follows a w w'"
  by (simp add: follows_def)

lemma follows_step: "chat_step a (chat_of w) (chat_of w') \<Longrightarrow> follows a w w'"
  unfolding follows_def by (rule r_into_rtranclp)

lemma follows_until: "follows a w w1 \<Longrightarrow> chat_of w2 = chat_of w1 \<Longrightarrow> follows a w w2"
  by (simp add: follows_def)

lemma follows_since: "follows a w1 w2 \<Longrightarrow> chat_of w1 = chat_of w \<Longrightarrow> follows a w w2"
  by (simp add: follows_def)

lemma chat_of_sent [simp]:
  "chat_of (client_sendPacket E c p w) = chat_of w" "chat_of (member_sendPacket E m p w) = chat_of w"
  "chat_of (reply E m t w) = chat_of w" "chat_of (closeConnection cn w) = chat_of w"
  "chat_of (upd_client c f w) = chat_of w" "chat_of (client_setConnection E c cno w) = chat_of w"
  "chat_of (w\<lparr>w_ext := x\<rparr>) = chat_of w" "chat_of (w\<lparr>w_now := tm\<rparr>) = chat_of w"
  "chat_of (decrementForIp ip fld w) = chat_of w" "chat_of (eraseConnection cn w) = chat_of w"
  "chat_of (snd (removeFromClients c w)) = chat_of w" "chat_of (w\<lparr>w_connectionToClient := tbl\<rparr>) = chat_of w"
  by (rule chat_of_heap; simp add: client_setConnection_sel decrementForIp_def eraseConnection_def removeFromClients_def)+

text \<open>A change of one room is a step of the machine if the machine allows it for the room.\<close>

lemma follows_room:
  assumes ok: "chat_ok w" and r: "r \<in> set (w_rooms w)" and rooms: "w_rooms w' = w_rooms w"
    and nm: "\<And>q. r_name (w_room w' q) = r_name (w_room w q)"
    and other: "\<And>q. q \<in> set (w_rooms w) \<Longrightarrow> q \<noteq> r \<Longrightarrow> chat_room_of w' q = chat_room_of w q"
    and step: "\<And>s nm. s nm = Some (chat_room_of w r) \<Longrightarrow> chat_step a s (s(nm \<mapsto> chat_room_of w' r))"
  shows "follows a w w'"
proof (rule follows_step)
  note names = chat_okD(5) [OF ok]
  have "chat_of w' = (chat_of w)(r_name (w_room w r) \<mapsto> chat_room_of w' r)"
    by (rule chat_of_change [OF names r rooms nm other])
  then show "chat_step a (chat_of w) (chat_of w')" using step [of "chat_of w"] chat_of_room [OF names r] by simp
qed

subsection \<open>Clients and rooms\<close>

lemma dom_members: "findMemberByClient w r c \<noteq> None \<Longrightarrow> c \<in> dom (cr_members (chat_room_of w r))"
  by (auto simp: chat_room_of_def)

lemma registered:
  assumes "chat_ok w" and "m \<in> set (r_members (w_room w r))"
  shows "r \<in> set (w_rooms w)"
proof -
  have "r \<in> set (c_rooms (w_client w (m_client (w_member w m))))"
    by (rule members_okD(4) [OF chat_okD(1) [OF assms(1)] assms(2)])
  then show ?thesis using chat_okD(7) [OF assms(1)] by (auto simp: rooms_within_def)
qed

lemma follows_unlink:
  assumes ok: "chat_ok w" and m: "m \<in> set (r_members (w_room w r))"
    and v: "view w' = view (unlink r m (m_client (w_member w m)) w)" and ch: "charters w' = charters w"
    and step: "\<And>s nm. s nm = Some (chat_room_of w r) \<Longrightarrow> m_client (w_member w m) \<in> dom (cr_members (chat_room_of w r)) \<Longrightarrow>
      chat_step a s (s(nm \<mapsto> place (m_client (w_member w m)) None (chat_room_of w r)))"
  shows "follows a w w'"
proof (rule follows_room [OF ok registered [OF ok m]])
  note eff = chat_room_unlink [OF chat_okD(1) [OF ok] m refl v ch]
  have "m_client (w_member w m) \<in> dom (cr_members (chat_room_of w r))"
    by (rule dom_members) (simp add: findMemberByClient_unique [OF chat_okD(1) [OF ok] m])
  then show "chat_step a s (s(nm \<mapsto> chat_room_of w' r))" if "s nm = Some (chat_room_of w r)" for s nm
    using step [of s nm] that by (simp add: eff)
  show "chat_room_of w' q = chat_room_of w q" if "q \<noteq> r" for q using that by (simp add: eff)
qed (simp_all add: view_eqD [OF v] unlink_sel)

lemma follows_leaveRoom:
  assumes ok: "chat_ok w" and run: "client_leaveRoom E c r w = Inr w'"
  shows "follows (Visitor c u ip) w w'"
proof (cases "r \<in> set (c_rooms (w_client w c))")
  case True
  from client_leaveRoom_in [OF chat_okD(1) [OF ok] True, of E] run obtain m where
    v: "view w' = view (unlink r m c w)" and m: "m \<in> set (r_members (w_room w r))" "m_client (w_member w m) = c" by auto
  have ch: "charters w' = charters w" using charter.keep_leaveRoom [of w "charters w" E c r] run by (simp add: yieldsD)
  show ?thesis
    by (rule follows_unlink [OF ok m(1) _ ch]) (use v m(2) in \<open>auto intro: chat_step.leave\<close>)
next
  case False
  then show ?thesis using run by (simp add: client_leaveRoom_notin follows_same)
qed

lemma follows_kick:
  assumes ok: "chat_ok w" and k: "k \<in> set (r_members (w_room w r))" and c: "findMemberByClient w r c \<noteq> None"
    and mod: "moderates u (chat_room_of w r)"
  shows "follows (Visitor c u ip) w (room_kickMember E r k w)"
proof (rule follows_unlink [OF ok k view_room_kickMember])
  show "charters (room_kickMember E r k w) = charters w" by (rule charter.keep_kickMember) (rule refl)
qed (use dom_members [OF c] mod in \<open>auto intro: chat_step.kick\<close>)

text \<open>Being removed from the server is to leave every room.\<close>

lemma chat_onRemove:
  assumes ok: "members_ok w" and run: "client_onRemove E c w = Inr w'"
  shows "chat_of w' = drop_client c (chat_of w)"
proof -
  obtain v where v: "foldR (\<lambda>r. room_removeMember E r c) (c_rooms (w_client w c)) w = Inr v"
    and w': "w' = client_setConnection E c None (upd_client c (\<lambda>cl. cl\<lparr>c_rooms := []\<rparr>) v)"
    using run by (auto simp: client_onRemove_eq bindS_Inr_iff Let_def)
  have loop: "w_rooms v = w_rooms w \<and> (\<forall>q. r_name (w_room v q) = r_name (w_room w q))
      \<and> (\<forall>q. chat_room_of v q = (if q \<in> set rs then place c None (chat_room_of w q) else chat_room_of w q))"
    if "foldR (\<lambda>r. room_removeMember E r c) rs w = Inr v" "distinct rs"
      "\<And>r. inj_on (\<lambda>k. m_client (w_member w k)) (set (r_members (w_room w r)))" for rs and w v :: "'a world"
    using that
  proof (induction rs arbitrary: w)
    case (Cons r rs)
    then obtain w1 where w1: "room_removeMember E r c w = Inr w1" "foldR (\<lambda>r. room_removeMember E r c) rs w1 = Inr v"
      by (auto simp: bindS_Inr_iff)
    then obtain m where m: "findMemberByClient w r c = Some m"
      using room_removeMember_null [of w r c E] by (cases "findMemberByClient w r c") auto
    from room_removeMember_view [OF m, of E] w1(1) have v1: "view w1 = view (room_eraseMember r m w)" by auto
    have ch: "charters w1 = charters w" using charter.keep_removeMember [of w "charters w" E r c] w1(1) by (simp add: yieldsD)
    have mem: "r_members (w_room w1 q) = (if q = r then uset_erase m (r_members (w_room w q)) else r_members (w_room w q))" for q
      by (simp add: view_eqD [OF v1] room_eraseMember_def)
    have one: "inj_on (\<lambda>k. m_client (w_member w1 k)) (set (r_members (w_room w1 q)))" for q
      using Cons.prems(3) [of q] unfolding mem by (auto simp: view_eqD [OF v1] inj_on_def)
    have "r_name (w_room w1 q) = r_name (w_room w q)" "w_rooms w1 = w_rooms w" for q
      by (simp_all add: view_eqD [OF v1] room_eraseMember_def)
    with Cons.IH [OF w1(2) _ one] Cons.prems(2) chat_room_erase [OF Cons.prems(3) m v1 ch] show ?case by auto
  qed simp
  note eff = loop [OF v members_okD(1) [OF ok] members_one [OF ok]]
  have "chat_room_of v q = place c None (chat_room_of w q)" for q
  proof (cases "q \<in> set (c_rooms (w_client w c))")
    case False
    then have "findMemberByClient w q c = None" by (rule findMemberByClient_absent [OF ok])
    then have "place c None (chat_room_of w q) = chat_room_of w q"
      by (simp add: place_def chat_room_of_def fun_eq_iff)
    with False eff show ?thesis by simp
  qed (use eff in simp)
  then have "chat_room_of v = place c None \<circ> chat_room_of w" by (simp add: fun_eq_iff)
  then have "chat_of v = drop_client c (chat_of w)"
    using eff by (simp add: chat_of_def drop_client_def server_getRoomByName_def option.map_comp)
  then show ?thesis by (simp add: w')
qed

text \<open>What is sent and remembered along the way.\<close>

lemma chat_of_quiet [simp]:
  "chat_of (sendPacketToAll E r p w) = chat_of w" "chat_of (member_setStatus m st w) = chat_of w"
  "chat_of (member_setGirl m g w) = chat_of w" "chat_of (member_setColor m clr w) = chat_of w"
  "chat_of (send_history c r w) = chat_of w" "chat_of (announce E m st w) = chat_of w"
  by (rule chat_of_view; (rule view_simps)?; (rule charter.keep_basic charter.keep_announce)?; (rule refl)?)+

lemma chat_loops:
  "orphan_in_room E c r w = Inr w' \<Longrightarrow> chat_of w' = chat_of w"
  "revive_in_room E c r w = Inr w' \<Longrightarrow> chat_of w' = chat_of w"
  by (auto simp: orphan_in_room_def revive_in_room_def bindS_Inr_iff Let_def)

lemma chat_onDisconnect: "client_onDisconnect E c w = Inr w' \<Longrightarrow> chat_of w' = chat_of w"
  unfolding client_onDisconnect_eq Let_def
  by (drule foldR_invariant [where v = chat_of, rotated]) (auto dest: chat_loops(1))

lemma chat_onRevive: "client_onRevive E c w = Inr w' \<Longrightarrow> chat_of w' = chat_of w"
  unfolding client_onRevive_eq Let_def
  by (drule foldR_invariant [where v = chat_of, rotated]) (auto dest: chat_loops(2))

lemma chat_makeOrphan: "makeOrphan E c w = Inr w' \<Longrightarrow> chat_of w' = chat_of w"
  by (auto simp: makeOrphan_def dest: chat_onDisconnect split: option.splits if_splits)

lemma members_ok_tables [simp]:
  "members_ok (decrementForIp ip fld w) = members_ok w" "members_ok (eraseConnection cn w) = members_ok w"
  "members_ok (snd (removeFromClients c w)) = members_ok w"
  by (simp_all add: members_ok_def decrementForIp_def eraseConnection_def removeFromClients_def)

lemma chat_removeClient:
  assumes ok: "members_ok w" and run: "removeClient E c w = Inr w'"
  shows "chat_of w' = drop_client c (chat_of w)"
proof -
  have "chat_of w' = drop_client c (chat_of v)" if "client_onRemove E c v = Inr w'" "members_ok v" for v
    by (rule chat_onRemove [OF that(2,1)])
  from this [OF run [unfolded removeClient_def Let_def split_beta]] ok show ?thesis by (auto split: option.split)
qed

lemma chat_manager_revive:
  assumes ok: "members_ok w" and run: "manager_reviveClient E cur targ w = Inr (b, w')"
  shows "chat_of w' = (if b then drop_client cur (chat_of w) else chat_of w)"
proof (cases "c_connection (w_client w cur)")
  case None
  then show ?thesis using run by (simp add: manager_reviveClient_def)
next
  case (Some ccn)
  define w3 where "w3 = handover1 cur targ w"
  have w3: "chat_of w3 = chat_of w" "members_ok w3"
    using ok by (auto simp: w3_def handover1_def detach_def split: option.split)
  obtain w4 where w4: "client_onRemove E cur w3 = Inr w4" "b" and w': "chat_of w' = chat_of w4"
    using run
    by (auto simp: manager_reviveClient_def Let_def Some bindS_Inr_iff w3_def handover1_def detach_def dest!: chat_onRevive
        split: option.splits)
  show ?thesis using chat_onRemove [OF w3(2) w4(1)] w' w3(1) w4(2) by simp
qed

lemma chat_revive:
  assumes "members_ok w" and "server_reviveClient E cur targ w = Inr (b, w')"
  shows "chat_of w' = chat_of w \<or> chat_of w' = drop_client cur (chat_of w)"
proof -
  obtain b1 v where v: "manager_reviveClient E cur targ w = Inr (b1, v)" "chat_of w' = chat_of v"
    using assms(2) by (auto simp: server_reviveClient_def bindS_Inr_iff Let_def split: option.splits if_splits)
  then show ?thesis using chat_manager_revive [OF assms(1) v(1)] by simp
qed

end
