(* ===== verification/ChatCommands.thy ===== *)
theory ChatCommands
  imports ChatRooms
begin

text \<open>
  New nicks, joining and the commands are steps of the machine of the chat: its guards are the
  checks that the code makes of the rights of the client.
\<close>

subsection \<open>Nicks\<close>

lemma members_registered_room:
  "chat_ok w \<Longrightarrow> m \<in> set (r_members (w_room w r)) \<Longrightarrow> m_room (w_member w m) = r"
  by (rule members_okD(3) [OF chat_okD(1)])

lemma chat_room_rename:
  assumes ok: "chat_ok w" and m: "m \<in> set (r_members (w_room w r))"
    and v: "view w' = view (rename m n w)" and ch: "charters w' = charters w"
  shows "chat_room_of w' q = (if q = r then place (m_client (w_member w m)) (Some (m_id (w_member w m), n)) (chat_room_of w r)
    else chat_room_of w q)"
proof -
  note mok = chat_okD(1) [OF ok]
  have find: "findMemberByClient w' q d = findMemberByClient w q d" for d
    by (simp add: findMemberByClient_def view_eqD [OF v] rename_sel)
  have sel: "m_id (w_member w' k) = m_id (w_member w k)"
    "m_nick (w_member w' k) = (if k = m then n else m_nick (w_member w k))" for k
    by (simp_all add: view_eqD [OF v] rename_sel)
  have who: "k = m \<longleftrightarrow> q = r \<and> d = m_client (w_member w m)" if "findMemberByClient w q d = Some k" for k d
  proof
    assume "k = m"
    then show "q = r \<and> d = m_client (w_member w m)"
      using findMemberByClient_Some [OF that] members_okD(3) [OF mok] m by blast
  next
    assume "q = r \<and> d = m_client (w_member w m)"
    then show "k = m" using findMemberByClient_unique [OF mok m] that by simp
  qed
  have "map_option (\<lambda>m. (m_id (w_member w' m), m_nick (w_member w' m))) (findMemberByClient w q d)
      = (if q = r \<and> d = m_client (w_member w m) then Some (m_id (w_member w m), n)
         else map_option (\<lambda>m. (m_id (w_member w m), m_nick (w_member w m))) (findMemberByClient w q d))" for d
    using who [of d] findMemberByClient_unique [OF mok m] by (cases "findMemberByClient w q d") (auto simp: sel)
  then show ?thesis by (auto simp: chat_room_of_def place_def fun_eq_iff charters_eqD [OF ch] find)
qed

lemma free_nick:
  assumes "findMemberByNick w r n = None"
  shows "n = [] \<or> n \<notin> snd ` ran (cr_members (chat_room_of w r))"
  using findMemberByNick_None [OF assms] findMemberByClient_Some [of w r]
  by (fastforce simp: chat_room_of_def ran_def)

lemma follows_setNick:
  assumes ok: "chat_ok w" and m: "m \<in> set (r_members (w_room w r))" and c: "m_client (w_member w m) = c"
    and u: "c_uid (w_client w c) = u" and free: "findMemberByNick w r n = None"
  shows "follows (Visitor c u ip) w (member_setNick E m n w)"
proof -
  let ?w' = "member_setNick E m n w"
  note room = members_registered_room [OF ok m]
  have ch: "charters ?w' = charters w" by (rule charter.keep_setNick) (rule refl)
  have "view ?w' = view w \<or> view ?w' = view (rename m n w) \<and> (member_isModer w m \<or> n \<notin> set (r_bannedNicks (w_room w r)))"
    by (auto simp: member_setNick_def Let_def view_simps rename_def room_isBannedNick_def room)
  then consider (same) "view ?w' = view w" | (named) "view ?w' = view (rename m n w)"
    "member_isModer w m \<or> n \<notin> set (r_bannedNicks (w_room w r))" by blast
  then show ?thesis
  proof cases
    case same
    then show ?thesis by (rule follows_same [OF chat_of_view [OF _ ch]])
  next
    case named
    note eff = chat_room_rename [OF ok m named(1) ch, unfolded c]
    have mem: "cr_members (chat_room_of w r) c = Some (m_id (w_member w m), m_nick (w_member w m))"
      using findMemberByClient_unique [OF chat_okD(1) [OF ok] m] c by (simp add: chat_room_of_def)
    have may: "n \<notin> cr_nicks (chat_room_of w r) \<or> moderates u (chat_room_of w r)"
      using named(2) by (auto simp: member_isModer_privileged moderates_privileged room c u) (simp add: chat_room_of_def)
    show ?thesis
    proof (rule follows_room [OF ok registered [OF ok m]])
      show "chat_step (Visitor c u ip) s (s(nm \<mapsto> chat_room_of ?w' r))" if "s nm = Some (chat_room_of w r)" for s nm
        using chat_step.name [of s nm, OF that mem free_nick [OF free] may] by (simp add: eff)
      show "chat_room_of ?w' q = chat_room_of w q" if "q \<noteq> r" for q using that by (simp add: eff)
    qed (simp_all add: view_eqD [OF named(1)] rename_sel)
  qed
qed

subsection \<open>Joining\<close>

lemma joinRoom_client:
  assumes "client_joinRoom c r w = Inr (res, w')"
  shows "c_uid (w_client w' d) = c_uid (w_client w d)"
  using assms
  by (auto simp: client_joinRoom_def room_addMember_def genNextMemberId_def bindS_Inr_iff Let_def member_setStatus_def
      split: if_splits sum.splits option.splits)

lemma follows_after_join:
  assumes ok: "chat_ok w" and m: "m \<in> set (r_members (w_room w r))" and c: "m_client (w_member w m) = c"
    and u: "c_uid (w_client w c) = u"
  shows "follows (Visitor c u ip) w (after_join E c r p m w)"
proof -
  let ?w1 = "client_sendPacket E c (join_packet w m (pj_sequenceId p)) w"
  let ?w2 = "client_sendPacket E c (online_list_packet ?w1 r (pj_sequenceId p)) ?w1"
  let ?w3 = "if pj_load_history p then send_history c r ?w2 else ?w2"
  obtain nick w4 where 4: "(if pj_auto_login p then auto_login E r c m ?w3 else ([], ?w3)) = (nick, w4)"
    by fastforce
  have v3: "view ?w3 = view w" and c3: "charters ?w3 = charters w" and u3: "w_client ?w3 = w_client w"
    using charter.keep_history [of ?w2 "charters w" c r] charters_heap [of ?w2 w]
    by (simp_all add: view_simps send_history_client)
  have "view w4 = view ?w3 \<and> findMemberByNick w4 r nick = None \<and> charters w4 = charters w \<and> w_client w4 = w_client ?w3"
  proof (cases "pj_auto_login p")
    case True
    with 4 have login: "auto_login E r c m ?w3 = (nick, w4)" by simp
    have "w_client w4 = w_client ?w3"
      using login by (auto simp: auto_login_def Let_def member_setColor_def member_setGirl_def split: option.splits if_splits)
    then show ?thesis using view_auto_login [OF login] charter.keep_auto_login [of ?w3 _ E r c m, OF c3] login by simp
  next
    case False
    then show ?thesis using 4 c3 by (auto simp: findMemberByNick_empty)
  qed
  then have v4: "view w4 = view w" and free: "findMemberByNick w4 r nick = None" and c4: "charters w4 = charters w"
    and u4: "w_client w4 = w_client w"
    using v3 u3 by simp_all
  let ?w5 = "member_sendPacket E m (sys_packet (r_name (w_room w4 r)) txt_type_help) w4"
  have v5: "view ?w5 = view w" and c5: "charters ?w5 = charters w" and u5: "w_client ?w5 = w_client w"
    using v4 c4 u4 charters_heap [of ?w5 w4] by (simp_all add: view_simps)
  have free5: "findMemberByNick ?w5 r nick = None" using free by (simp add: findMemberByNick_def)
  have "follows (Visitor c u ip) ?w5 (member_setNick E m nick ?w5)"
    by (rule follows_setNick [OF iffD2 [OF chat_ok_cong [OF v5] ok] _ _ _ free5]) (simp_all add: m c u u4 view_eqD [OF v4])
  then have "follows (Visitor c u ip) ?w5 (after_join E c r p m w)"
    unfolding after_join_def Let_def 4 prod.case by (auto intro: follows_same)
  then show ?thesis by (rule follows_since) (rule chat_of_view [OF v5 c5])
qed

lemma follows_join:
  assumes ok: "chat_ok w" and c: "c \<in> set (w_clients w)" and run: "join_process E c p w = Inr w'"
    and u: "c_uid (w_client w c) = u" and ip: "c_lastClientIP (w_client w c) = ip"
  shows "follows (Visitor c u ip) w w'"
proof (cases "client_getRoomByName w c (pj_target p) \<noteq> None \<or> server_getRoomByName w (pj_target p) = None")
  case True
  then show ?thesis using run by (auto simp: join_process_def intro!: follows_same split: if_splits)
next
  case False
  note mok = chat_okD(1) [OF ok]
  obtain r where r: "server_getRoomByName w (pj_target p) = Some r" and none: "client_getRoomByName w c (pj_target p) = None"
    using False by auto
  have reg: "r \<in> set (w_rooms w)" "r_name (w_room w r) = pj_target p" using server_getRoomByName_Some [OF r] by simp_all
  have notin: "r \<notin> set (c_rooms (w_client w c))" using client_getRoomByName_None [OF none] reg(2) by blast
  obtain res v where j: "client_joinRoom c r w = Inr (res, v)"
    and w': "w' = (case res of Inl e \<Rightarrow> ban_reply E c r p e v | Inr None \<Rightarrow> v | Inr (Some m) \<Rightarrow> after_join E c r p m v)"
    using run r none by (auto simp: join_process_def bindS_Inr_iff)
  have ch: "charters v = charters w" using charter.keep_joinRoom [of w "charters w" c r] j by (simp add: yieldsD [of "\<lambda>(res, w'). _ w'"])
  from mok j show ?thesis
  proof (cases rule: client_joinRoom_cases)
    case (banned e i)
    have "chat_of v = chat_of w"
      by (rule chat_of_cong) (simp_all add: view_eqD [OF banned(3)] alloc_sel chat_room_alloc [OF mok banned(3) ch])
    then show ?thesis using w' banned(1) by (simp add: ban_reply_def follows_same)
  next
    case (joined i)
    have no: "findMemberByClient w r c = None" by (rule findMemberByClient_absent [OF mok notin])
    note eff = chat_room_link [OF mok no joined(3) ch]
    have adm: "admits (chat_room_of w r) u ip"
      using client_joinRoom_verdict [OF mok j] joined(1)
      by (auto simp: admits_def moderates_privileged u ip split: if_splits) (simp_all add: chat_room_of_def)
    have new: "cr_members (chat_room_of w r) c = None" "i \<notin> fst ` ran (cr_members (chat_room_of w r))" "i \<noteq> 0"
      using no joined(2) findMemberByClient_Some [of w r] by (auto simp: chat_room_of_def fresh_id_def ran_def)
    have enter: "follows (Visitor c u ip) w v"
    proof (rule follows_room [OF ok reg(1)])
      show "chat_step (Visitor c u ip) s (s(nm \<mapsto> chat_room_of v r))" if "s nm = Some (chat_room_of w r)" for s nm
        using chat_step.enter [of s nm, OF that new(1) adm new(3,2)] by (simp add: eff)
      show "chat_room_of v q = chat_room_of w q" if "q \<noteq> r" for q using that by (simp add: eff)
    qed (simp_all add: view_eqD [OF joined(3)] link_sel)
    have "chat_ok v" using keeps_joinRoom [OF ok j notin reg(1) c] ok by (simp add: keeps_def)
    then have "follows (Visitor c u ip) v (after_join E c r p (w_nextMember w) v)"
      by (rule follows_after_join) (simp_all add: view_eqD [OF joined(3)] link_sel member_new_def joinRoom_client [OF j] u)
    with enter show ?thesis using w' joined(1) follows_trans by simp
  qed
qed

subsection \<open>Commands\<close>

text \<open>The sets of a room as the chat sees them.\<close>

lemma chat_room_sets:
  fixes w :: "'x world" and r :: room_ptr
  defines "upd \<equiv> \<lambda>f. chat_room_of (upd_room r (\<lambda>rm. snd (f rm)) w) r" and "rm \<equiv> chat_room_of w r"
  shows "upd (room_banNick nk) = rm\<lparr>cr_nicks := insert nk (cr_nicks rm)\<rparr>"
    and "upd (room_banIp ip) = rm\<lparr>cr_ips := insert ip (cr_ips rm)\<rparr>"
    and "upd (room_banUid v) = rm\<lparr>cr_uids := insert v (cr_uids rm)\<rparr>"
    and "upd (room_unbanNick nk) = rm\<lparr>cr_nicks := cr_nicks rm - {nk}\<rparr>"
    and "upd (room_unbanIp ip) = rm\<lparr>cr_ips := cr_ips rm - {ip}\<rparr>"
    and "upd (room_unbanUid v) = rm\<lparr>cr_uids := cr_uids rm - {v}\<rparr>"
    and "upd (room_addModerator v) = rm\<lparr>cr_moderators := insert v (cr_moderators rm)\<rparr>"
    and "upd (room_removeModerator v) = rm\<lparr>cr_moderators := cr_moderators rm - {v}\<rparr>"
  by (simp_all add: upd_def rm_def chat_room_of_def room_set_defs findMemberByClient_def)

lemma card_set_le: "length xs \<le> n \<Longrightarrow> card (set xs) \<le> n"
  using card_length [of xs] by linarith

text \<open>A member of a room acts in it with the account of its client.\<close>

definition acts :: "'x world \<Rightarrow> member_ptr \<Rightarrow> room_ptr \<Rightarrow> client_ptr \<Rightarrow> u32 \<Rightarrow> bool" where
  "acts w m r c u \<longleftrightarrow> chat_ok w \<and> m \<in> set (r_members (w_room w r)) \<and> m_client (w_member w m) = c \<and> c_uid (w_client w c) = u"

lemma actsD:
  assumes "acts w m r c u"
  shows "chat_ok w" and "m \<in> set (r_members (w_room w r))" and "m_client (w_member w m) = c" and "c_uid (w_client w c) = u"
    and "m_room (w_member w m) = r" and "findMemberByClient w r c = Some m" and "r \<in> set (w_rooms w)"
    and "c \<in> dom (cr_members (chat_room_of w r))"
    and "member_isModer w m \<longleftrightarrow> moderates u (chat_room_of w r)" and "member_isOwner w m \<longleftrightarrow> owns u (chat_room_of w r)"
    and "member_isAdmin w m \<longleftrightarrow> administrator u" and "client_isAdmin (w_client w c) \<longleftrightarrow> administrator u"
proof -
  show ok: "chat_ok w" and m: "m \<in> set (r_members (w_room w r))" and c: "m_client (w_member w m) = c" and u: "c_uid (w_client w c) = u"
    using assms by (simp_all add: acts_def)
  show room: "m_room (w_member w m) = r" by (rule members_registered_room [OF ok m])
  show f: "findMemberByClient w r c = Some m" using findMemberByClient_unique [OF chat_okD(1) [OF ok] m] c by simp
  show "r \<in> set (w_rooms w)" by (rule registered [OF ok m])
  show "c \<in> dom (cr_members (chat_room_of w r))" using f by (simp add: dom_members)
  show "member_isModer w m \<longleftrightarrow> moderates u (chat_room_of w r)"
    by (simp add: member_isModer_privileged moderates_privileged room c u)
  show "member_isOwner w m \<longleftrightarrow> owns u (chat_room_of w r)" by (simp add: owns_member room c u)
  show "member_isAdmin w m \<longleftrightarrow> administrator u" "client_isAdmin (w_client w c) \<longleftrightarrow> administrator u"
    by (simp_all add: member_isAdmin_def administrator_client c u)
qed

lemma follows_set:
  assumes a: "acts w m r c u" and f: "\<And>rm. room_view (snd (f rm)) = room_view rm"
    and may: "moderates u (chat_room_of w r) \<and> regulation u (chat_room_of w r) (chat_room_of (upd_room r (\<lambda>rm. snd (f rm)) w) r)
      \<or> owns u (chat_room_of w r) \<and> appointment u (chat_room_of w r) (chat_room_of (upd_room r (\<lambda>rm. snd (f rm)) w) r)"
  shows "follows (Visitor c u ip) w (upd_room r (\<lambda>rm. snd (f rm)) w)"
proof -
  have "view (upd_room r (\<lambda>rm. snd (f rm)) w) = view w" by (rule view_upd_room) (rule f)
  note v = view_eqD [OF this]
  show ?thesis
  proof (rule follows_room [OF actsD(1,7) [OF a]])
    show "chat_step (Visitor c u ip) s (s(nm \<mapsto> chat_room_of (upd_room r (\<lambda>rm. snd (f rm)) w) r))"
      if "s nm = Some (chat_room_of w r)" for s nm
      using may chat_step.regulate [of s nm, OF that actsD(8) [OF a]] chat_step.staff [of s nm, OF that actsD(8) [OF a]] by blast
    show "chat_room_of (upd_room r (\<lambda>rm. snd (f rm)) w) q = chat_room_of w q" if "q \<noteq> r" for q
      using that by (simp add: chat_room_of_def findMemberByClient_def)
    show "r_name (w_room (upd_room r (\<lambda>rm. snd (f rm)) w) q) = r_name (w_room w q)" for q by (rule v(9))
  qed simp
qed

lemma follows_on_room_set:
  assumes a: "acts w m r c u"
  shows "moderates u (chat_room_of w r) \<Longrightarrow> regulation u (chat_room_of w r) (chat_room_of (upd_room r (\<lambda>rm. snd (f rm)) w) r)
      \<Longrightarrow> (\<And>rm. room_view (snd (f rm)) = room_view rm) \<Longrightarrow> follows (Visitor c u ip) w (on_room_set E m f yes no w)"
    and "owns u (chat_room_of w r) \<Longrightarrow> appointment u (chat_room_of w r) (chat_room_of (upd_room r (\<lambda>rm. snd (f rm)) w) r)
      \<Longrightarrow> (\<And>rm. room_view (snd (f rm)) = room_view rm) \<Longrightarrow> follows (Visitor c u ip) w (on_room_set E m f yes no w)"
  using follows_set [OF a, of f ip] by (simp_all add: on_room_set_def Let_def actsD(5) [OF a] follows_def)

lemma follows_reply: "follows a w (reply E m t w)"
  by (simp add: follows_same)

lemma follows_bannick:
  assumes a: "acts w m r c u" and mod: "moderates u (chat_room_of w r)"
  shows "follows (Visitor c u ip) w (cmd_bannick_process E m p w)"
proof -
  let ?nick = "parser_suffix p"
  let ?w1 = "upd_room r (\<lambda>rm. snd (room_banNick ?nick rm)) w"
  have v: "view ?w1 = view w" by (rule view_simps)
  have ban: "follows (Visitor c u ip) w ?w1"
    if "administrator u \<or> length (r_bannedNicks (w_room w r)) \<le> ban_limit" "\<not> length ?nick > 24" "?nick \<noteq> []"
  proof (rule follows_set [OF a])
    have "administrator u \<or> card (cr_nicks (chat_room_of w r)) \<le> 100"
      using that(1) card_set_le [of "r_bannedNicks (w_room w r)" 100] by (auto simp: chat_room_of_def ban_limit_def)
    then have "regulation u (chat_room_of w r) (chat_room_of ?w1 r)"
      unfolding chat_room_sets(1) using that(2,3) by (intro regulation.ban_nick) simp_all
    with mod show "moderates u (chat_room_of w r) \<and> regulation u (chat_room_of w r) (chat_room_of ?w1 r)
      \<or> owns u (chat_room_of w r) \<and> appointment u (chat_room_of w r) (chat_room_of ?w1 r)" by blast
  qed simp
  have kick: "follows (Visitor c u ip) ?w1 (room_kickMember E r k ?w1)" if "findMemberByNick ?w1 r ?nick = Some k" for k
  proof (rule follows_kick)
    show "chat_ok ?w1" using actsD(1) [OF a] by (simp add: chat_ok_cong [OF v])
    show "k \<in> set (r_members (w_room ?w1 r))" using findMemberByNick_Some [OF that] by simp
    show "findMemberByClient ?w1 r c \<noteq> None" using actsD(6) [OF a] by (simp add: findMemberByClient_cong [OF v])
    show "moderates u (chat_room_of ?w1 r)" using mod by (simp add: chat_room_sets(1) moderates_def owns_def)
  qed
  have out: "follows (Visitor c u ip) w (reply E m t v')" if "follows (Visitor c u ip) w v'" for t v'
    by (rule follows_until [OF that]) simp
  show ?thesis
    unfolding cmd_bannick_process_def Let_def actsD(5) [OF a] actsD(11) [OF a]
    using ban follows_trans [OF ban kick]
    by (auto simp: follows_reply not_less split: option.split intro!: out)
qed

lemma follows_regulating:
  assumes a: "acts w m r c u" and cmd: "regulating cmd" and right: "holds_right w m (required cmd)"
  shows "follows (Visitor c u ip) w (command_process E cmd m p w)"
proof -
  note reply = follows_reply and sets = follows_on_room_set [OF a]
  note acc = actsD(5,11,3,12) [OF a]
  let ?rm = "chat_room_of w r"
  have cards: "administrator u \<or> card (cr_ips ?rm) \<le> 100" if "administrator u \<or> length (r_bannedIps (w_room w r)) \<le> ban_limit"
    using that card_set_le [of "r_bannedIps (w_room w r)" 100] by (auto simp: chat_room_of_def ban_limit_def)
  have cardu: "administrator u \<or> card (cr_uids ?rm) \<le> 100" if "administrator u \<or> length (r_bannedUids (w_room w r)) \<le> ban_limit"
    using that card_set_le [of "r_bannedUids (w_room w r)" 100] by (auto simp: chat_room_of_def ban_limit_def)
  have cardm: "administrator u \<or> card (cr_moderators ?rm) \<le> 10" if "administrator u \<or> length (r_moderators (w_room w r)) \<le> moder_limit"
    using that card_set_le [of "r_moderators (w_room w r)" 10] by (auto simp: chat_room_of_def moder_limit_def)
  have moder: "follows (Visitor c u ip) w (cmd_bannick_process E m p w)" "follows (Visitor c u ip) w (cmd_banuid_process E m p w)"
    "follows (Visitor c u ip) w (cmd_banip_process E m p w)" "follows (Visitor c u ip) w (cmd_unbannick_process E m p w)"
    "follows (Visitor c u ip) w (cmd_unbanuid_process E m p w)" "follows (Visitor c u ip) w (cmd_unbanip_process E m p w)"
    if mod: "moderates u ?rm"
  proof -
    show "follows (Visitor c u ip) w (cmd_bannick_process E m p w)" by (rule follows_bannick [OF a mod])
    show "follows (Visitor c u ip) w (cmd_banuid_process E m p w)" "follows (Visitor c u ip) w (cmd_banip_process E m p w)"
      using cards cardu
      by (auto simp: cmd_banuid_process_def cmd_banip_process_def Let_def acc split_beta reply chat_room_sets mod not_less
          intro!: sets(1) regulation.intros)
    show "follows (Visitor c u ip) w (cmd_unbannick_process E m p w)" "follows (Visitor c u ip) w (cmd_unbanuid_process E m p w)"
      "follows (Visitor c u ip) w (cmd_unbanip_process E m p w)"
      by (auto simp: cmd_unbannick_process_def cmd_unbanuid_process_def cmd_unbanip_process_def Let_def split_beta reply
          chat_room_sets mod intro!: sets(1) regulation.intros)
  qed
  have owner: "follows (Visitor c u ip) w (cmd_addmoder_process E m p w)" "follows (Visitor c u ip) w (cmd_delmoder_process E m p w)"
    if own: "owns u ?rm"
    using cardm
    by (auto simp: cmd_addmoder_process_def cmd_delmoder_process_def Let_def acc split_beta reply chat_room_sets own not_less
        intro!: sets(2) appointment.intros)
  show ?thesis
    using cmd right moder owner by (auto simp: regulating_def actsD(9,10) [OF a])
qed

lemma follows_command:
  assumes a: "acts w m r c u" and right: "holds_right w m (required cmd)"
  shows "follows (Visitor c u ip) w (command_process E cmd m p w)"
proof (cases "regulating cmd")
  case True
  then show ?thesis by (rule follows_regulating [OF a _ right])
next
  case False
  have ch: "charters (command_process E cmd m p w) = charters w" by (rule charter.keep_plain_command [OF refl False])
  consider (nick) "cmd = CommandNick" | (kick) "cmd = CommandKick" | (quiet) "cmd \<noteq> CommandNick" "cmd \<noteq> CommandKick" "cmd \<noteq> CommandBanNick"
    using False by (auto simp: regulating_def)
  then show ?thesis
  proof cases
    case nick
    have "findMemberByNick w r n = None \<Longrightarrow> follows (Visitor c u ip) w (member_setNick E m n w)" for n
      by (rule follows_setNick [OF actsD(1-4) [OF a]])
    then show ?thesis
      by (auto simp: nick cmd_nick_process_def Let_def actsD(5) [OF a] follows_reply findMemberByNick_empty)
  next
    case kick
    with right have mod: "moderates u (chat_room_of w r)" by (simp add: actsD(9) [OF a])
    have "follows (Visitor c u ip) w (room_kickMember E r k w)" if "findMemberByNick w r n = Some k" for n k
      by (rule follows_kick [OF actsD(1) [OF a] _ _ mod]) (use findMemberByNick_Some [OF that] actsD(6) [OF a] in simp_all)
    then show ?thesis by (simp add: kick cmd_kick_process_def Let_def actsD(5) [OF a] follows_reply split: option.split)
  next
    case quiet
    show ?thesis by (rule follows_same [OF chat_of_view [OF view_command [OF quiet] ch]])
  qed
qed

end
