(* ===== verification/ChatEvents.thy ===== *)
theory ChatEvents
  imports ChatCommands
begin

text \<open>
  The server keeps to the machine of the chat: every event of the server is a sequence of its
  steps whose actor is the client that sent a frame, or the house, which drops the clients that
  are evicted, have closed their connection or were silent for too long.
\<close>

subsection \<open>Packets\<close>

lemma follows_processCommand:
  assumes a: "acts w m r c u" and run: "processCommand E m q msg w = Some w'"
  shows "follows (Visitor c u ip) w w'"
proof (cases "msg \<noteq> [] \<and> hd msg = CHR ''/''")
  case True
  then obtain s where s: "msg = CHR ''/'' # s" by (cases msg) auto
  show ?thesis
    using run follows_command [OF a] processCommand_words(1) [OF s, of E m q w]
    by (auto simp: Let_def follows_same split: option.splits if_splits)
next
  case False
  then show ?thesis using run by (auto simp: processCommand_def)
qed

lemma chat_of_message_id [simp]: "chat_of (upd_room r (\<lambda>_. snd (room_newMessageId (w_room w r))) w) = chat_of w"
  by (rule chat_of_view) (rule view_simps, rule charter.keep_message_id, rule refl)

lemma follows_say:
  assumes ok: "chat_ok w" and u: "c_uid (w_client w c) = u" and run: "say_in_room E c r targ msg w = Inr w'"
  shows "follows (Visitor c u ip) w w'"
proof -
  obtain m where m: "findMemberByClient w r c = Some m"
    using run by (cases "findMemberByClient w r c") (auto simp: say_in_room_def)
  then have a: "acts w m r c u" using findMemberByClient_Some [OF m] ok u by (simp add: acts_def)
  show ?thesis
  proof (cases "processCommand E m r msg w")
    case (Some v)
    then show ?thesis using run m follows_processCommand [OF a Some] by (simp add: say_in_room_def)
  next
    case None
    then show ?thesis using run m by (auto simp: say_in_room_def Let_def split_beta intro!: follows_same)
  qed
qed

lemma follows_message:
  assumes ok: "chat_ok w" and u: "c_uid (w_client w c) = u" and run: "message_process E c p w = Inr w'"
  shows "follows (Visitor c u ip) w w'"
proof -
  let ?w1 = "flood_window c w"
  let ?w2 = "upd_client c (\<lambda>cl. cl\<lparr>c_messageCounter := c_messageCounter cl + 1\<rparr>) ?w1"
  have v1: "view ?w1 = view w" by (rule view_simps)
  then have v2: "view ?w2 = view w" by (simp add: view_upd_client client_view_def)
  have c1: "chat_of ?w1 = chat_of w" by (simp add: flood_window_def)
  have u2: "c_uid (w_client ?w2 c) = u" using u by (simp add: flood_window_def)
  have say: "follows (Visitor c u ip) w w'" if "say_in_room E c r targ msg ?w2 = Inr w'" for r targ msg
    by (rule follows_since [OF follows_say [OF iffD2 [OF chat_ok_cong [OF v2] ok] u2 that]]) (simp add: c1)
  have "chat_of w' = chat_of w \<or> (\<exists>r targ msg. say_in_room E c r targ msg ?w2 = Inr w')"
    using run c1 by (auto simp: message_process_def Let_def split: if_splits option.splits)
  then show ?thesis using say follows_same by blast
qed

lemma follows_leave:
  assumes ok: "chat_ok w" and run: "leave_process E c p w = Inr w'"
  shows "follows (Visitor c u ip) w w'"
proof (cases "client_getRoomByName w c (pl_target p)")
  case None
  then show ?thesis using run by (auto simp: leave_process_def follows_same)
next
  case (Some r)
  then obtain v where v: "client_leaveRoom E c r w = Inr v" "w' = client_sendPacket E c (Packet_Leave p) v"
    using run by (auto simp: leave_process_def bindS_Inr_iff)
  show ?thesis by (rule follows_until [OF follows_leaveRoom [OF ok v(1)]]) (simp add: v(2))
qed

subsection \<open>Rooms come and go\<close>

lemma follows_create:
  assumes ok: "chat_ok w" and u: "c_uid (w_client w c) = u"
  shows "follows (Visitor c u ip) w (create_room_process E c p w)"
proof (cases "u = 0 \<or> \<not> valid_room_name (pc_target p) \<or> server_getRoomByName w (pc_target p) \<noteq> None")
  case True
  then show ?thesis
    using u
    by (auto simp: create_room_process_def client_isGuest_def room_name_shape [folded valid_room_name_def] server_createRoom_def
        Let_def follows_same)
next
  case False
  let ?r = "w_nextRoom w" and ?nm = "pc_target p"
  have none: "server_getRoomByName w ?nm = None" using False by auto
  define v where "v = upd_room ?r (room_setOwner u) (w\<lparr>w_room := (w_room w)(?r := room_setName ?nm room_new),
      w_rooms := uset_insert ?r (w_rooms w), w_nextRoom := Suc ?r\<rparr>)"
  have run: "create_room_process E c p w = client_sendPacket E c (Packet_CreateRoom p) v"
    using False u
    by (simp add: create_room_process_def client_isGuest_def room_name_shape [folded valid_room_name_def]
        server_createRoom_Some [OF none] Let_def v_def)
  have fresh: "?r \<notin> set (w_rooms w)" using chat_okD(5) [OF ok] by (auto simp: names_ok_def)
  have new: "chat_room_of v ?r = founded u"
    by (simp add: chat_room_of_def founded_def v_def room_setOwner_def room_setName_def room_new_def findMemberByClient_def fun_eq_iff)
  have old: "chat_room_of v q = chat_room_of w q" if "q \<noteq> ?r" for q
    using that by (simp add: chat_room_of_def v_def findMemberByClient_def)
  have look: "server_getRoomByName v nm = (if nm = ?nm then Some ?r else server_getRoomByName w nm)" for nm
  proof -
    have "find (\<lambda>r. r_name (w_room v r) = nm) (w_rooms w) = server_getRoomByName w nm"
      unfolding server_getRoomByName_def by (rule find_cong) (use fresh in \<open>auto simp: v_def\<close>)
    moreover have "w_rooms v = w_rooms w @ [?r]" "r_name (w_room v ?r) = ?nm"
      using fresh by (simp_all add: v_def uset_insert_def room_setName_def room_setOwner_def)
    ultimately show ?thesis
      using none by (cases "nm = ?nm") (auto simp: server_getRoomByName_def [of v] find_append split: option.split)
  qed
  have "chat_room_of v q = chat_room_of w q" if "server_getRoomByName w nm = Some q" for nm q
    using old [of q] server_getRoomByName_Some [OF that] fresh by blast
  then have "chat_of v nm = ((chat_of w)(?nm \<mapsto> founded u)) nm" for nm
    by (cases "server_getRoomByName w nm") (simp_all add: chat_of_def look new)
  then have eff: "chat_of v = (chat_of w)(?nm \<mapsto> founded u)" by blast
  have "chat_step (Visitor c u ip) (chat_of w) (chat_of v)"
    unfolding eff using none False by (intro chat_step.create) (auto simp: chat_of_def)
  then show ?thesis unfolding run by (intro follows_until [OF follows_step]) simp_all
qed

text \<open>A room that is not registered any more may lose its members unseen.\<close>

lemma chat_leave_unregistered:
  assumes ok: "members_ok w" and r: "r \<notin> set (w_rooms w)" and run: "client_leaveRoom E c r w = Inr w'"
  shows "chat_of w' = chat_of w" and "members_ok w'" and "w_rooms w' = w_rooms w"
proof -
  have "chat_of w' = chat_of w \<and> members_ok w' \<and> w_rooms w' = w_rooms w"
  proof (cases "r \<in> set (c_rooms (w_client w c))")
    case True
    from client_leaveRoom_in [OF ok True, of E] run obtain m where
      v: "view w' = view (unlink r m c w)" and m: "m \<in> set (r_members (w_room w r))" "m_client (w_member w m) = c" by auto
    have ch: "charters w' = charters w" using charter.keep_leaveRoom [of w "charters w" E c r] run by (simp add: yieldsD)
    have "chat_of w' = chat_of w"
      by (rule chat_of_cong) (use r in \<open>auto simp: view_eqD [OF v] unlink_sel chat_room_unlink [OF ok m v ch]\<close>)
    moreover have "members_ok w'" using members_ok_unlink [OF ok m] by (simp add: members_ok_cong [OF v])
    ultimately show ?thesis by (simp add: view_eqD [OF v] unlink_sel)
  next
    case False
    then show ?thesis using run ok by (simp add: client_leaveRoom_notin)
  qed
  then show "chat_of w' = chat_of w" and "members_ok w'" and "w_rooms w' = w_rooms w" by simp_all
qed

lemma chat_onDestroy:
  fixes w :: "'x world"
  assumes ok: "members_ok w" and r: "r \<notin> set (w_rooms w)" and run: "room_onDestroy E r w = Inr w'"
  shows "chat_of w' = chat_of w"
proof -
  define I where "I v \<longleftrightarrow> chat_of v = chat_of w \<and> members_ok v \<and> w_rooms v = w_rooms w" for v :: "'x world"
  have send: "I (client_sendPacket E c q v)" if "I v" for c q v
    using that members_ok_cong [OF view_client_sendPacket, of E c q v] by (simp add: I_def)
  have leave: "yields I (client_leaveRoom E c r v)" if "I v" for c v
  proof (cases "client_leaveRoom E c r v")
    case (Inr v')
    have v: "members_ok v" "r \<notin> set (w_rooms v)" "chat_of v = chat_of w" "w_rooms v = w_rooms w" using that r by (simp_all add: I_def)
    show ?thesis using chat_leave_unregistered [OF v(1,2) Inr] v(3,4) by (simp add: I_def Inr)
  qed simp
  have "yields I (room_onDestroy E r w)"
    unfolding room_onDestroy_def Let_def
  proof (rule yields_foldR)
    show "I w" using ok by (simp add: I_def)
    show "yields I (bindS (client_leaveRoom E (m_client (w_member v m)) r v) (\<lambda>u.
        Inr (client_sendPacket E (m_client (w_member v m)) (leave_packet (r_name (w_room u r))) u)))" if "I v" for m v
      by (rule yields_after [OF leave [OF that]]) (simp only: yields_simps send)
  qed
  with run show ?thesis by (simp add: yields_def I_def)
qed

lemma chat_removeRoom:
  assumes ok: "chat_ok w" and r: "server_getRoomByName w nm = Some r" and run: "server_removeRoom E nm w = Inr (b, w')"
  shows "chat_of w' = (chat_of w)(nm := None)"
proof -
  let ?w = "w\<lparr>w_rooms := uset_erase r (w_rooms w)\<rparr>"
  note reg = server_getRoomByName_Some [OF r]
  have "members_ok ?w" using chat_okD(1) [OF ok] by (simp add: members_ok_def)
  moreover have "room_onDestroy E r ?w = Inr w'" using run r by (auto simp: server_removeRoom_def bindS_Inr_iff)
  ultimately have w': "chat_of w' = chat_of ?w" by (intro chat_onDestroy [of ?w r E]) simp_all
  have look: "server_getRoomByName ?w k = (if k = nm then None else server_getRoomByName w k)" for k
  proof (cases "k = nm")
    case True
    have "r_name (w_room w q) \<noteq> nm" if "q \<in> set (w_rooms w)" "q \<noteq> r" for q
      using server_getRoomByName_iff [OF chat_okD(5) [OF ok] that(1)] that(2) r by auto
    then show ?thesis using True by (auto simp: server_getRoomByName_def find_None_iff)
  next
    case False
    have "find (\<lambda>q. r_name (w_room w q) = k) (filter (\<lambda>q. q \<noteq> r) xs) = find (\<lambda>q. r_name (w_room w q) = k) xs" for xs
      using False reg by (induction xs) auto
    then show ?thesis using False by (simp add: server_getRoomByName_def uset_erase_def)
  qed
  have "chat_room_of ?w = chat_room_of w" by (rule ext) (simp add: chat_room_of_def findMemberByClient_def)
  then have "chat_of ?w k = ((chat_of w)(nm := None)) k" for k by (simp add: chat_of_def look)
  then have "chat_of ?w = (chat_of w)(nm := None)" by blast
  then show ?thesis by (simp add: w')
qed

lemma follows_remove:
  assumes ok: "chat_ok w" and u: "c_uid (w_client w c) = u" and run: "remove_room_process E c p w = Inr w'"
  shows "follows (Visitor c u ip) w w'"
proof (cases "client_isGuest (w_client w c) \<or> server_getRoomByName w (pr_target p) = None")
  case True
  then show ?thesis using run by (auto simp: remove_room_process_def Let_def follows_same split: if_splits)
next
  case False
  then obtain r where r: "server_getRoomByName w (pr_target p) = Some r" and "u \<noteq> 0"
    using u by (auto simp: client_isGuest_def)
  show ?thesis
  proof (cases "client_isAdmin (w_client w c) \<or> c_uid (w_client w c) = r_ownerId (w_room w r)")
    case True
    then obtain b v where v: "server_removeRoom E (pr_target p) w = Inr (b, v)" "w' = client_sendPacket E c (Packet_RemoveRoom p) v"
      using run False r by (auto simp: remove_room_process_def Let_def bindS_Inr_iff)
    have own: "owns u (chat_room_of w r)"
      using True \<open>u \<noteq> 0\<close> u by (auto simp: owns_def administrator_client chat_room_of_def)
    have "chat_of w (pr_target p) = Some (chat_room_of w r)" using r by (simp add: chat_of_def)
    from chat_step.destroy [of "chat_of w", OF this own, of c ip] have "chat_step (Visitor c u ip) (chat_of w) (chat_of w')"
      by (simp add: v(2) chat_removeRoom [OF ok r v(1)])
    then show ?thesis by (rule follows_step)
  next
    case no: False
    then show ?thesis using run False r by (auto simp: remove_room_process_def Let_def follows_same)
  qed
qed

subsection \<open>All packets\<close>

lemma follows_auth:
  assumes ok: "server_ok E w" and c: "c \<in> set (w_clients w)"
    and cn: "c_connection (w_client w c) = Some cn" and run: "auth_process E c p w = Inr w'"
  shows "follows (Visitor c u ip) w w'"
proof -
  have ch: "charters w' = charters w" using charter.keep_auth [of w "charters w" E c p] run by (simp add: yieldsD)
  have "auth_result E c w w'" using auth_process_cases [OF ok c cn, of p] run by simp
  then consider (still) "view w' = view w"
    | (revived) t w2 where "view w2 = view w" "server_reviveClient E c t w2 = Inr (True, w')"
    unfolding auth_result_def by blast
  then show ?thesis
  proof cases
    case still
    then show ?thesis by (rule follows_same [OF chat_of_view [OF _ ch]])
  next
    case (revived t w2)
    have mok: "members_ok w2" using chat_okD(1) [OF server_okD(1) [OF ok]] by (simp add: members_ok_cong [OF revived(1)])
    have "charters w' = charters w2"
      using charter.keep_revive [of w2 "charters w2" E c t] revived(2) by (simp add: yields_def)
    then have same: "chat_of w2 = chat_of w" by (intro chat_of_view [OF revived(1)]) (simp add: ch)
    have "follows (Visitor c u ip) w2 w'"
      using chat_revive [OF mok revived(2)] chat_step.quit [of c u ip "chat_of w2"] by (auto intro: follows_same follows_step)
    then show ?thesis by (rule follows_since [OF _ same])
  qed
qed

lemma follows_packet:
  assumes ok: "server_ok E w" and c: "c \<in> set (w_clients w)"
    and cn: "c_connection (w_client w c) = Some cn" and run: "packet_process E c p w = Inr w'"
    and u: "c_uid (w_client w c) = u" and ip: "c_lastClientIP (w_client w c) = ip"
  shows "follows (Visitor c u ip) w w'"
proof -
  note cok = server_okD(1) [OF ok]
  have away: "chat_of (away_in_room E c st nst r v) = chat_of v" for st nst r v
    by (simp add: away_in_room_def Let_def split: option.split)
  have loop: "chat_of (fold (away_in_room E c st nst) rs v) = chat_of v" for st nst rs v
    by (rule fold_invariant_view) (rule away)
  show ?thesis
  proof (cases p)
    case (Packet_Message q)
    then show ?thesis using run follows_message [OF cok u] by simp
  next
    case (Packet_Auth q)
    then show ?thesis using run follows_auth [OF ok c cn] by simp
  next
    case (Packet_Join q)
    then show ?thesis using run follows_join [OF cok c _ u ip] by simp
  next
    case (Packet_Leave q)
    then show ?thesis using run follows_leave [OF cok] by simp
  next
    case (Packet_CreateRoom q)
    then show ?thesis using run follows_create [OF cok u] by auto
  next
    case (Packet_RemoveRoom q)
    then show ?thesis using run follows_remove [OF cok u] by simp
  next
    case (Packet_OnlineList q)
    then show ?thesis using run by (auto simp: online_list_process_def follows_same split: option.splits)
  next
    case (Packet_Status q)
    then show ?thesis using run by (auto simp: status_process_def Let_def loop follows_same split: if_splits option.splits)
  qed (use run in \<open>simp_all add: follows_same\<close>)
qed

subsection \<open>Events\<close>

text \<open>
  Who acts: the client whose frame is handled, with the account and the address it has at that
  moment; otherwise the house, with the clients that it may drop.
\<close>

primrec actor_of :: "('j, 'x) env \<Rightarrow> 'x world \<Rightarrow> 'x event \<Rightarrow> actor" where
  "actor_of E w (Opened cn) = House (if connections_at w (getRealClientIp E cn) < 5 then evicted E cn w else {})"
| "actor_of E w (Message cn msg) = (case w_connectionToClient w cn of
     None \<Rightarrow> House {} | Some c \<Rightarrow> Visitor c (c_uid (w_client w c)) (c_lastClientIP (w_client w c)))"
| "actor_of E w (Closed cn stat) = House (if stat = 1000 \<or> stat = 1001 then set_option (w_connectionToClient w cn) else {})"
| "actor_of E w (Failed cn) = House {}"
| "actor_of E w Timer = House {c. w_now w - c_lastPacketTime (w_client w c) > 300}"
| "actor_of E w (Clock t) = House {}"
| "actor_of E w (Services x) = House {}"

lemma follows_on_message:
  assumes inv: "server_inv E w" and run: "on_message E cn msg w = Inr w'"
  shows "follows (actor_of E w (Message cn msg)) w w'"
proof (cases "w_connectionToClient w cn")
  case None
  then show ?thesis using run by (simp add: on_message_def findClientByConnection_def follows_same)
next
  case (Some c)
  let ?w = "upd_client c (\<lambda>cl. cl\<lparr>c_lastPacketTime := w_now w\<rparr>) w"
  have v: "view ?w = view w" by (simp add: view_upd_client client_view_def)
  note mem = connection_client [OF inv Some]
  let ?a = "Visitor c (c_uid (w_client w c)) (c_lastClientIP (w_client w c))"
  have "follows ?a w w'" if "packet_process E c p ?w = Inr w'" for p
    by (rule follows_since [OF follows_packet [OF server_ok_view [OF v invD(1) [OF inv]] _ _ that]]) (use mem in simp_all)
  moreover have "w' = w \<or> (\<exists>p. packet_process E c p ?w = Inr w')"
  proof (cases "packet_read E msg")
    case (Inr q)
    then show ?thesis
      using run Some
      by (cases q) (auto simp: on_message_def findClientByConnection_def client_onPacket_def bindS_Inr_iff)
  qed (use run Some in \<open>simp add: on_message_def findClientByConnection_def client_onPacket_def\<close>)
  ultimately show ?thesis using Some follows_same [of w w] by auto
qed

lemma follows_removeClient:
  assumes "members_ok w" and "removeClient E c w = Inr w'" and "c \<in> X"
  shows "follows (House X) w w'"
  by (rule follows_step) (simp add: chat_removeClient [OF assms(1,2)] chat_step.dismiss [OF assms(3)])

lemma chat_connect: "manager_connect E cn w = Inr w' \<Longrightarrow> chat_of w' = chat_of w"
  by (auto simp: manager_connect_def bindS_Inr_iff Let_def client_setConnection_sel intro!: chat_of_heap)

lemma inv_members: "server_inv E w \<Longrightarrow> members_ok w"
  by (rule chat_okD(1) [OF server_okD(1) [OF invD(1)]])

lemma follows_on_open:
  assumes inv: "server_inv E w" and run: "on_open E cn w = Inr w'"
  shows "follows (actor_of E w (Opened cn)) w w'"
  using inv run
proof (cases rule: on_open_cases)
  case refused
  then show ?thesis by (simp add: follows_same)
next
  case (evicting c v)
  then have "c \<in> evicted E cn w" by (simp add: evicted_def)
  from follows_removeClient [OF inv_members [OF inv] evicting(4) this] show ?thesis
    using evicting(1) chat_connect [OF evicting(5)] by (simp add: follows_def)
next
  case connecting
  show ?thesis by (rule follows_same [OF chat_connect [OF connecting(3)]])
qed

lemma chat_makeOrphanConnection: "makeOrphanConnection E cn w = Inr (b, w') \<Longrightarrow> chat_of w' = chat_of w"
  by (auto simp: makeOrphanConnection_def bindS_Inr_iff dest: chat_makeOrphan split: option.splits)

lemma follows_on_close:
  assumes inv: "server_inv E w" and run: "on_close E cn stat w = Inr w'"
  shows "follows (actor_of E w (Closed cn stat)) w w'"
proof (cases "stat = 1000 \<or> stat = 1001")
  case True
  then obtain b where "removeConnection E cn w = Inr (b, w')" using run by (auto simp: on_close_def bindS_Inr_iff)
  then consider "w' = w" | c where "w_connectionToClient w cn = Some c" "removeClient E c w = Inr w'"
    by (auto simp: removeConnection_def findClientByConnection_def bindS_Inr_iff split: option.splits)
  then show ?thesis
  proof cases
    case (2 c)
    show ?thesis by (simp add: True) (rule follows_removeClient [OF inv_members [OF inv] 2(2)], simp add: 2(1))
  qed (simp add: follows_same)
next
  case False
  then show ?thesis using run by (auto simp: on_close_def bindS_Inr_iff intro: follows_same chat_makeOrphanConnection)
qed

lemma follows_on_tick:
  assumes inv: "server_inv E w" and run: "on_tick E w = Inr w'"
  shows "follows (actor_of E w Timer) w w'"
proof (rule on_tick_relates [where R = "follows (actor_of E w Timer)", OF _ _ _ _ _ inv run])
  show "follows (actor_of E w Timer) u v'" if "follows (actor_of E w Timer) u v" "follows (actor_of E w Timer) v v'" for u v v'
    by (rule follows_trans [OF that])
  show "follows (actor_of E w Timer) v v'" if "tick_client E (w_now w) c (tk, v) = Inr (tk', v')" for c tk v tk' v'
    using that
    by (auto simp: tick_client_def Let_def bindS_Inr_iff follows_same dest!: chat_makeOrphan split: if_splits option.splits)
  show "follows (actor_of E w Timer) v v'" if "w_now w - c_lastPacketTime (w_client w c) > 300" "server_inv E v"
    "removeClient E c v = Inr v'" for c v v'
    unfolding actor_of.simps by (rule follows_removeClient [OF inv_members [OF that(2)] that(3)]) (simp add: that(1))
qed (simp_all add: follows_same)

theorem follows_handle:
  assumes inv: "server_inv E w" and run: "handle E ev w = Inr w'"
  shows "follows (actor_of E w ev) w w'"
proof (cases ev)
  case (Opened cn)
  show ?thesis unfolding Opened by (rule follows_on_open [OF inv]) (use run Opened in simp)
next
  case (Message cn msg)
  show ?thesis unfolding Message by (rule follows_on_message [OF inv]) (use run Message in simp)
next
  case (Closed cn stat)
  show ?thesis unfolding Closed by (rule follows_on_close [OF inv]) (use run Closed in simp)
next
  case (Failed cn)
  then show ?thesis
    using run by (auto simp: on_error_def bindS_Inr_iff intro: follows_same chat_makeOrphanConnection)
next
  case Timer
  show ?thesis unfolding Timer by (rule follows_on_tick [OF inv]) (use run Timer in simp)
qed (use run in \<open>auto simp: follows_same\<close>)

subsection \<open>The server refines the chat\<close>

lemma chat_started: "started w \<Longrightarrow> vacant (chat_of w)"
  by (auto simp: vacant_def ran_def chat_of_def chat_room_of_def started_def findMemberByClient_def)

lemma chat_steps:
  assumes "follows a w w'"
  shows "(\<lambda>s t. \<exists>a. chat_step a s t)\<^sup>*\<^sup>* (chat_of w) (chat_of w')"
  using assms unfolding follows_def by (rule rtranclp_mono [THEN predicate2D, rotated]) blast

lemma server_step_chat:
  assumes "server_inv E w" and "server_step E w w'"
  shows "(\<lambda>s t. \<exists>a. chat_step a s t)\<^sup>*\<^sup>* (chat_of w) (chat_of w')"
  using assms(2) by (rule server_stepE) (rule chat_steps, rule follows_handle [OF assms(1)])

interpretation chatting: simulation "server_step E" started "server_inv E"
  "\<lambda>s t. \<exists>a. chat_step a s t" vacant chat_of for E
  by unfold_locales (use server_step_chat in \<open>auto simp: chat_started\<close>)

lemma reachable_chat:
  assumes "started w0" and "reachable E w0 w"
  shows "sound_chat (chat_of w)"
  using chatting.reach_abs [OF assms(1) reachable_rtranclp [OF assms(2)]] chatter.reach_I by blast

end
