(* ===== verification/Spec2Isabelle.thy ===== *)
theory Spec2Isabelle
  imports Instances Sessions EndToEnd Authority Logging ChatEvents Login
begin

text \<open>
  A verification library for wschatserver, a chat server over WebSockets in C++ (the sources
  are under \<open>src/\<close>).

  \<^bold>\<open>The program.\<close> One process runs one thread of handlers. A WebSocket connection belongs
  to a \<open>Client\<close>; the clients manager keeps the tables from connections and from tokens to
  clients and the numbers of connections and clients per address. A client that loses its
  connection stays for five minutes as an orphan and gets the next connection that logs in
  with its token. A client joins a \<open>Room\<close> as a \<open>Member\<close>, with an id, a nick, a colour;
  rooms keep their history, their bans and moderators, and what they remember of members.
  What a client sends is a JSON packet; a message that begins with a slash is a command.
  Accounts are looked up in MySQL or PostgreSQL, sessions and the counters of failed logins
  in Redis. The rooms are saved to a file and loaded on the next start.

  \<^bold>\<open>How it is modelled.\<close> All state is one record \<open>'x world\<close>: stores of clients, members and
  rooms for the objects behind \<open>shared_ptr\<close>s (a pointer is an index, so that aliasing is
  that of the code), the fields of \<open>Server\<close> and \<open>ClientsManager\<close>, the clock, the position in
  the random stream, the state \<open>'x\<close> of the outside services, and the frames sent, in order.
  An operation is a function from world to world; one that can go wrong returns
  \<open>fault + _\<close>, where \<open>NullDeref\<close>, \<open>BadIndex\<close> and \<open>BadIterator\<close> stand for undefined behaviour and
  \<open>NoReturn\<close> for a loop that does not end. A loop over a list is \<open>foldR\<close>; one over a container of
  the world itself is \<open>iterR\<close>, which fails with \<open>BadIterator\<close> when the container changes under it.
  Exceptions are values of the \<open>ext\<close> computations of the services and of the packet reader.
  Numbers of accounts, members and messages are 32-bit words. What is not under \<open>src/\<close> is a field of the record \<open>env\<close>: jsoncpp, the UTF-8
  checker, HTTP headers and cookies, the random engine, the configuration, Redis, the SQL clients.

  \<^bold>\<open>The theories.\<close>
  \<^item> \<open>Prelude\<close>, \<open>State\<close>, \<open>Texts\<close>: results, loops, decimal numbers; the records, enumerations,
    the environment and the world; the literals of the sources as bytes.
  \<^item> \<open>Regex\<close> (\<open>regex/regex.cpp\<close>): \<open>regex_split\<close> and \<open>regex_parser\<close> over a leftmost-first
    backtracking matcher for the patterns the program uses; numbers from streams. \<open>Languages\<close>:
    the matcher decides the language of a pattern; nicks and room names.
  \<^item> \<open>Wire\<close> (\<open>packet.cpp\<close>, \<open>packets.cpp\<close>, \<open>algo.cpp\<close>): reading and writing of packets, rooms and
    message texts. \<open>TextFacts\<close>: clean texts; \<open>SaveFacts\<close>: saving and loading rooms;
    \<open>WireFacts\<close>: packets that are written and read again.
  \<^item> \<open>Sending\<close>, \<open>Rooms\<close>, \<open>Clients\<close>, \<open>Registry\<close>, \<open>Manager\<close> (\<open>server.cpp\<close>, \<open>rooms.cpp\<close>, \<open>client.cpp\<close>,
    \<open>clients_manager.hpp\<close>, \<open>utils.hpp\<close>): the operations on the state. \<open>Structure\<close> and \<open>Linking\<close>
    hold the invariant that ties clients, members and rooms together, \<open>Lifecycle\<close> that of the
    manager and its preservation, \<open>RoomFacts\<close> the history, broadcasts and joining.
  \<^item> \<open>Commands\<close> (\<open>commands/\<close>, the processors in \<open>packets.cpp\<close>): the commands and their dispatch.
    \<open>CommandFacts\<close>: they keep the invariant; \<open>CommandSpecs\<close>: the table of rights and the
    arguments; \<open>CommandEffects\<close>: what single commands do.
  \<^item> \<open>Packets\<close>, \<open>Services\<close>, \<open>Auth\<close> (\<open>packets.cpp\<close>, \<open>redis.hpp\<close>, \<open>gate.hpp\<close>, \<open>db.hpp\<close>): the handlers of
    the packets and the outside services, with their connections, reconnections and repeated
    statements. \<open>PacketFacts\<close> and \<open>ServiceFacts\<close> describe them; \<open>Login\<close> says which row of the
    database the credentials of a request prove, and that the client becomes this one and no other.
  \<^item> \<open>Events\<close> (the constructor of \<open>Server\<close>): the handlers of connections and the timer, and the
    step relation of the server. \<open>Handlers\<close> and \<open>Safety\<close>: the invariant \<open>server_inv\<close> of all
    reachable states; \<open>ConnectionFacts\<close>: connections that open, close and come back.
  \<^item> \<open>Sessions\<close>: the abstract machine of sessions, with a clock and with steps that are labelled by
    their causes, and the simulation of it by the server, step by step.
  \<^item> \<open>Chat\<close>: the abstract machine of the chat, which is rooms by name, their rules, the clients in
    them, and who may change what; what an actor without rights leaves alone. \<open>ChatRooms\<close>,
    \<open>ChatCommands\<close> and \<open>ChatEvents\<close>: every command, packet and event of the server as a run of this
    machine, and the simulation.
  \<^item> \<open>Traversal\<close>: one walk through the whole program for every property of rooms and sockets that
    the single steps keep. \<open>RoomInvariants\<close> uses it for what holds of all rooms, of all frames, and
    of the connections they go to. \<open>Joining\<close>: what a client gets that asks to join a room. \<open>Authority\<close>: who can cost whom a
    place in a room.
    \<open>Resuming\<close>: a session that is taken up over a new connection. \<open>EndToEnd\<close>: a message from the
    socket of its sender to the sockets of the room.
  \<^item> \<open>Process\<close> (\<open>wsserver.cpp\<close>, \<open>config.cpp\<close>, \<open>config.hpp\<close>, \<open>server_ws_ex.hpp\<close>): signals, files, the
    configuration, restarts, the timer. \<open>Logging\<close> (\<open>logger.hpp\<close>, \<open>algo.cpp\<close>): the lines of the log
    and their dates.
  \<^item> \<open>Sample\<close> and \<open>Instances\<close>: a concrete environment and worlds on which the properties are
    evaluated; they obey every law that a property asks of the outside.

  \<^bold>\<open>Interfaces.\<close> \<open>room_set\<close> (the four sets of a room), \<open>transition_system\<close> (an invariant of a
  step relation; the server, the machine of sessions and that of the chat), \<open>simulation\<close> (refinement
  of either machine), \<open>steady_keeper\<close> (what everything keeps but regulating a room, making one and
  moving the times), its extensions \<open>quiet_keeper\<close> (the times may move), \<open>ruling_keeper\<close> (rooms may be
  made and regulated), \<open>world_keeper\<close> (both) and \<open>eternal_keeper\<close> (for properties without connections), and
  \<open>room_keeper\<close> (what the updates of a room keep, which gives an \<open>eternal_keeper\<close>) are locales, each
  interpreted on the model. The rights of commands are an instance of \<open>order_bot\<close>.

  \<^bold>\<open>The properties\<close> below say: the invariant of the server and where its behaviour is
  undefined (C1 to C3, C6), the refinement of the machine of the chat (C4) and of the machine of
  sessions (C40), the life of connections and identities (C7 to C9, C11 to C13), who can take a
  client out of a room (C10), rooms, members and history (C14, C15, C17, C18, C27 to C30, C33),
  messages and frames (C5, C16, C31, C32), the reading of commands and their rights (C19 to C25, C39), floods
  (C26), texts (C34, C35), restarts (C36), outside services (C37, C38).

  \<^bold>\<open>Assumptions.\<close> A property names what it needs of the outside: JSON that keeps what it is
  given, a UTF-8 checker as documented, random numbers within their bounds and tokens that do not repeat for ever,
  reachable Redis, that Redis rejects \<open>SETEX\<close> with a wrong number of arguments. Two loops have no bound in the code, the
  searches for an unused token and for an unused member id; they are partial functions, and
  C7 and C17 show that they end. No fuel is used.

  \<^bold>\<open>Fidelity.\<close> Hash sets and maps are lists in order of insertion; the order in which the
  code walks through them is not specified; no property states it but as the order of frames, of the
  entries of a list of members, and (C29) of the list of rooms in the model. Rooms, clients and members are never removed from the stores: a \<open>weak_ptr\<close> of
  the code is never expired where it is used, because a handler holds the object. A fault
  ends a handler with undefined behaviour, after which nothing is claimed; C2 says when there is
  one. The loop of \<open>status_process\<close>, whose body leaves the rooms of the client alone, is a plain fold. Exceptions of \<open>std::regex\<close> for the length of a text or the complexity of a match are
  not modelled, nor are allocation failures; a column of an integer type is read as an integer
  (the exceptions of the SQL clients for a column that is none are not modelled), and a value of Redis
  without a number, which the code reads into an uninitialised variable, counts as 0. Handlers, the timer and signals do not
  interleave (the thread pool has one thread; a signal is taken between two events).

  \<^bold>\<open>Not modelled\<close>: the log lines that the handlers write (the logger itself is modelled); the
  \<open>io_service\<close> that \<open>WebSocketServerEx\<close> makes and the start and stop of the socket library, which is
  not part of the sources; the compilation of a pattern by \<open>regex_match_utf8\<close>, which nothing
  calls; forward declarations, getters that only read a field, and destructors; the vendored
  headers of the MySQL connector; the small experiments \<open>memcached_test\<close>, \<open>mysql_test\<close>,
  \<open>split_test\<close>.
\<close>

section \<open>Sample packets\<close>

definition token_packet :: "string \<Rightarrow> packet_auth" where
  "token_packet tok = \<lparr>pa_sequenceId = None, pa_ukey = [], pa_api_key = [], pa_user_id = 0, pa_name = [],
     pa_password = [], pa_token = tok\<rparr>"

definition greeting :: packet_message where
  "greeting = \<lparr>pm_sequenceId = None, pm_id = [], pm_msgtime = 0, pm_target = ''#lobby'',
     pm_message = ''hi'', pm_color = [], pm_from_login = [], pm_from_id = 0, pm_to_id = 0, pm_style = Sty_message\<rparr>"

section \<open>Properties\<close>

text \<open>
  C1. The invariant of the whole server: in every state that the events (connections
  opening, closing and failing, messages, the timer, the clock, the outside services) can
  lead to from a freshly started server, clients, members and rooms are linked
  consistently, names and nicks are unique, the tables of the clients manager agree with
  its clients, the counters per address are exact and the limits per address hold.
\<close>

theorem reachable_invariant:
  assumes "started w0" and "reachable E w0 w"
  shows "server_inv E w"
  by (rule reachable_inv [OF assms])

theorem reachable_invariant_witness: "server_inv (sample_env (\<lambda>_. None)) one_client"
  by (rule reachable_invariant [OF empty_started
        reachable.step [OF reachable.start sample_step]])

text \<open>
  C2. No undefined behaviour but one: in a reachable state no event makes a handler dereference a
  null pointer (the unchecked results of \<open>findMemberByClient\<close>, the connection of a client) or
  change a container that a loop is walking through (the rooms of a client, the clients of the
  manager). A vector is indexed out of range by one event only, and always by it: a login whose
  credentials lead to a row of the database with a negative group, by which \<open>initUser\<close> indexes the
  colors. So a handler that meets no such row returns or, only in the two retry loops for
  fresh tokens and member ids, runs on.
\<close>

theorem no_undefined_behaviour:
  assumes "started w0" and "reachable E w0 w" and "admissible w ev"
  shows "handle E ev w \<notin> {Inl NullDeref, Inl BadIterator}
    \<and> (handle E ev w = Inl BadIndex \<longleftrightarrow> (\<exists>cn msg c p u. ev = Message cn msg \<and> w_connectionToClient w cn = Some c
          \<and> packet_read E msg = Inr (Some (Packet_Auth p)) \<and> logs_in E c p w u \<and> du_gid u < 0))"
proof -
  have inv: "server_inv E w" by (rule reachable_inv [OF assms(1,2)])
  show ?thesis
    using handle_inv [OF inv assms(3)] handle_bad_index [OF inv assms(3)] unfolding bad_login_def by auto
qed

theorem no_undefined_behaviour_witness:
  "handle (login_env (- 1)) (Message 7 ''login'') one_client = Inl BadIndex
   \<and> handle (login_env 2) (Message 7 ''login'') one_client \<notin> {Inl NullDeref, Inl BadIndex, Inl BadIterator}"
proof -
  have reach: "reachable (login_env g) empty_world one_client" for g
    by (rule reachable.step [OF reachable.start login_step])
  have conn: "w_connectionToClient one_client 7 = Some 0" by (simp add: one_client_sel)
  note safe = no_undefined_behaviour [OF empty_started reach, of "Message 7 ''login''"]
  have "handle (login_env (- 1)) (Message 7 ''login'') one_client = Inl BadIndex"
    using safe [of "- 1"] conn login_frame [of "''login''" "- 1"] carol_logs_in [of "- 1" 0 one_client] by auto
  moreover have "du_gid u = 2" if "logs_in (login_env 2) 0 key_packet one_client u" for u
    using logs_in_unique [OF that carol_logs_in] by simp
  ultimately show ?thesis using safe [of 2] login_frame [of "''login''" 2] conn by fastforce
qed

text \<open>
  C3. Rooms and their members are told apart, in every state that the events can lead to
  from a freshly started server: a registered room is what the server finds under its name; its members belong to different clients and have different ids, none of them zero, and
  different nicks when they have one; each of them is of a client that is there and has the room
  in its list; other rooms have no members.
\<close>

theorem members_told_apart:
  assumes "started w0" and "reachable E w0 w" and "r \<in> set (w_rooms w)"
  shows "server_getRoomByName w (r_name (w_room w r)) = Some r
    \<and> inj_on (\<lambda>m. m_client (w_member w m)) (set (r_members (w_room w r)))
    \<and> inj_on (\<lambda>m. m_id (w_member w m)) (set (r_members (w_room w r)))
    \<and> inj_on (\<lambda>m. m_nick (w_member w m)) {m \<in> set (r_members (w_room w r)). m_nick (w_member w m) \<noteq> []}
    \<and> (\<forall>m \<in> set (r_members (w_room w r)). m_id (w_member w m) \<noteq> 0
        \<and> m_client (w_member w m) \<in> set (w_clients w) \<and> r \<in> set (c_rooms (w_client w (m_client (w_member w m)))))
    \<and> (\<forall>q. q \<notin> set (w_rooms w) \<longrightarrow> r_members (w_room w q) = [])"
proof -
  have chat: "chat_ok w" by (rule server_okD(1) [OF invD(1) [OF reachable_inv [OF assms(1,2)]]])
  note mem = members_okD [OF chat_okD(1) [OF chat]] and ids = chat_okD(2) [OF chat, unfolded ids_ok_def]
  have "inj_on (\<lambda>m. m_client (w_member w m)) (set (r_members (w_room w r)))" by (rule inj_onI) (rule mem(7))
  moreover have "inj_on (\<lambda>m. m_nick (w_member w m)) {m \<in> set (r_members (w_room w r)). m_nick (w_member w m) \<noteq> []}"
    by (auto intro!: inj_onI nicks_okD [OF chat_okD(3) [OF chat]])
  moreover have "server_getRoomByName w (r_name (w_room w r)) = Some r"
    using assms(3) server_getRoomByName_iff chat by (auto simp: chat_ok_iff rooms_ok_def registry_ok_def)
  moreover have "m_client (w_member w m) \<in> set (w_clients w)" if "m \<in> set (r_members (w_room w r))" for m
    using mem(4) [OF that] chat_okD(8) [OF chat] by (force simp: residents_ok_def)
  ultimately show ?thesis using ids mem(4) no_members_unregistered [OF chat] by simp
qed

theorem members_told_apart_witness:
  "\<exists>w m. reachable codec_env hall w \<and> set (r_members (w_room w 0)) = {m} \<and> m_id (w_member w m) \<noteq> 0
     \<and> 0 \<in> set (w_clients w) \<and> server_getRoomByName w (r_name (w_room w 0)) = Some 0"
proof -
  obtain w m where w: "reachable codec_env hall w" "0 \<in> set (w_rooms w)" "set (r_members (w_room w 0)) = {m}" "m_client (w_member w m) = 0"
    by (rule hall_joined)
  from members_told_apart [OF hall_started w(1,2)] w show ?thesis by auto
qed

text \<open>
  C4. The server keeps to the rules of the chat: seen as rooms with their owners, moderators, bans
  and members (at most one per client, with different ids and nicks), every event of the server is
  a run of the machine of the chat, whose only actor is the client that sent the frame, with its
  account and address, or the house, which may only drop clients whose connection was closed or
  who were silent. So whoever acts without rights in a room cannot remove it, cannot change its
  owner, moderators or bans, and nobody else's place, id or nick there.
\<close>

theorem server_refines_chat:
  assumes "server_inv E w" and "handle E ev w = Inr w'"
  shows "sound_chat (chat_of w) \<and> (chat_step (actor_of E w ev))\<^sup>*\<^sup>* (chat_of w) (chat_of w')
    \<and> (\<forall>nm rm. chat_of w nm = Some rm \<and> harmless (actor_of E w ev) rm \<longrightarrow>
        (\<exists>rm'. chat_of w' nm = Some rm' \<and> undisturbed (reaches (actor_of E w ev)) rm rm'))"
proof -
  have "(chat_step (actor_of E w ev))\<^sup>*\<^sup>* (chat_of w) (chat_of w')"
    using follows_handle [OF assms] by (simp add: follows_def)
  with sound_chat_of [OF server_okD(1) [OF invD(1) [OF assms(1)]]] show ?thesis
    by (blast intro: undisturbed_run)
qed

theorem server_refines_chat_witness:
  "\<exists>w' rm. on_message codec_env 8 (wire codec_env (leave_packet ''#lobby'')) chat_world = Inr w'
     \<and> (chat_step (Visitor 1 0 sample_ip))\<^sup>*\<^sup>* (chat_of chat_world) (chat_of w')
     \<and> chat_of w' ''#lobby'' = Some rm \<and> undisturbed {1} (chat_room_of chat_world 0) rm"
proof -
  let ?msg = "wire codec_env (leave_packet ''#lobby'')"
  have bob: "actor_of codec_env chat_world (Message 8 ?msg) = Visitor 1 0 sample_ip" by (simp add: chat_sel)
  have room: "chat_of chat_world ''#lobby'' = Some (chat_room_of chat_world 0)"
    by (simp add: chat_of_def server_getRoomByName_def chat_sel)
  have "\<not> privileged chat_world 0 1" by (simp add: privileged_def client_isAdmin_def room_isModerator_def Let_def chat_sel)
  then have safe: "harmless (Visitor 1 0 sample_ip) (chat_room_of chat_world 0)"
    by (simp add: moderates_privileged chat_sel)
  let ?w = "upd_client 1 (\<lambda>cl. cl\<lparr>c_lastPacketTime := w_now chat_world\<rparr>) chat_world"
  have "members_ok ?w"
    using inv_members [OF codec_inv] by (simp add: members_ok_cong [OF view_upd_client] client_view_def)
  then obtain v where "client_leaveRoom codec_env 1 0 ?w = Inr v"
    using client_leaveRoom_in [of ?w 0 1 codec_env] by (auto simp: chat_sel)
  moreover have "client_getRoomByName ?w 1 ''#lobby'' = Some 0" by (simp add: client_getRoomByName_def chat_sel)
  ultimately obtain w' where run: "on_message codec_env 8 ?msg chat_world = Inr w'"
    using on_message_packet [OF codec_laws, of "leave_packet ''#lobby''" chat_world 8 1]
    by (simp add: leave_packet_def packet_leave_new_def leave_process_def chat_sel)
  then have "handle codec_env (Message 8 ?msg) chat_world = Inr w'" by simp
  from server_refines_chat [OF codec_inv this] run room safe show ?thesis
    unfolding bob by auto
qed

text \<open>
  C5. Only live connections are written to: whatever a handler sends or closes, in one event, goes
  to a connection that had a client before the event or to the one that has just opened. So
  nothing is sent any more to a connection that has lost its client.
\<close>

theorem sends_to_live_connections:
  assumes "server_inv E w" and "handle E ev w = Inr w'"
  shows "\<exists>new. w_out w' = w_out w @ new \<and> sent_to ` set new \<subseteq> dom (w_connectionToClient w) \<union> opened ev"
  by (rule handle_sends [OF assms])

theorem sends_to_live_connections_witness:
  "\<exists>w' new. handle (sample_env (\<lambda>_. None)) Timer chat_world = Inr w'
    \<and> w_out w' = w_out chat_world @ new \<and> sent_to ` set new \<subseteq> dom (w_connectionToClient chat_world)"
proof -
  obtain w' where w': "handle (sample_env (\<lambda>_. None)) Timer chat_world = Inr w'"
    using on_tick_inv [OF chat_world_inv [of "\<lambda>_. None"]] by auto
  from sends_to_live_connections [OF chat_world_inv w'] w' show ?thesis by auto
qed

text \<open>
  C6. The counters are exact and the limits hold: in every reachable state the counter of
  an address gives the number of its clients and of its connections, and an address has at
  most five of either.
\<close>

theorem counters_exact:
  assumes "started w0" and "reachable E w0 w"
  shows "counter_at ip (w_countersFromIp w) =
      \<lparr>ct_connections = int (length (filter (\<lambda>c. c_lastClientIP (w_client w c) = ip
           \<and> c_connection (w_client w c) \<noteq> None) (w_clients w))),
       ct_clients = int (length (filter (\<lambda>c. c_lastClientIP (w_client w c) = ip) (w_clients w)))\<rparr>
    \<and> length (filter (\<lambda>c. c_lastClientIP (w_client w c) = ip) (w_clients w)) \<le> 5"
proof -
  have inv: "server_inv E w" by (rule reachable_inv [OF assms])
  have "clients_at w ip \<le> 5" using invD(2) [OF inv] by (simp add: limits_ok_def maxClientsFromIp_def)
  with counts_exact_at [OF server_okD(3) [OF invD(1) [OF inv]], of ip] show ?thesis
    by (simp add: counts_def clients_at_def connections_at_def at_ip_def [abs_def] conn_at_ip_def [abs_def])
qed

theorem counters_exact_witness:
  "counter_at sample_ip (w_countersFromIp one_client) = \<lparr>ct_connections = 1, ct_clients = 1\<rparr>"
  using counters_exact [OF empty_started
      reachable.step [OF reachable.start sample_step], of sample_ip]
  by (simp add: one_client_sel)

text \<open>
  C7. A new connection is decided: when its address has five connections it is closed and nothing
  else happens; otherwise the handler returns, and the connection belongs to a new guest with the
  address of the connection, no rooms and a token of 64 letters and digits that leads to this
  client only. No other client is lost, but when the address already has five clients exactly one
  goes, and that one has no connection. (The random numbers must keep to their bounds and not
  repeat tokens in use forever.)
\<close>

theorem connection_decided:
  assumes "server_inv E w" and "w_connectionToClient w cn = None" and "fresh_tokens E w"
  shows "if connections_at w (getRealClientIp E cn) \<ge> 5 then on_open E cn w = Inr (w\<lparr>w_out := w_out w @ [Send_close cn]\<rparr>)
    else \<exists>w' gone. on_open E cn w = Inr w' \<and> accepted E cn w w'
      \<and> set (w_clients w') = insert (w_nextClient w) (set (w_clients w) - set_option gone)
      \<and> (case gone of None \<Rightarrow> clients_at w (getRealClientIp E cn) < 5
         | Some c \<Rightarrow> c \<in> set (w_clients w) \<and> c_connection (w_client w c) = None
             \<and> c_lastClientIP (w_client w c) = getRealClientIp E cn)"
proof (cases "connections_at w (getRealClientIp E cn) \<ge> 5")
  case True
  with open_refused [OF assms(1) True] show ?thesis by (simp add: closeConnection_def)
next
  case False
  let ?gone = "if clients_at w (getRealClientIp E cn) \<ge> 5 then oldest_orphan w (getRealClientIp E cn) else None"
  have set: "evicted E cn w = set_option ?gone" by (auto simp: evicted_def set_eq_iff)
  obtain w' where w': "on_open E cn w = Inr w'" "accepted E cn w w'"
    "set (w_clients w') = insert (w_nextClient w) (set (w_clients w) - set_option ?gone)"
    "clients_at w (getRealClientIp E cn) \<ge> 5 \<longrightarrow> set_option ?gone \<noteq> {}"
    using open_accepted [OF assms] False unfolding set not_le by blast
  have "case ?gone of None \<Rightarrow> clients_at w (getRealClientIp E cn) < 5
     | Some c \<Rightarrow> c \<in> set (w_clients w) \<and> c_connection (w_client w c) = None
         \<and> c_lastClientIP (w_client w c) = getRealClientIp E cn"
    using w'(4) evicted_orphan [of _ E cn w] unfolding set by (auto split: option.split)
  with w' False show ?thesis unfolding if_not_P [OF False] by blast
qed

theorem connection_decided_witness:
  "(\<exists>w'. on_open (sample_env (\<lambda>_. None)) 9 chat_world = Inr w' \<and> findClientByConnection w' 9 = Some 2)
   \<and> on_open (sample_env (\<lambda>_. None)) 9 crowd = Inr (crowd\<lparr>w_out := [Send_close 9]\<rparr>)"
proof -
  have few: "\<not> connections_at chat_world (getRealClientIp (sample_env (\<lambda>_. None)) 9) \<ge> 5"
    using chat_world_counts [of sample_ip] by (simp add: counts_def sample_ip_of)
  have many: "connections_at crowd (getRealClientIp (sample_env (\<lambda>_. None)) 9) \<ge> 5"
    using crowd_counts [of sample_ip] by (simp add: counts_def sample_ip_of)
  have new: "w_connectionToClient chat_world 9 = None" "w_nextClient chat_world = 2" "w_connectionToClient crowd 9 = None"
    by (simp_all add: chat_world_def crowd_def)
  obtain w' where "on_open (sample_env (\<lambda>_. None)) 9 chat_world = Inr w'"
    "accepted (sample_env (\<lambda>_. None)) 9 chat_world w'"
    using connection_decided [OF chat_world_inv [of "\<lambda>_. None"] new(1) chat_world_tokens] unfolding if_not_P [OF few] by blast
  moreover have "on_open (sample_env (\<lambda>_. None)) 9 crowd = Inr (crowd\<lparr>w_out := w_out crowd @ [Send_close 9]\<rparr>)"
    using connection_decided [OF crowd_inv [of "\<lambda>_. None"] new(3) crowd_tokens] unfolding if_P [OF many] .
  moreover have "w_out crowd = []" by (simp add: crowd_def empty_world_def)
  ultimately show ?thesis using new(2) by (auto simp: accepted_def Let_def)
qed

text \<open>
  C8. A session survives its connection: when the connection of a client is lost (status neither
  1000 nor 1001) and a new connection, from an address with fewer than five clients, sends a frame
  with the token of this client, then each of the three events is handled and in the end the client
  has the new connection, its account, its name, its rooms and in every room its member, with the
  id and the nick; the server has the same clients as before. (Redis must be reachable, and the
  random source as in C7.)
\<close>

theorem session_resumed:
  assumes "server_inv E w" and "w_connectionToClient w cn = Some t"
    and "stat \<noteq> 1000" and "stat \<noteq> 1001" and "w_connectionToClient w cn2 = None" and "fresh_tokens E w"
    and "clients_at w (getRealClientIp E cn2) < 5" and "packet_read E msg = Inr (Some (Packet_Auth p))"
    and "redis_up E" and "pa_token p = c_token (w_client w t)" and "pa_token p \<noteq> []"
  shows "\<exists>w1 w2 w3. handle E (Closed cn stat) w = Inr w1 \<and> handle E (Opened cn2) w1 = Inr w2
    \<and> handle E (Message cn2 msg) w2 = Inr w3 \<and> server_inv E w3
    \<and> c_connection (w_client w1 t) = None \<and> findClientByConnection w3 cn2 = Some t
    \<and> c_connection (w_client w3 t) = Some cn2 \<and> set (w_clients w3) = set (w_clients w)
    \<and> c_rooms (w_client w3 t) = c_rooms (w_client w t) \<and> membership w3 = membership w \<and> identity w3 t = identity w t"
  by (rule resume_session [OF assms])

theorem session_resumed_witness:
  "\<exists>w1 w2 w3. handle codec_env (Closed 7 1006) chat_world = Inr w1 \<and> handle codec_env (Opened 9) w1 = Inr w2
    \<and> handle codec_env (Message 9 (wire codec_env (Packet_Auth (token_packet ''A'')))) w2 = Inr w3
    \<and> findClientByConnection w3 9 = Some 0 \<and> r_members (w_room w3 0) = [0, 1]"
proof -
  have msg: "packet_read codec_env (wire codec_env (Packet_Auth (token_packet ''A''))) = Inr (Some (Packet_Auth (token_packet ''A'')))"
    using packet_round_trip [OF codec_laws, of "Packet_Auth (token_packet ''A'')"] by (simp add: token_packet_def)
  have conns: "w_connectionToClient chat_world 7 = Some 0" "w_connectionToClient chat_world 9 = None"
    and token: "pa_token (token_packet ''A'') = c_token (w_client chat_world 0)" "pa_token (token_packet ''A'') \<noteq> []"
    by (simp_all add: sample_defs token_packet_def)
  have few: "clients_at chat_world (getRealClientIp codec_env 9) < 5"
    using chat_world_counts [of sample_ip] by (simp add: counts_def codec_outside(3))
  obtain w1 w2 w3 where run: "handle codec_env (Closed 7 1006) chat_world = Inr w1"
    "handle codec_env (Opened 9) w1 = Inr w2"
    "handle codec_env (Message 9 (wire codec_env (Packet_Auth (token_packet ''A'')))) w2 = Inr w3"
    "findClientByConnection w3 9 = Some 0" "membership w3 = membership chat_world"
    using session_resumed [OF codec_inv conns(1) _ _ conns(2) codec_outside(2) few msg codec_outside(1) token, of 1006]
    by auto
  from run(5) have "r_members (w_room w3 0) = r_members (w_room chat_world 0)" by (simp add: membership_def fun_eq_iff)
  with run(1-4) show ?thesis by (auto simp: chat_sel)
qed

text \<open>
  C9. A connection that ends is dealt with by how it ends: closed in order (status 1000 or
  1001), its client is removed: it is no longer a client, has no rooms, no room has a member
  of it, and the other clients stay. Otherwise, or after an error, its client is an orphan:
  it stays a client without a connection, keeps its rooms and its token, and every room
  keeps its members.
\<close>

theorem close_decided:
  assumes "server_inv E w" and "w_connectionToClient w cn = Some c"
  shows "\<exists>w'. on_close E cn stat w = Inr w' \<and> server_inv E w' \<and>
    (if stat = 1000 \<or> stat = 1001
     then set (w_clients w') = set (w_clients w) - {c} \<and> c_rooms (w_client w' c) = []
       \<and> (\<forall>r. \<forall>m \<in> set (r_members (w_room w' r)). m_client (w_member w' m) \<noteq> c)
     else on_error E cn w = Inr w' \<and> c \<in> set (w_clients w') \<and> c_connection (w_client w' c) = None
       \<and> findClientByConnection w' cn = None \<and> findClientByToken w' (c_token (w_client w c)) = Some c
       \<and> (\<forall>d. c_rooms (w_client w' d) = c_rooms (w_client w d))
       \<and> (\<forall>r. r_members (w_room w' r) = r_members (w_room w r)))"
proof (cases "stat = 1000 \<or> stat = 1001")
  case True
  then show ?thesis using close_leaves [OF assms True] by auto
next
  case False
  then show ?thesis using close_orphans [OF assms, of stat] by auto
qed

theorem close_decided_witness:
  "(\<exists>w'. on_close (sample_env (\<lambda>_. None)) 7 1000 chat_world = Inr w' \<and> set (w_clients w') = {1})
   \<and> (\<exists>w'. on_close (sample_env (\<lambda>_. None)) 7 1006 chat_world = Inr w' \<and> findClientByToken w' ''A'' = Some 0)"
proof -
  have "w_connectionToClient chat_world 7 = Some 0" by (simp add: chat_world_def)
  note decided = close_decided [OF chat_world_inv [of "\<lambda>_. None"] this]
  show ?thesis using decided [of 1000] decided [of 1006] by (auto simp: chat_sel)
qed

text \<open>
  C10. Nobody loses a place without a cause: when an event of the server takes a client out of
  a room, then a frame came from the client itself or from one who is privileged in this
  room (administrator, owner or moderator), or the client's connection was closed in order, or
  the client was not heard of for more than five minutes, or it was an orphan that made way
  for a new connection from its address, which had five clients and fewer than five
  connections. An error of a connection, the clock and the services take no place.
\<close>

theorem places_lost_for_cause:
  assumes "server_inv E w" and "admissible w ev" and "handle E ev w = Inr w'"
    and "r \<in> set (c_rooms (w_client w d))" and "r \<notin> set (c_rooms (w_client w' d))"
  shows "case ev of
      Opened cn \<Rightarrow> let ip = getRealClientIp E cn in c_connection (w_client w d) = None
        \<and> c_lastClientIP (w_client w d) = ip \<and> connections_at w ip < 5 \<and> clients_at w ip = 5
    | Message cn msg \<Rightarrow> \<exists>c. w_connectionToClient w cn = Some c \<and> (c = d \<or> privileged w r c)
    | Closed cn stat \<Rightarrow> (stat = 1000 \<or> stat = 1001) \<and> w_connectionToClient w cn = Some d
    | Timer \<Rightarrow> w_now w - c_lastPacketTime (w_client w d) > 300
    | _ \<Rightarrow> False"
  by (rule lost_place [OF assms])

theorem places_lost_for_cause_witness:
  "\<exists>w'. on_message codec_env 7 (wire codec_env (Packet_RemoveRoom (drop_room ''#lobby''))) chat_world = Inr w'
     \<and> 0 \<in> set (c_rooms (w_client chat_world 1)) \<and> 0 \<notin> set (c_rooms (w_client w' 1)) \<and> privileged chat_world 0 0"
proof -
  let ?p = "drop_room ''#lobby''" and ?w = "upd_client 0 (\<lambda>cl. cl\<lparr>c_lastPacketTime := 1000\<rparr>) chat_world"
  have v: "view ?w = view chat_world" by (simp add: view_upd_client client_view_def)
  have ok: "chat_ok ?w" using server_okD(1) [OF server_ok_view [OF v invD(1) [OF codec_inv]]] .
  have "pr_target ?p = ''#lobby''" "server_getRoomByName ?w ''#lobby'' = Some 0"
    by (simp_all add: drop_room_def server_getRoomByName_def chat_sel)
  then obtain w' where w': "remove_room_process codec_env 0 ?p ?w = Inr w'" "\<forall>d. 0 \<notin> set (c_rooms (w_client w' d))"
    using remove_room_done [OF ok, of 0 ?p 0 codec_env] by (auto simp: client_isGuest_def chat_sel)
  then have run: "handle codec_env (Message 7 (wire codec_env (Packet_RemoveRoom ?p))) chat_world = Inr w'"
    using on_message_packet [OF codec_laws, of "Packet_RemoveRoom ?p" chat_world 7 0] by (simp add: chat_sel)
  have "0 \<in> set (c_rooms (w_client chat_world 1))" by (simp add: chat_sel)
  then have "privileged chat_world 0 0"
    using places_lost_for_cause [OF codec_inv _ run, of 0 1] w'(2) by (simp add: chat_sel)
  with run w'(2) show ?thesis by (auto simp: chat_sel)
qed

text \<open>
  C11. The timer: it always returns and is armed again, for thirty seconds later; the
  clients that are left are those that were heard of in the last five minutes, and those of
  them that were silent for more than 150 seconds have no connection any more.
\<close>

theorem timer_cleans_up:
  assumes "server_inv E w"
  shows "\<exists>w'. on_timer E False t w = Inr (Some (t + 30000), w') \<and> on_tick E w = Inr w' \<and> server_inv E w'
    \<and> set (w_clients w') = {c \<in> set (w_clients w). w_now w - c_lastPacketTime (w_client w c) \<le> 300}
    \<and> (\<forall>c \<in> set (w_clients w'). w_now w - c_lastPacketTime (w_client w c) > 150 \<longrightarrow>
         c_connection (w_client w' c) = None)"
  using on_tick_inv [OF assms]
  by (auto simp: on_timer_def runWithInterval_handler_def pingInterval_def seen_def orphanTimeout_def connectTimeout_def)

theorem timer_cleans_up_witness:
  "\<exists>w'. on_tick (sample_env (\<lambda>_. None)) (one_client\<lparr>w_now := 1400\<rparr>) = Inr w' \<and> w_clients w' = []"
proof -
  have "server_inv (sample_env (\<lambda>_. None)) (one_client\<lparr>w_now := 1400\<rparr>)"
    by (rule inv_outside(1)) (rule reachable_inv [OF empty_started
        reachable.step [OF reachable.start sample_step]])
  from timer_cleans_up [OF this, of 0] obtain w' where
    w': "on_tick (sample_env (\<lambda>_. None)) (one_client\<lparr>w_now := 1400\<rparr>) = Inr w'"
    "set (w_clients w') = {c \<in> {0}. 1400 - c_lastPacketTime (w_client one_client c) \<le> 300}"
    by (auto simp: one_client_sel)
  have "set (w_clients w') = {}" unfolding w'(2) by (auto simp: one_client_sel)
  with w'(1) show ?thesis by simp
qed

text \<open>
  C12. Coming back: a client that logs in with the token of another client hands its
  connection to that client and disappears; the revived client has the connection and its
  address, is in the same rooms as before, and the state of the server stays consistent.
  (Redis must be reachable.)
\<close>

theorem token_revives_client:
  assumes "server_ok E w" and "c \<in> set (w_clients w)" and "c_connection (w_client w c) = Some cn"
    and "findClientByToken w (pa_token p) = Some t" and "t \<noteq> c" and "pa_token p \<noteq> []"
    and "bindX (redis_new E) (\<lambda>_. redis_new E) (w_ext w) = (Inr (), x)"
  shows "\<exists>w'. auth_process E c p w = Inr w' \<and> server_ok E w'
    \<and> findClientByConnection w' cn = Some t \<and> c_connection (w_client w' t) = Some cn
    \<and> set (w_clients w') = set (w_clients w) - {c} \<and> c_rooms (w_client w' c) = []
    \<and> c_rooms (w_client w' t) = c_rooms (w_client w t)
    \<and> c_lastClientIP (w_client w' t) = getRealClientIp E cn"
proof -
  have "revive_target w c p = Some t" using assms(4-6) by (simp add: revive_target_def)
  from revive_effect [OF assms(1-3) this assms(7)] show ?thesis .
qed

theorem token_revives_client_witness:
  "\<exists>w'. auth_process (sample_env (\<lambda>_. None)) 1 (token_packet ''A'') chat_world = Inr w'
     \<and> findClientByConnection w' 8 = Some 0"
proof -
  have "1 \<in> set (w_clients chat_world)" "c_connection (w_client chat_world 1) = Some 8"
    "findClientByToken chat_world (pa_token (token_packet ''A'')) = Some 0"
    by (simp_all add: sample_defs findClientByToken_def token_packet_def)
  from token_revives_client [OF invD(1) [OF chat_world_inv] this _ _ sample_redis, of "\<lambda>_. None"] show ?thesis
    by (auto simp: token_packet_def)
qed

text \<open>
  C13. Identities come from the database: a login request changes the account or the name of
  nobody but the client it comes from, and of that client just when its credentials prove an
  account; then the client has the account number and the login of the row for it. The one-time
  key, else the API key, else the session of the cookie (without a login and password) names the
  account, whose row is fetched in the state of the services after that; if none is named, the row
  is the one for the login and password. An API key or a password only counts while the gate is open.
\<close>

theorem identity_from_database:
  assumes "auth_process E c p w = Inr w'"
  shows "(\<forall>u. logs_in E c p w u \<longrightarrow> identity w' = (identity w)(c := (word_of_int (du_uid u), du_login u)))
    \<and> ((\<nexists>u. logs_in E c p w u) \<longrightarrow> identity w' = identity w)"
  using auth_identity [OF assms] unfolding becomes_def by blast

theorem identity_from_database_witness:
  "\<exists>w'. auth_process (login_env 1) 1 key_packet chat_world = Inr w' \<and> identity w' 1 = (7, ''carol'')
     \<and> identity w' 0 = (5, ''alice'')"
proof -
  obtain w' where run: "auth_process (login_env 1) 1 key_packet chat_world = Inr w'"
    using logs_in_runs [OF carol_logs_in [of 1 1 chat_world]] by auto
  from identity_from_database [OF run] carol_logs_in [of 1 1 chat_world]
  have "identity w' = (identity chat_world)(1 := (7, ''carol''))" by force
  then have "identity w' 1 = (7, ''carol'')" "identity w' 0 = identity chat_world 0" by simp_all
  with run show ?thesis by (auto simp: identity_def chat_sel alice_def)
qed

text \<open>
  C14. A broadcast reaches every connected member of the room exactly once, and nobody
  else: what it adds to the output are sends of the packet's text, one to the connection
  of each member that has one.
\<close>

theorem broadcast_reaches_members_once:
  assumes "server_ok E w"
  shows "\<exists>sends. w_out (sendPacketToAll E r p w) = w_out w @ sends
    \<and> (\<forall>s \<in> set sends. \<exists>cn. s = Send cn (wire E p))
    \<and> (\<forall>cn. count_list sends (Send cn (wire E p)) =
        (if \<exists>m \<in> set (r_members (w_room w r)). c_connection (w_client w (m_client (w_member w m))) = Some cn
         then 1 else 0))"
  by (rule broadcast_once [OF assms])

theorem broadcast_reaches_members_once_witness:
  "\<exists>sends. w_out (sendPacketToAll (sample_env (\<lambda>_. None)) 0 (Packet_Ping None) chat_world) = sends
     \<and> count_list sends (Send 8 (wire (sample_env (\<lambda>_. None)) (Packet_Ping None))) = 1"
  using broadcast_reaches_members_once [OF invD(1) [OF chat_world_inv], of "\<lambda>_. None" 0 "Packet_Ping None"]
  by (auto simp: chat_sel)

text \<open>
  C15. The history is bounded: when a packet is sent to a room, a public message is appended to
  its history, and the oldest entries go until the configured number is left; a private
  message and a packet of any other type leave it as it is, and so does every packet the
  histories of other rooms. But a negative number is no limit, since the size is compared with
  its conversion to an unsigned one: nothing is ever removed then.
\<close>

theorem history_bounded:
  assumes "- (2 ^ 31) \<le> e_maxHistory E" and "e_maxHistory E < 2 ^ 31"
    and "length (r_history (w_room w r)) < 2 ^ 63"
  shows "let old = r_history (w_room w r); w' = sendPacketToAll E r p w
    in r_history (w_room w' r) = (case p of
        Packet_Message q \<Rightarrow>
          if pm_to_id q \<noteq> 0 then old
          else if e_maxHistory E < 0 then old @ [wire E p]
          else drop (Suc (length old) - nat (e_maxHistory E)) (old @ [wire E p])
      | _ \<Rightarrow> old)
    \<and> (\<forall>q. q = r \<or> r_history (w_room w' q) = r_history (w_room w q))"
proof -
  have other: "r_history (w_room (sendPacketToAll E r p w) q) = r_history (w_room w q)" if "q \<noteq> r" for q
    using that by (simp add: sendPacketToAll_eq addToHistory_def split: packet.split)
  have "r_history (w_room (sendPacketToAll E r p w) r) = r_history (w_room w r)" if "\<forall>q. p \<noteq> Packet_Message q"
    using that by (cases p) (simp_all add: sendPacketToAll_eq addToHistory_def)
  moreover have "r_history (w_room (sendPacketToAll E r (Packet_Message q) w) r) =
      (if pm_to_id q \<noteq> 0 then r_history (w_room w r)
       else if e_maxHistory E < 0 then r_history (w_room w r) @ [wire E (Packet_Message q)]
       else drop (Suc (length (r_history (w_room w r))) - nat (e_maxHistory E))
              (r_history (w_room w r) @ [wire E (Packet_Message q)]))" for q
  proof (cases "e_maxHistory E < 0")
    case True
    then show ?thesis
      using history_limit_negative [OF assms(1) True] assms(3) by (simp add: history_after_broadcast)
  next
    case False
    then show ?thesis
      unfolding history_after_broadcast using history_limit_nonneg [OF _ assms(2)] by auto
  qed
  ultimately show ?thesis using other by (cases p) (auto simp: Let_def)
qed

theorem history_bounded_witness:
  "length (r_history (w_room (sendPacketToAll (sample_env (\<lambda>_. None)) 0
     (Packet_Message (message_packet chat_world 0 ''hi'')) chat_world) 0)) \<le> 2"
  using history_bounded [of "sample_env (\<lambda>_. None)" chat_world 0 "Packet_Message (message_packet chat_world 0 ''hi'')"]
  by (simp add: chat_sel Let_def) (simp add: sample_env_def message_packet_def Let_def)

text \<open>
  C16. Packets come through: what the server writes for a packet, it reads as a packet of this
  type, with its sequence id (but for the list of members, of which that is not read) and its
  target (but for errors and system messages, of which that is not read). Of the other members
  it reads those a client may set (the text of a message, cleaned, its addressee and time, the
  token, the status); all others are those of a frame without them. (For a JSON library that keeps
  what it is given.)
\<close>

theorem packets_come_through:
  assumes "wire_laws E" and "in_range p"
  shows "packet_read E (wire E p) = Inr (Some (received E p))
    \<and> type_of_packet (received E p) = type_of_packet p
    \<and> packet_seq (received E p) = (if type_of_packet p = PT_online_list then None else packet_seq p)
    \<and> packet_target (received E p) = (if type_of_packet p = PT_error \<or> type_of_packet p = PT_system then [] else packet_target p)"
  using packet_round_trip [OF assms] by (cases p) simp_all

theorem packets_come_through_witness:
  "packet_read codec_env (wire codec_env (Packet_Leave \<lparr>pl_sequenceId = Some 3, pl_target = ''#lobby''\<rparr>)) =
     Inr (Some (Packet_Leave \<lparr>pl_sequenceId = Some 3, pl_target = ''#lobby''\<rparr>))"
  using packets_come_through [OF codec_laws, of "Packet_Leave \<lparr>pl_sequenceId = Some 3, pl_target = ''#lobby''\<rparr>"]
  by simp

text \<open>
  C17. The numbering of members ends and is fresh: unless a room has as many members as
  there are 32-bit numbers but zero, the search for the next member id returns, and the id
  is not zero and not the id of a member of the room.
\<close>

theorem member_ids_fresh:
  assumes "length (r_members (w_room w r)) < 2 ^ 32 - 1"
  shows "\<exists>i. genNextMemberId r w = Inr (i, upd_room r (\<lambda>rm. rm\<lparr>r_nextMemberId := i\<rparr>) w)
    \<and> i \<noteq> 0 \<and> (\<forall>m \<in> set (r_members (w_room w r)). m_id (w_member w m) \<noteq> i)"
  using genNextMemberId_total [OF assms] genNextMemberId_fresh by blast

theorem member_ids_fresh_witness:
  "\<exists>i w'. genNextMemberId 0 chat_world = Inr (i, w') \<and> i \<noteq> 0 \<and> i \<noteq> 1 \<and> i \<noteq> 2"
  using member_ids_fresh [of chat_world 0] by (auto simp: chat_sel)

text \<open>
  C18. Who may join: joining is refused because of the address, or else because of the
  account, if the room bans it and the client is neither administrator (account 1 or 2) nor
  owner nor moderator of the room; otherwise the client gets a new member.
\<close>

theorem joining_decided_by_bans:
  assumes "members_ok w" and "client_joinRoom c r w = Inr (res, w')"
  shows "res = (if \<not> privileged w r c \<and> c_lastClientIP (w_client w c) \<in> set (r_bannedIps (w_room w r))
                then Inl BannedByIPException
                else if \<not> privileged w r c \<and> c_uid (w_client w c) \<in> set (r_bannedUids (w_room w r))
                then Inl BannedByIDException
                else Inr (Some (w_nextMember w)))"
  by (rule client_joinRoom_verdict [OF assms])

theorem joining_decided_by_bans_witness: "\<exists>w'. client_joinRoom 2 0 chat_world = Inr (Inr (Some 2), w')"
proof -
  obtain res w' where join: "client_joinRoom 2 0 chat_world = Inr (res, w')"
    using client_joinRoom_total [of chat_world 0 2] by (auto simp: chat_sel)
  from joining_decided_by_bans [OF chat_okD(1) [OF chat_world_chat] join] join show ?thesis
    by (simp add: chat_sel)
qed

text \<open>
  C19. Commands need rights: a text that begins with a slash is taken as a command; if
  there is a command of the name that follows and the member holds the right it requires
  (by the table of rights) the command runs, and otherwise the member is told that there is
  no such command and nothing else happens. The rights are decided by one rank of the member
  (administrator, owner, moderator, account, in this order, each with the rights of the lower
  ones) and by whether it has a nick. The command finds its arguments after the name and the
  blanks.
\<close>

theorem commands_need_rights:
  "processCommand E m r (CHR ''/'' # s) w = Some
     (let bad = member_sendPacket E m (sys_packet (r_name (w_room w r)) txt_no_command) w
      in case command_named (first_word s) of
           None \<Rightarrow> bad
         | Some c \<Rightarrow> if holds_right w m (required c)
                    then command_process E c m (command_parser (CHR ''/'' # s)) w else bad)
   \<and> (\<forall>q. holds_right w m q = (if q = NickHolder then member_hasNick w m else q \<le> rank w m))
   \<and> (first_word s = [] \<or> at_arguments (after_word s) (command_parser (CHR ''/'' # s)))"
  using processCommand_words(1) [OF refl, of E m r s w] processCommand_words(2) [OF refl, of s] holds_right_rank [of w m]
  by blast

text \<open>
  C20. Commands stay in their room: whatever command a member runs, the other rooms and the
  list of rooms stay as they are, the room keeps its name and owner, and unless the member
  is an administrator the ban lists of the room do not grow beyond 101 entries and the list
  of moderators not beyond 11.
\<close>

theorem commands_confined:
  "let r = m_room (w_member w m); old = w_room w r; w' = command_process E c m p w; new = w_room w' r
   in w_rooms w' = w_rooms w \<and> (\<forall>q. w_room w' q = (if q = r then new else w_room w q))
    \<and> r_name new = r_name old \<and> r_ownerId new = r_ownerId old
    \<and> (member_isAdmin w m \<or>
         length (r_bannedNicks new) \<le> max (length (r_bannedNicks old)) 101
       \<and> length (r_bannedIps new) \<le> max (length (r_bannedIps old)) 101
       \<and> length (r_bannedUids new) \<le> max (length (r_bannedUids old)) 101
       \<and> length (r_moderators new) \<le> max (length (r_moderators old)) 11)"
  using command_confined [of w m E c p]
  by (auto simp: confined_def bounded_growth_def ban_limit_def moder_limit_def Let_def)

text \<open>
  C21. Nicks: the nick command changes at most the member's own nick, and changes it to the
  cleaned argument just when that is empty, or is valid (1 to 24 ASCII letters, digits,
  minus, underscore, dot, blank or Russian letters) and no member of the room has it, and
  when the member may ignore bans or the nick is not banned.
\<close>

theorem nick_command_changes_nick:
  "w_member (cmd_nick_process E m p w) =
     (let n = clean_nick (parser_suffix p)
      in if may_take_nick w m n then (w_member w)(m := (w_member w m)\<lparr>m_nick := n\<rparr>) else w_member w)"
  by (rule nick_command_member)

text \<open>
  C22. The pattern of nicks and the pattern of room names accept what they are meant to: a
  nick is 1 to 24 letters (in ASCII or UTF-8) and a room name is a number sign and 3 to 24
  of its characters. (The back-tracking matcher agrees with the language of the pattern.)
\<close>

theorem name_patterns:
  "(regex_match s r_login \<longleftrightarrow> valid_nick s) \<and> (regex_match s rx_room_name \<longleftrightarrow> valid_room_name s)"
  by (simp add: nick_shape valid_nick_def room_name_shape valid_room_name_def)

text \<open>
  C23. The parser takes a command line apart: for a pattern that is anchored at the start (as
  those of the commands are), \<open>next\<close> succeeds just when something is left and a text of the
  pattern's language stands at its start. Then it takes such a text off, which \<open>read(0)\<close> gives,
  and \<open>suffix\<close> and the next call see what is behind it. Otherwise nothing is taken, and the parser
  is as before when nothing was left, and not valid when the pattern failed.
\<close>

theorem parser_takes_tokens:
  assumes "anchor_free r"
  shows "let p' = snd (parser_next (Seq Bol r) p); s = rp_next_input p
    in (fst (parser_next (Seq Bol r) p) \<longleftrightarrow> s \<noteq> [] \<and> (\<exists>u \<in> rx_lang r. prefix u s))
    \<and> (if fst (parser_next (Seq Bol r) p)
       then (\<exists>u \<in> rx_lang r. s = u @ rp_next_input p' \<and> parser_read 0 p' = Some u)
          \<and> parser_suffix p' = rp_next_input p'
       else rp_next_input p' = s \<and> (if s = [] then p' = p else \<not> parser_valid p'))"
  using parser_next_anchored [OF assms, of p] by (auto simp: Let_def parser_valid_def)

theorem parser_takes_tokens_witness:
  "parser_read 0 (snd (parser_next (Seq Bol (rx_plus (Cls is_digit))) (parser_new ''7 up''))) = Some ''7''
   \<and> \<not> fst (parser_next (Seq Bol (rx_plus (Cls is_digit))) (parser_new ''up''))"
proof -
  let ?r = "rx_plus (Cls is_digit)"
  have free: "anchor_free ?r" by (simp add: rx_plus_def)
  have lang: "u \<in> rx_lang ?r \<longleftrightarrow> u \<noteq> [] \<and> list_all is_digit u" for u
    by (cases u) (auto simp: rx_plus_def lang_Rep_Cls repeats_def simp del: rx_lang.simps(5))
  have digits: "u = ''7''" if "u \<in> rx_lang ?r" "''7 up'' = u @ v" for u v
    using that by (cases u) (auto simp: lang Cons_eq_append_conv is_digit_def code_in_def)
  have "''7'' \<in> rx_lang ?r" by (simp add: lang is_digit_def code_in_def)
  moreover have "prefix ''7'' ''7 up''" by simp
  ultimately have "\<exists>u \<in> rx_lang ?r. prefix u ''7 up''" by blast
  then have "parser_read 0 (snd (parser_next (Seq Bol ?r) (parser_new ''7 up''))) = Some ''7''"
    using parser_takes_tokens [OF free, of "parser_new ''7 up''"] digits by (auto simp: parser_new_def Let_def)
  moreover have "\<not> (\<exists>u \<in> rx_lang ?r. prefix u ''up'')"
    by (auto simp: lang prefix_def Cons_eq_append_conv is_digit_def code_in_def)
  then have "\<not> fst (parser_next (Seq Bol ?r) (parser_new ''up''))"
    using parser_takes_tokens [OF free, of "parser_new ''up''"] by (simp add: parser_new_def Let_def)
  ultimately show ?thesis by simp
qed

text \<open>
  C24. Private messages stay private: the private message command of a member with a nick
  changes nothing but the output, and adds to it one copy of the message for the sender and
  one for the member with the given nick; without a text or without such a member only the
  sender is answered.
\<close>

theorem private_messages_stay_private:
  assumes "member_hasNick w m"
  shows "processCommand E m r (''/msg '' @ args) w = Some
     (let s = dropWhile is_space args
      in if after_word s = [] then reply E m txt_no_text w
         else case findMemberByNick w (m_room (w_member w m)) (first_word s) of
             None \<Rightarrow> reply E m txt_msg_no_user w
           | Some k \<Rightarrow>
               (let d = wire E (Packet_Message (private_packet w m k (after_word s)))
                in w\<lparr>w_out := w_out w @ delivery w (m_client (w_member w m)) d
                        @ delivery w (m_client (w_member w k)) d\<rparr>))"
  using private_message_line [OF assms, of E r args]
  unfolding private_delivery_def Let_def .

theorem private_messages_stay_private_witness:
  "\<exists>w'. processCommand (sample_env (\<lambda>_. None)) 0 0 ''/msg bob hi'' chat_world = Some w' \<and> length (w_out w') = 2"
proof -
  have nick: "member_hasNick chat_world 0" by (simp add: member_hasNick_def chat_sel)
  have words: "after_word ''bob hi'' = ''hi''" "first_word ''bob hi'' = ''bob''" "dropWhile is_space ''bob hi'' = ''bob hi''"
    by (simp_all add: after_word_def first_word_def is_space_def)
  have bob: "findMemberByNick chat_world (m_room (w_member chat_world 0)) ''bob'' = Some 1"
    by (simp add: findMemberByNick_def chat_sel)
  have "processCommand (sample_env (\<lambda>_. None)) 0 0 (''/msg '' @ ''bob hi'') chat_world \<in>
      Some ` {w'. length (w_out w') = 2}"
    unfolding private_messages_stay_private [OF nick] Let_def words bob
    by (simp add: delivery_def chat_sel)
  then show ?thesis by auto
qed

text \<open>
  C25. Bans take effect: after a moderator's command to ban a nick of at most 24 bytes that is
  not banned yet, the nick is banned in the room and no member of the room has it any more; after
  the command to ban an account, a client of this account who is not privileged in the room cannot
  join it. (Unless the list is full: 101 entries, for moderators who are no administrators.)
\<close>

theorem bans_take_effect:
  assumes "nicks_ok w" and "members_ok w" and "member_isModer w m"
  shows "(nick \<noteq> [] \<and> \<not> is_space (hd nick) \<and> length nick \<le> 24
      \<and> (member_isAdmin w m \<or> length (r_bannedNicks (w_room w (m_room (w_member w m)))) \<le> 100)
      \<and> nick \<notin> set (r_bannedNicks (w_room w (m_room (w_member w m)))) \<longrightarrow>
      (\<exists>w'. processCommand E m r (''/bannick '' @ nick) w = Some w'
        \<and> nick \<in> set (r_bannedNicks (w_room w' (m_room (w_member w m))))
        \<and> (\<forall>k \<in> set (r_members (w_room w' (m_room (w_member w m)))). m_nick (w_member w' k) \<noteq> nick)))
    \<and> ((member_isAdmin w m \<or> length (r_bannedUids (w_room w (m_room (w_member w m)))) \<le> 100)
      \<and> \<not> privileged w (m_room (w_member w m)) c \<longrightarrow>
      (\<exists>w'. processCommand E m r (''/banuid '' @ show_u32 (c_uid (w_client w c))) w = Some w'
        \<and> (\<forall>res w2. client_joinRoom c (m_room (w_member w m)) w' \<noteq> Inr (Inr res, w2))))"
  using bannick_line [OF assms(1,3), of nick E r] banuid_line [OF assms(2,3) _ refl, of c E r] by blast

theorem bans_take_effect_witness:
  "(\<exists>w'. processCommand (sample_env (\<lambda>_. None)) 0 0 ''/bannick bob'' chat_world = Some w'
     \<and> ''bob'' \<in> set (r_bannedNicks (w_room w' 0)))
   \<and> (\<exists>w'. processCommand (sample_env (\<lambda>_. None)) 0 0 (''/banuid '' @ show_u32 0) chat_world = Some w' \<and>
    (\<forall>res w2. client_joinRoom 1 0 w' \<noteq> Inr (Inr res, w2)))"
proof -
  have "member_isModer chat_world 0" "\<not> privileged chat_world 0 1"
    by (simp_all add: member_isModer_def member_isOwner_def Let_def privileged_def
        client_isAdmin_def room_isModerator_def chat_sel)
  with bans_take_effect [OF chat_okD(3) [OF chat_world_chat] chat_okD(1) [OF chat_world_chat], of 0 "''bob''" "sample_env (\<lambda>_. None)" 0 1]
  show ?thesis by (auto simp: chat_sel is_space_def)
qed

text \<open>
  C26. Flooding: a client that has sent more than three messages and sends on within a
  second only gets answers that it is flooding, however many messages it sends; nothing
  else of the server changes.
\<close>

theorem flooding_is_ignored:
  assumes "in_window w c" and "c_messageCounter (w_client w c) > 3"
  shows "foldR (message_process E c) ps w =
    Inr (w\<lparr>w_out := w_out w @ concat (map (flood_reply E w c) ps)\<rparr>)"
  by (rule messages_flooded [OF assms])

theorem flooding_is_ignored_witness:
  "\<exists>w'. foldR (message_process (sample_env (\<lambda>_. None)) 1) [greeting, greeting]
     (upd_client 1 (\<lambda>cl. cl\<lparr>c_messageCounter := 4\<rparr>) chat_world) = Inr w' \<and> length (w_out w') = 2"
proof -
  let ?w = "upd_client 1 (\<lambda>cl. cl\<lparr>c_messageCounter := 4\<rparr>) chat_world"
  have "in_window ?w 1" "c_messageCounter (w_client ?w 1) > 3" by (simp_all add: in_window_def chat_sel)
  from flooding_is_ignored [OF this, of "sample_env (\<lambda>_. None)" "[greeting, greeting]"] show ?thesis
    by (simp add: flood_reply_def greeting_def delivery_def chat_sel)
qed

text \<open>
  C27. The records of the rooms stay sound: a room keeps its name and its owner for ever, and
  in every state that can be reached from rooms that are so, the lists of bans, moderators and
  remembered members of a room have no duplicates, guests are no moderators and nothing is
  remembered about them, what is remembered under an account is about this account, and the
  history has at most as many messages as its limit.
\<close>

theorem room_records_sound:
  assumes "reachable E w0 w"
    and "\<And>q. room_sets_ok (w_room w0 q) \<and> no_guests (w_room w0 q) \<and> length (r_history (w_room w0 q)) \<le> history_limit E"
  shows "let rm = w_room w r in
      distinct (r_bannedNicks rm) \<and> distinct (r_bannedIps rm) \<and> distinct (r_bannedUids rm)
    \<and> distinct (r_moderators rm) \<and> distinct (map fst (r_membersInfo rm))
    \<and> 0 \<notin> set (r_moderators rm) \<and> 0 \<notin> fst ` set (r_membersInfo rm)
    \<and> (\<forall>(uid, info) \<in> set (r_membersInfo rm). mi_user_id info = uid)
    \<and> length (r_history rm) \<le> history_limit E
    \<and> (w_nextRoom w0 \<le> r \<or> (r_name rm = r_name (w_room w0 r) \<and> r_ownerId rm = r_ownerId (w_room w0 r)))"
proof -
  have "rooms_kept (w_nextRoom w0) (w_room w0) w"
    by (rule kept.keep_reachable [OF assms(1)]) (simp add: rooms_kept_def same_room_def)
  moreover have "all_rooms room_sets_ok w" "all_rooms no_guests w" "all_rooms (\<lambda>rm. length (r_history rm) \<le> history_limit E) w"
    using sets.keep_reachable [OF assms(1)] guests.keep_reachable [OF assms(1)]
      history.keep_reachable [OF assms(1)] assms(2) by (simp_all add: all_rooms_def)
  ultimately show ?thesis
    by (fastforce simp: all_rooms_def room_sets_ok_def no_guests_def rooms_kept_def same_room_def Let_def not_le)
qed

theorem room_records_sound_witness: "0 \<notin> set (r_moderators (w_room one_client 3))"
proof -
  have "room_sets_ok (w_room empty_world q) \<and> no_guests (w_room empty_world q)
      \<and> length (r_history (w_room empty_world q)) \<le> history_limit (sample_env (\<lambda>_. None))" for q
    by (simp add: empty_world_def room_new_def room_sets_ok_def no_guests_def)
  from room_records_sound [OF reachable.step [OF reachable.start sample_step] this, of 3] show ?thesis
    by (simp add: Let_def)
qed

text \<open>
  C28. Joining a room: a client that is in a room of this name, a name of no room, and a client
  that is banned there are refused, in this order, with their own error and without any change of
  membership; otherwise the members of the room are those of before and one more, which is of this
  client and has an id that no other member has, and the client is sent, in this order, its id in the room, the list of the members
  with a nick and, on request, the history of the room, oldest message first.
\<close>

theorem join_decided:
  assumes "members_ok w" and "c_connection (w_client w c) = Some cn"
    and "\<And>r. length (r_members (w_room w r)) < 2 ^ 32 - 1"
  shows "let refused = (\<lambda>cod txt. \<exists>w'. join_process E c p w = Inr w'
        \<and> (\<forall>q. r_members (w_room w' q) = r_members (w_room w q)) \<and> w_client w' = w_client w
        \<and> w_out w' = w_out w @ [Send cn (wire E (err_packet PT_join (pj_sequenceId p) (pj_target p) cod txt))])
    in if client_getRoomByName w c (pj_target p) \<noteq> None
       then refused EC_already_connected (txt_already_connected @ pj_target p @ quote)
       else case server_getRoomByName w (pj_target p) of
         None \<Rightarrow> refused EC_not_found (txt_room_pre @ pj_target p @ txt_room_post)
       | Some r \<Rightarrow> (case ban_of w r c of
           Some e \<Rightarrow> refused EC_user_banned (ban_text w c e)
         | None \<Rightarrow> \<exists>w' i. join_process E c p w = Inr w' \<and> fresh_id r i w
             \<and> (\<forall>q. set (r_members (w_room w' q)) = (if q = r then {w_nextMember w} else {}) \<union> set (r_members (w_room w q)))
             \<and> w_nextMember w \<notin> set (r_members (w_room w r))
             \<and> m_client (w_member w' (w_nextMember w)) = c \<and> m_id (w_member w' (w_nextMember w)) = i
             \<and> (\<forall>d. set (c_rooms (w_client w' d)) = (if d = c then {r} else {}) \<union> set (c_rooms (w_client w d)))
             \<and> prefix (w_out w @ map (Send cn)
                  ([wire E (Packet_Join (packet_join_new\<lparr>pj_sequenceId := pj_sequenceId p,
                      pj_target := r_name (w_room w r), pj_member_id := i\<rparr>)),
                    wire E (online_list_packet w r (pj_sequenceId p))]
                   @ (if pj_load_history p then r_history (w_room w r) else []))) (w_out w'))"
proof (cases "client_getRoomByName w c (pj_target p)")
  case None
  show ?thesis
  proof (cases "server_getRoomByName w (pj_target p)")
    case (Some r)
    show ?thesis
      using join_banned [OF assms(1,3,2) None Some, of _ E] join_welcomed [OF assms(1,3,2) None Some, of E]
      by (cases "ban_of w r c") (simp_all add: None Some greeting_frames_def Let_def)
  qed (use join_elsewhere(2) [OF assms(2) None, of E] in \<open>simp add: None Let_def\<close>)
qed (use join_elsewhere(1) [OF assms(2), of p E] in \<open>simp add: Let_def\<close>)

theorem join_decided_witness:
  "let w = upd_client 2 (\<lambda>cl. cl\<lparr>c_connection := Some 9\<rparr>) chat_world
   in \<exists>w'. join_process (sample_env (\<lambda>_. None)) 2 (packet_join_new\<lparr>pj_target := ''#lobby''\<rparr>) w = Inr w'
     \<and> set (r_members (w_room w' 0)) = {0, 1, 2}"
proof -
  let ?w = "upd_client 2 (\<lambda>cl. cl\<lparr>c_connection := Some 9\<rparr>) chat_world"
  have rooms: "c_rooms (w_client ?w d) = c_rooms (w_client chat_world d)" for d by simp
  have "members_ok ?w"
    using chat_okD(1) [OF chat_world_chat] unfolding members_ok_def rooms by simp
  moreover have "length (r_members (w_room ?w r)) < 2 ^ 32 - 1" for r by (simp add: sample_defs room_new_def)
  moreover have "client_getRoomByName ?w 2 ''#lobby'' = None" "server_getRoomByName ?w ''#lobby'' = Some 0" "ban_of ?w 0 2 = None"
    by (simp_all add: client_getRoomByName_def server_getRoomByName_def ban_of_def sample_defs)
  ultimately show ?thesis
    using join_decided [of ?w 2 9 "sample_env (\<lambda>_. None)" "packet_join_new\<lparr>pj_target := ''#lobby''\<rparr>"]
    by (auto simp: Let_def chat_sel)
qed

text \<open>
  C29. Creating a room: a guest, a name that is not valid (a number sign and 3 to 24 allowed
  characters) and a name that is taken are refused, in this order, with their own error and
  without any other change; otherwise the client gets a new room with this name, which it
  owns and which is empty, and the packet back as an answer, and the other rooms stay.
\<close>

theorem create_room_decided:
  assumes "registry_ok w"
  shows "let w' = create_room_process E c p w; r = w_nextRoom w;
      refused = (\<lambda>cod txt. w' = client_sendPacket E c
        (err_packet PT_create_room (pc_sequenceId p) (pc_target p) cod txt) w)
    in if client_isGuest (w_client w c) then refused EC_access_denied txt_guest_no_create
       else if \<not> valid_room_name (pc_target p) then refused EC_invalid_target txt_bad_room_name
       else if server_getRoomByName w (pc_target p) \<noteq> None then refused EC_already_exists txt_room_exists
       else server_getRoomByName w' (pc_target p) = Some r \<and> r_ownerId (w_room w' r) = c_uid (w_client w c)
          \<and> r_members (w_room w' r) = [] \<and> w_rooms w' = w_rooms w @ [r]
          \<and> (\<forall>q. q = r \<or> w_room w' q = w_room w q)
          \<and> w_out w' = w_out w @ delivery w c (wire E (Packet_CreateRoom p))"
  using create_room_refused [where w = w and c = c and p = p and E = E] create_room_made [OF assms, where E = E and p = p and c = c]
  by (auto simp: Let_def)

theorem create_room_decided_witness:
  "server_getRoomByName (create_room_process (sample_env (\<lambda>_. None)) 0 (make_room ''#kitchen'') chat_world)
     ''#kitchen'' = Some 1
   \<and> create_room_process (sample_env (\<lambda>_. None)) 1 (make_room ''#kitchen'') chat_world = client_sendPacket
     (sample_env (\<lambda>_. None)) 1 (err_packet PT_create_room None ''#kitchen'' EC_access_denied txt_guest_no_create) chat_world"
proof -
  have ok: "registry_ok chat_world" using chat_world_chat by (simp add: chat_ok_iff rooms_ok_def)
  have "\<not> client_isGuest (w_client chat_world 0)" "client_isGuest (w_client chat_world 1)"
    by (simp_all add: client_isGuest_def chat_sel)
  moreover have "valid_room_name ''#kitchen''"
    unfolding valid_room_name_def by (intro exI [of _ "''kitchen''"]) (simp add: room_name_char_def is_alpha_def code_in_def)
  moreover have "server_getRoomByName chat_world ''#kitchen'' = None"
    by (simp add: server_getRoomByName_def chat_sel)
  ultimately show ?thesis
    using create_room_decided [OF ok, where c = 0 and p = "make_room ''#kitchen''" and E = "sample_env (\<lambda>_. None)"]
      create_room_decided [OF ok, where c = 1 and p = "make_room ''#kitchen''" and E = "sample_env (\<lambda>_. None)"]
    by (simp_all add: make_room_def Let_def chat_sel)
qed

text \<open>
  C30. Removing a room: a guest, a name of no room and a client who is neither the owner nor
  an administrator are refused, in this order, with their own error and without any other
  change; otherwise there is no room of this name any more, the room has no members, is in
  nobody's list of rooms, and all other rooms of the server stay.
\<close>

theorem remove_room_decided:
  assumes "chat_ok w"
  shows "let refused = (\<lambda>cod txt. remove_room_process E c p w = Inr (client_sendPacket E c
        (err_packet PT_remove_room (pr_sequenceId p) (pr_target p) cod txt) w))
    in if client_isGuest (w_client w c) then refused EC_access_denied txt_guest_no_remove
       else case server_getRoomByName w (pr_target p) of
         None \<Rightarrow> refused EC_not_found txt_no_such_room
       | Some r \<Rightarrow>
           if client_isAdmin (w_client w c) \<or> c_uid (w_client w c) = r_ownerId (w_room w r)
           then \<exists>w'. remove_room_process E c p w = Inr w' \<and> server_getRoomByName w' (pr_target p) = None
             \<and> r_members (w_room w' r) = [] \<and> set (w_rooms w') = set (w_rooms w) - {r}
             \<and> (\<forall>d. r \<notin> set (c_rooms (w_client w' d)))
           else refused EC_access_denied txt_cannot_remove"
  using remove_room_refused [where w = w and c = c and p = p and E = E]
    remove_room_done [OF assms, where c = c and p = p and E = E]
  by (simp add: Let_def split: option.split)

theorem remove_room_decided_witness:
  "(\<exists>w'. remove_room_process (sample_env (\<lambda>_. None)) 0 (drop_room ''#lobby'') chat_world = Inr w' \<and> w_rooms w' = [])
   \<and> (\<exists>w'. remove_room_process (sample_env (\<lambda>_. None)) 1 (drop_room ''#lobby'') chat_world = Inr w' \<and> w_rooms w' = [0])"
proof -
  have people: "\<not> client_isGuest (w_client chat_world 0)" "client_isGuest (w_client chat_world 1)"
    by (simp_all add: client_isGuest_def chat_sel)
  have room: "server_getRoomByName chat_world ''#lobby'' = Some 0"
    by (simp add: server_getRoomByName_def chat_sel)
  note decided = remove_room_decided [OF chat_world_chat, where p = "drop_room ''#lobby''" and E = "sample_env (\<lambda>_. None)"]
  have "\<exists>w'. remove_room_process (sample_env (\<lambda>_. None)) 0 (drop_room ''#lobby'') chat_world = Inr w' \<and> w_rooms w' = []"
    using decided [where c = 0] people room by (auto simp: drop_room_def chat_sel)
  moreover have "\<exists>w'. remove_room_process (sample_env (\<lambda>_. None)) 1 (drop_room ''#lobby'') chat_world = Inr w' \<and> w_rooms w' = [0]"
    using decided [where c = 1] people room by (auto simp: client_sendPacket_eq chat_sel)
  ultimately show ?thesis by blast
qed

text \<open>
  C31. From socket to socket: when a connected member with a nick sends the frame of a message
  for its room (not a command, not blank, and not after four others in a window of a second that
  is still open), the handler adds to the output just one frame for every connected member of
  the room, and no other: the text of the message, cleaned, under the name, id and colour of the
  sender and the next number of the room; the same text is appended to the history. The message is
  counted: one more in the open window, or the first of a window that starts now when the old
  one is more than a second old. (For a JSON library that keeps what it is given.)
\<close>

theorem frame_reaches_room:
  assumes "wire_laws E" and "0 \<le> pm_msgtime p" and "pm_msgtime p < 2 ^ 64"
    and "server_ok E w" and "w_connectionToClient w cn = Some c"
    and "client_getRoomByName w c (pm_target p) = Some r" and "findMemberByClient w r c = Some m"
    and "m_nick (w_member w m) \<noteq> []" and "pm_target p \<noteq> []"
    and "clean_message E (pm_message p) \<noteq> []" and "hd (clean_message E (pm_message p)) \<noteq> CHR ''/''"
    and "\<not> list_all is_space (clean_message E (pm_message p))"
    and "w_now w - c_lastMessageTime (w_client w c) \<le> 1 \<Longrightarrow> c_messageCounter (w_client w c) \<le> 3"
  shows "\<exists>w' sends. on_message E cn (wire E (Packet_Message p)) w = Inr w' \<and> w_out w' = w_out w @ sends
    \<and> (\<forall>k d. count_list sends (Send k d) =
        (if d = wire E (room_message w r m (clean_message E (pm_message p)))
            \<and> (\<exists>q \<in> set (r_members (w_room w r)). c_connection (w_client w (m_client (w_member w q))) = Some k)
         then 1 else 0))
    \<and> r_history (w_room w' r) = trim_history (history_limit E)
        (r_history (w_room w r) @ [wire E (room_message w r m (clean_message E (pm_message p)))])
    \<and> r_nextMessageId (w_room w' r) = r_nextMessageId (w_room w r) + 1
    \<and> (if w_now w - c_lastMessageTime (w_client w c) \<le> 1
       then c_messageCounter (w_client w' c) = c_messageCounter (w_client w c) + 1
         \<and> c_lastMessageTime (w_client w' c) = c_lastMessageTime (w_client w c)
       else c_messageCounter (w_client w' c) = 1 \<and> c_lastMessageTime (w_client w' c) = w_now w)"
  using message_end_to_end [OF assms(1-12)] assms(13) unfolding in_window_def by (auto split: if_splits)

theorem frame_reaches_room_witness:
  "\<exists>w' sends. on_message codec_env 8 (wire codec_env (Packet_Message greeting)) chat_world = Inr w' \<and> w_out w' = sends
     \<and> count_list sends (Send 7 (wire codec_env (room_message chat_world 0 1 ''hi''))) = 1
     \<and> count_list sends (Send 8 (wire codec_env (room_message chat_world 0 1 ''hi''))) = 1"
proof -
  have "client_getRoomByName chat_world 1 (pm_target greeting) = Some 0"
    by (simp add: client_getRoomByName_def greeting_def chat_sel)
  moreover have "findMemberByClient chat_world 0 1 = Some 1"
    by (simp add: findMemberByClient_def chat_sel)
  moreover have "clean_message codec_env (pm_message greeting) = ''hi''"
    using codec_clean by (simp add: greeting_def)
  ultimately show ?thesis
    using frame_reaches_room [OF codec_laws, of greeting chat_world 8 1 0 1] invD(1) [OF codec_inv]
    by (auto simp: in_window_def greeting_def is_space_def chat_sel)
qed

text \<open>
  C32. Frames are typed: however often the process was started, stopped and killed, everything
  a running server has written to a socket is the text of a packet of the protocol, and of
  one without keys and passwords, or closes the connection; and a history holds nothing but
  the texts of messages to everybody, so that no private message is ever replayed.
\<close>

theorem frames_are_packets:
  assumes "json_laws (e_json E)" and "stream_laws E S" and "\<forall>sg. installs sg"
    and "process_run E S installs (Running w d)"
  shows "set (w_out w) \<subseteq> range Send_close \<union> {Send cn (wire E p) | cn p. without_credentials p = p}
    \<and> (\<forall>r. set (r_history (w_room w r)) \<subseteq> {wire E (Packet_Message pm) | pm. pm_to_id pm = 0})"
proof -
  have ok: "frames_ok E w" using process_run_ok [OF assms] by (simp add: sound_def)
  have frame: "f \<in> range Send_close \<union> {Send cn (wire E p) | cn p. without_credentials p = p}" if "packet_frame E f" for f
    using that by (cases f) auto
  show ?thesis
  proof (intro conjI allI subsetI)
    fix f assume "f \<in> set (w_out w)"
    with ok show "f \<in> range Send_close \<union> {Send cn (wire E p) | cn p. without_credentials p = p}"
      by (intro frame) (simp add: frames_ok_def)
  next
    fix r h assume "h \<in> set (r_history (w_room w r))"
    with ok show "h \<in> {wire E (Packet_Message pm) | pm. pm_to_id pm = 0}"
      by (fastforce simp: frames_ok_def all_rooms_def public_history_def)
  qed
qed

theorem frames_are_packets_witness:
  "Send 7 (wire (sample_env (\<lambda>_. None)) (Packet_Ping None)) \<in>
     range Send_close \<union> {Send cn (wire (sample_env (\<lambda>_. None)) p) | cn p. without_credentials p = p}"
proof -
  let ?E = "sample_env (\<lambda>_. None)"
  have "json_laws (e_json ?E)" using sample_json_laws by (simp add: sample_env_def)
  from frames_are_packets [OF this sample_stream_laws _ pinged_run] show ?thesis
    by (auto simp: pinged_out)
qed

text \<open>
  C33. The nick on joining: the member that a client gets in a room that does not ban it has, with
  auto-login, the nick, the gender and the color that the room remembers for its account, or else
  the name, gender and color of the client; but no nick, when this one is banned there for the
  client (unless it is privileged) or is the nick of another member. Without auto-login it has no
  nick. No other member changes.
\<close>

theorem auto_login_picks_nick:
  assumes "members_ok w" and "length (r_members (w_room w r)) < 2 ^ 32 - 1"
    and "client_getRoomByName w c (pj_target p) = None" and "server_getRoomByName w (pj_target p) = Some r"
    and "ban_of w r c = None"
  shows "let cl = w_client w c; rm = w_room w r; m = w_nextMember w;
      (nick, girl, color) = (case (if c_uid cl = 0 then None else map_of (r_membersInfo rm) (c_uid cl)) of
          Some info \<Rightarrow> (mi_nick info, mi_girl info, mi_color info)
        | None \<Rightarrow> (c_name cl, c_isGirl cl, c_color cl));
      refused = (\<not> privileged w r c \<and> nick \<in> set (r_bannedNicks rm)
        \<or> nick \<in> (\<lambda>k. m_nick (w_member w k)) ` set (r_members rm))
    in \<exists>w'. join_process E c p w = Inr w' \<and> m \<in> set (r_members (w_room w' r)) \<and> m_client (w_member w' m) = c
      \<and> (if pj_auto_login p
         then m_nick (w_member w' m) = (if refused then [] else nick)
           \<and> m_girl (w_member w' m) = girl \<and> m_color (w_member w' m) = color
         else m_nick (w_member w' m) = [])
      \<and> (\<forall>k. k = m \<or> w_member w' k = w_member w k)"
proof -
  obtain nick girl color where old: "look_of w r c = (nick, girl, color)" by (cases "look_of w r c")
  have taken: "nick_refused w r c nick \<longleftrightarrow> \<not> privileged w r c \<and> nick \<in> set (r_bannedNicks (w_room w r))
      \<or> nick \<in> (\<lambda>k. m_nick (w_member w k)) ` set (r_members (w_room w r))"
    by (auto simp: nick_refused_def image_iff)
  show ?thesis
    using join_look [OF assms, of E] unfolding old fst_conv snd_conv taken look_def prod.inject
    unfolding old [unfolded look_of_def Let_def] Let_def prod.case by (auto split: if_splits)
qed

theorem auto_login_picks_nick_witness:
  "let w = upd_client 2 (\<lambda>cl. cl\<lparr>c_name := ''carol''\<rparr>) chat_world; twin = upd_client 2 (\<lambda>cl. cl\<lparr>c_name := ''bob''\<rparr>) chat_world
   in (\<exists>w'. join_process (sample_env (\<lambda>_. None)) 2 (packet_join_new\<lparr>pj_target := ''#lobby''\<rparr>) w = Inr w'
         \<and> m_nick (w_member w' 2) = ''carol'')
    \<and> (\<exists>w'. join_process (sample_env (\<lambda>_. None)) 2 (packet_join_new\<lparr>pj_target := ''#lobby''\<rparr>) twin = Inr w'
         \<and> m_nick (w_member w' 2) = [])"
proof -
  let ?v = "\<lambda>n. upd_client 2 (\<lambda>cl. cl\<lparr>c_name := n\<rparr>) chat_world"
  have rooms: "c_rooms (w_client (?v n) d) = c_rooms (w_client chat_world d)" for n d by simp
  have ok: "members_ok (?v n)" for n
    using chat_okD(1) [OF chat_world_chat] unfolding members_ok_def rooms by simp
  moreover have "length (r_members (w_room (?v n) 0)) < 2 ^ 32 - 1" for n by (simp add: sample_defs)
  moreover have "client_getRoomByName (?v n) 2 ''#lobby'' = None" "server_getRoomByName (?v n) ''#lobby'' = Some 0"
    "ban_of (?v n) 0 2 = None" for n
    by (simp_all add: client_getRoomByName_def server_getRoomByName_def ban_of_def sample_defs)
  ultimately have join: "\<exists>w'. join_process (sample_env (\<lambda>_. None)) 2 (packet_join_new\<lparr>pj_target := ''#lobby''\<rparr>) (?v n) = Inr w'
      \<and> m_nick (w_member w' 2) = (if n \<in> {''alice'', ''bob''} then [] else n)" for n
    using auto_login_picks_nick [of "?v n" 0 2 "packet_join_new\<lparr>pj_target := ''#lobby''\<rparr>" "sample_env (\<lambda>_. None)"]
    by (auto simp: Let_def chat_sel packet_join_new_def) (simp_all add: chat_world_def no_client_def client_new_def)
  show ?thesis using join [of "''carol''"] join [of "''bob''"] by (simp add: Let_def)
qed

text \<open>
  C34. Invalid UTF-8 in a message is blotted out: for the search for invalid bytes that the
  UTF-8 library documents, the repaired text is valid, has the length of the text, differs
  from it only by blanks and is the text itself when that is valid.
\<close>

theorem invalid_utf8_is_blotted_out:
  assumes "find_invalid_laws f"
  shows "let t = replaceInvalidUtf8 f CHR '' '' s
    in valid_utf8 f t \<and> list_all2 (\<lambda>a b. b = a \<or> b = CHR '' '') s t \<and> (valid_utf8 f s \<longrightarrow> t = s)"
  using replaceInvalidUtf8_valid [OF assms] replaceInvalidUtf8_blotted [of "CHR '' ''" s f]
    replaceInvalidUtf8_id [of f s] by (auto simp: Let_def blotted_def)

theorem invalid_utf8_is_blotted_out_witness:
  "valid_utf8 ascii_prefix (replaceInvalidUtf8 ascii_prefix CHR '' '' [CHR ''a'', CHR 0xFF])"
  using invalid_utf8_is_blotted_out [OF ascii_prefix_laws] by (simp add: Let_def)

text \<open>
  C35. Messages are cleaned: whatever a client sends, the text that is passed on has at most
  30 KiB and no four line breaks in a row, and it is valid UTF-8 (for the search for invalid
  bytes that the UTF-8 library documents).
\<close>

theorem messages_are_clean:
  assumes "find_invalid_laws (e_find_invalid E)"
  shows "length (clean_message E msg) \<le> 30 * 1024 \<and> valid_utf8 (e_find_invalid E) (clean_message E msg)
    \<and> (\<nexists>a b. clean_message E msg = a @ [nl, nl, nl, nl] @ b)"
  using clean_message_length [of E msg] clean_message_valid [OF assms] clean_message_runs [of E msg]
    run_ok_no_four [of 0] by (auto simp: max_message_size_def)

theorem messages_are_clean_witness:
  "\<nexists>a b. clean_message ((sample_env (\<lambda>_. None))\<lparr>e_find_invalid := ascii_prefix\<rparr>) [nl, nl, nl, nl, nl] = a @ [nl, nl, nl, nl] @ b"
  using messages_are_clean [of "(sample_env (\<lambda>_. None))\<lparr>e_find_invalid := ascii_prefix\<rparr>"] ascii_prefix_laws by simp

text \<open>
  C36. Restarting: however the process was started, stopped, killed and started again, from
  a machine without saved rooms, when it ends by a signal or of itself and the file of the rooms can
  be written, then the next start has its rooms: under each name a room just when there
  was one, with its owner, history, number of messages, remembered members, bans and
  moderators, but without members; the server it starts with satisfies the invariant. (For a
  JSON library that reads what it has written.)
\<close>

theorem rooms_survive_restart:
  assumes "json_laws (e_json E)" and "stream_laws E S" and "\<forall>sg. installs sg"
    and "process_run E S installs (Running w d)" and "process_step E S (Running w d) (Exited n d')"
    and "s_writable S rooms_dat"
  shows "\<exists>v. main_start E S installs t x d' = Running v d' \<and> server_inv E v
    \<and> (\<forall>nm. map_option contents (room_called v nm) = map_option contents (room_called w nm))
    \<and> (\<forall>r \<in> set (w_rooms v). r_members (w_room v r) = [])"
  using restart_after_exit [OF assms, of t x] rooms_restored_by_name unfolding sound_def by blast

theorem rooms_survive_restart_witness:
  "\<exists>w d' v rm. process_run (login_env 1) sample_streams (\<lambda>_. True) (Running w Map.empty)
     \<and> sigShutdown (login_env 1) sample_streams SIGINT w Map.empty = Exited 2 d'
     \<and> main_start (login_env 1) sample_streams (\<lambda>_. True) 2000 () d' = Running v d'
     \<and> room_called v ''#kitchen'' = Some rm \<and> r_ownerId rm = 7"
proof -
  let ?E = "login_env 1"
  obtain w r where w: "process_run ?E sample_streams (\<lambda>_. True) (Running w Map.empty)"
    "server_getRoomByName w ''#kitchen'' = Some r" "r_ownerId (w_room w r) = 7"
    by (rule kitchen_run)
  obtain d' where d': "sigShutdown ?E sample_streams SIGINT w Map.empty = Exited 2 d'"
    by (simp add: sigShutdown_def)
  have exit: "process_step ?E sample_streams (Running w Map.empty) (Exited 2 d')"
    unfolding d' [symmetric] by (rule process_step.shutdown) simp
  have json: "json_laws (e_json ?E)" and streams: "stream_laws ?E sample_streams"
    using sample_json_laws sample_stream_laws by (simp_all add: login_json(1) stream_laws_def sample_env_def sample_json_def)
  have writable: "s_writable sample_streams rooms_dat" by (simp add: sample_streams_def)
  obtain v where v: "main_start ?E sample_streams (\<lambda>_. True) 2000 () d' = Running v d'"
    "map_option contents (room_called v ''#kitchen'') = map_option contents (room_called w ''#kitchen'')"
    using rooms_survive_restart [OF json streams _ w(1) exit writable, where t = 2000 and x = "()"] by auto
  then obtain rm where "room_called v ''#kitchen'' = Some rm" "contents rm = contents (w_room w r)"
    using w(2) by (auto simp: room_called_def)
  with w(1,3) d' v(1) show ?thesis by (auto simp: contents_def)
qed

text \<open>
  C37. Statements are tried again: what is executed on MySQL through a statement runs at least
  once and at most three times; when the first attempt fails with an error of the SQL client,
  the reconnection succeeds and the second attempt succeeds, the result is that of the second
  attempt; every other outcome of the first attempt is final.
\<close>

theorem queries_are_retried:
  assumes "ticks \<mu> 1 (f sql ps)" and "ticks \<mu> 0 (mysql_reconnect E)"
  shows "let q = statement_retry E (Some (sql, ps)) def f in \<mu> x < \<mu> (snd (q x)) \<and> \<mu> (snd (q x)) \<le> \<mu> x + 3
    \<and> (case f sql ps x of (Inl Sql_exception, x1) \<Rightarrow>
         (case mysql_reconnect E x1 of (Inr _, x2) \<Rightarrow>
            (case f sql ps x2 of (Inr a, y) \<Rightarrow> q x = (Inr a, y) | _ \<Rightarrow> True) | _ \<Rightarrow> True)
       | (r, x1) \<Rightarrow> q x = (r, x1))"
proof -
  let ?f = "f sql ps" and ?r = "mysql_reconnect E"
  have once: "retryWithReconnect ?r 3 0 ?f x = (Inl e, y)" if "?f x = (Inl e, y)" "e \<noteq> Sql_exception" for e y
    using that by (subst retryWithReconnect.simps) simp
  show ?thesis
    using retry_bound [OF assms, of 0 3 x] retry_first_success [of ?f x] retry_recovers [of ?f x _ ?r] once
    by (auto simp: statement_retry_def Let_def split: prod.splits sum.splits exn.splits)
qed

theorem queries_are_retried_witness:
  "\<forall>E :: (js, nat) env. snd (statement_retry
     (E\<lparr>e_sql_conn := \<lambda>_ _. True, e_mysql_reconnect := \<lambda>x. (Inr (), x)\<rparr>) (Some (''SELECT 1'', [])) 0
     (\<lambda>sql ps x. (Inl Sql_exception :: exn + int, x + 1)) 0) \<le> 3"
proof
  fix E :: "(js, nat) env"
  let ?E = "E\<lparr>e_sql_conn := \<lambda>_ _. True, e_mysql_reconnect := \<lambda>x. (Inr (), x)\<rparr>"
  have "ticks id 0 (mysql_reconnect ?E)" by (simp add: ticks_def mysql_reconnect_def)
  from queries_are_retried [OF _ this, of "\<lambda>sql ps x. (Inl Sql_exception :: exn + int, x + 1)" "''SELECT 1''" "[]" 0 0]
  show "snd (statement_retry ?E (Some (''SELECT 1'', [])) 0 (\<lambda>sql ps x. (Inl Sql_exception :: exn + int, x + 1)) 0) \<le> 3"
    by (simp add: ticks_def Let_def)
qed

text \<open>
  C38. The gate stays open: since the counter of failed logins is written by a command
  without its key, which Redis rejects for its number of arguments, no number of attempts
  from an address without a counter ever closes the gate. (It would close at a counter of
  four.)
\<close>

theorem gate_never_closes:
  assumes "setex_arity E" and "e_redis_command E ''GET'' [''gate-auth-'' @ ip] x = (Inr Reply_null, x)"
  shows "((\<lambda>s. snd (gate_auth E ip False s)) ^^ n) x = x \<and> fst (gate_auth E ip False x) = Inr True"
proof -
  have "gate_auth E ip False x = (Inr True, x)" using gate_open [OF assms(1)] assms(2) by (simp add: gate_key_def)
  then show ?thesis by (induction n) auto
qed

theorem gate_never_closes_witness:
  "fst (gate_auth (arity_env (\<lambda>_. None)) ''10.0.0.1'' False ()) = Inr True"
  using gate_never_closes [OF arity_env_laws [of "\<lambda>_. None"], of "''10.0.0.1''" "()" 0] by (simp add: arity_env_def)

text \<open>
  C39. Numbers in commands are read exactly up to the largest 32-bit number, and larger
  ones as this number: a number written out as the argument of a command is the number the
  command works with, and printing a number and reading it again gives the number.
\<close>

theorem typed_numbers_saturate:
  assumes "at_arguments (show_nat n @ rest) p" and "rest = [] \<or> \<not> is_digit (hd rest)"
  shows "read_uint v (snd (parser_next r_int p)) = (if n < 2 ^ 32 then word_of_nat n else - 1)
    \<and> read_uint v (snd (parser_next r_int p)) = istream_uint (show_nat n)
    \<and> istream_uint (show_u32 u) = u"
proof -
  let ?s = "show_nat n @ rest"
  have digits: "list_all is_digit (show_nat n)" "read_digits (show_nat n) = int n" "show_nat n \<noteq> []"
    using read_digits_show_nat [of n] by (simp_all)
  have arg: "takeWhile is_digit ?s = show_nat n"
    using digits(1) assms(2) by (cases rest) (auto simp: takeWhile_append list_all_iff takeWhile_eq_all_conv)
  have "istream_uint (show_nat n) = (if n < 2 ^ 32 then word_of_nat n else - 1)"
    using digits by (simp add: istream_uint_def istream_number_digits Let_def)
  moreover have "?s \<noteq> []" "is_digit (hd ?s)" using digits by (cases "show_nat n"; simp)+
  ultimately show ?thesis
    using parser_next_int(2) [of p ?s v] assms(1) istream_uint_show_u32 [of u] by (simp add: at_arguments_def arg)
qed


theorem typed_numbers_saturate_witness:
  "read_uint 0 (snd (parser_next r_int (command_parser (CHR ''/'' # ''banuid '' @ show_nat 4294967299)))) = - 1"
proof -
  let ?n = "show_nat 4294967299"
  have "?n \<noteq> []" "list_all is_digit ?n" using read_digits_show_nat [of 4294967299] by simp_all
  then have "dropWhile is_space ?n = ?n" using digit_not_space by (cases ?n) auto
  with command_line_words [of "''banuid''" ?n] have
    words: "first_word (''banuid '' @ ?n) = ''banuid''" "after_word (''banuid '' @ ?n) = ?n"
    by (simp_all add: is_space_def)
  have "at_arguments (?n @ []) (command_parser (CHR ''/'' # ''banuid '' @ ?n))"
    using processCommand_words(2) [OF refl, of "''banuid '' @ ?n"] words by simp
  from typed_numbers_saturate [OF this, of 0] show ?thesis by simp
qed

text \<open>
  C40. The server refines a machine of sessions: every event it handles in a reachable state is,
  on the clock and the table of sessions (for each token in use the connection, if any, the address
  and the time it was last heard), one step by the cause of the event. An opening enters one
  session or is refused, by the limits of its address; a frame only refreshes the session of its
  connection, or moves it to the session whose token it claims; a close or error ends or unplugs this
  session alone; the timer sweeps by the time of silence; clock and services touch none. In every
  such state no two sessions share a connection, a session is at the address of its connection, and
  no address has more than five.
\<close>

theorem server_refines_sessions:
  assumes "started w0" and "reachable E w0 w" and "admissible w ev" and "handle E ev w = Inr w'"
  shows "session_step (getRealClientIp E) (cause_of E ev) (w_now w, sessions w) (w_now w', sessions w')
    \<and> table_ok (getRealClientIp E) (sessions w')"
  using handle_sessions [OF reachable_inv [OF assms(1,2)] assms(3,4)]
    reachable_sessions [OF assms(1) reachable.step [OF assms(2) server_step.intros [OF assms(3,4)]]]
  by (simp add: session_state_def)

theorem server_refines_sessions_witness:
  "session_step (\<lambda>_. sample_ip) (Arrives 7) (1000, Map.empty) (1000, [sample_token \<mapsto> (Some 7, sample_ip, 1000)])"
proof -
  let ?E = "sample_env (\<lambda>_. None)"
  have addr: "getRealClientIp ?E = (\<lambda>_. sample_ip)" by (simp add: fun_eq_iff sample_ip_of)
  have "sessions one_client = [sample_token \<mapsto> (Some 7, sample_ip, 1000)]" "sessions empty_world = Map.empty"
    by (simp_all add: sessions_def [abs_def] seen_def one_client_sel empty_world_def fun_eq_iff)
  moreover have "w_now empty_world = 1000" "admissible empty_world (Opened 7)" by (simp_all add: empty_world_def)
  ultimately show ?thesis
    using server_refines_sessions [OF empty_started reachable.start _ sample_opens, of "\<lambda>_. None"] by (simp add: addr one_client_sel)
qed

end
